(* ===== verification/Rust_Prelude.thy ===== *)
theory Rust_Prelude
  imports Main "HOL-Library.Finite_Map" "HOL-Library.Word" "HOL-Library.List_Lexorder"
    "HOL-Library.Char_ord" "HOL-Library.Multiset"
begin

text \<open>
  The parts of Rust's standard library that every component of the engine uses, and the
  automation shared by the component theories.

  \<^item> \<open>res\<close> is a Rust \<open>Result\<close> together with the third outcome a call can have, a panic
    (\<open>expect\<close>, \<open>unreachable!\<close>, an index out of range, a division by zero).
  \<^item> \<open>HashMap\<close> and \<open>BTreeMap\<close> are finite maps; a \<open>BTreeMap\<close> iterates in ascending key
    order, a \<open>HashMap\<close> or \<open>HashSet\<close> in an order Rust leaves unspecified. That order is an
    explicit argument (\<open>hash_order\<close>) of every definition whose code iterates one, and
    the theorems hold for every such order.
  \<^item> \<open>i64\<close> and \<open>u64\<close> are 64-bit words (an \<open>as\<close> cast between them is the identity on
    bits; an \<open>i64\<close> compares through \<open>sint\<close>), \<open>f64\<close> is its IEEE-754 bit pattern.
\<close>

section \<open>Results and panics\<close>

datatype ('e, 'a) res = Ok 'a | Err 'e | Panic string

named_theorems res_simps \<open>equations that run the result type's combinators\<close>

fun res_bind :: "('e, 'a) res \<Rightarrow> ('a \<Rightarrow> ('e, 'b) res) \<Rightarrow> ('e, 'b) res" where
  "res_bind (Ok a) f = f a"
| "res_bind (Err e) f = Err e"
| "res_bind (Panic m) f = Panic m"

definition res_map :: "('a \<Rightarrow> 'b) \<Rightarrow> ('e, 'a) res \<Rightarrow> ('e, 'b) res" where
  "res_map f r = res_bind r (\<lambda>a. Ok (f a))"

text \<open>A \<open>for\<close> loop over a state whose body may return early or panic.\<close>

fun fold_res :: "('s \<Rightarrow> 'a \<Rightarrow> ('e, 's) res) \<Rightarrow> 's \<Rightarrow> 'a list \<Rightarrow> ('e, 's) res" where
  "fold_res f s [] = Ok s"
| "fold_res f s (x # xs) = res_bind (f s x) (\<lambda>s'. fold_res f s' xs)"

text \<open>\<open>iter().map(f).collect::<Result<Vec<_>, _>>()\<close>.\<close>

fun collect_res :: "('a \<Rightarrow> ('e, 'b) res) \<Rightarrow> 'a list \<Rightarrow> ('e, 'b list) res" where
  "collect_res f [] = Ok []"
| "collect_res f (x # xs) = res_bind (f x) (\<lambda>y. res_map (\<lambda>ys. y # ys) (collect_res f xs))"

text \<open>\<open>retain\<close> and \<open>filter\<close> with a predicate that may panic.\<close>

fun retain_res :: "('a \<Rightarrow> ('e, bool) res) \<Rightarrow> 'a list \<Rightarrow> ('e, 'a list) res" where
  "retain_res p [] = Ok []"
| "retain_res p (x # xs) =
     res_bind (p x) (\<lambda>b. res_map (\<lambda>ys. if b then x # ys else ys) (retain_res p xs))"

definition expect :: "string \<Rightarrow> 'a option \<Rightarrow> ('e, 'a) res" where
  "expect msg x = (case x of Some a \<Rightarrow> Ok a | None \<Rightarrow> Panic msg)"

definition ok_or :: "'e \<Rightarrow> 'a option \<Rightarrow> ('e, 'a) res" where
  "ok_or e x = (case x of Some a \<Rightarrow> Ok a | None \<Rightarrow> Err e)"

text \<open>\<open>map_err\<close>: an error of the callee becomes an error of the caller.\<close>

fun map_err :: "('e \<Rightarrow> 'f) \<Rightarrow> ('e, 'a) res \<Rightarrow> ('f, 'a) res" where
  "map_err g (Ok a) = Ok a"
| "map_err g (Err e) = Err (g e)"
| "map_err g (Panic m) = Panic m"

definition is_panic :: "('e, 'a) res \<Rightarrow> bool" where
  "is_panic r = (case r of Panic _ \<Rightarrow> True | _ \<Rightarrow> False)"

lemma res_map_simps [simp, res_simps]:
  "res_map f (Ok a) = Ok (f a)" "res_map f (Err e) = Err e" "res_map f (Panic m) = Panic m"
  by (simp_all add: res_map_def)

lemma expect_simps [simp, res_simps]:
  "expect m (Some a) = Ok a" "expect m None = Panic m"
  by (simp_all add: expect_def)

lemma ok_or_simps [simp, res_simps]:
  "ok_or e (Some a) = Ok a" "ok_or e None = Err e"
  by (simp_all add: ok_or_def)

lemma is_panic_simps [simp, res_simps]:
  "is_panic (Panic m)" "\<not> is_panic (Ok a)" "\<not> is_panic (Err e)"
  by (simp_all add: is_panic_def)

lemma res_bind_Ok_iff: "res_bind r f = Ok b \<longleftrightarrow> (\<exists>a. r = Ok a \<and> f a = Ok b)"
  by (cases r) auto

lemma res_bind_Err_iff: "res_bind r f = Err e \<longleftrightarrow> r = Err e \<or> (\<exists>a. r = Ok a \<and> f a = Err e)"
  by (cases r) auto

lemma res_bind_is_panic: "is_panic (res_bind r f) \<longleftrightarrow> is_panic r \<or> (\<exists>a. r = Ok a \<and> is_panic (f a))"
  by (cases r) auto

lemma no_panic_no_err: "\<not> is_panic r \<Longrightarrow> (\<And>e. r \<noteq> Err e) \<Longrightarrow> \<exists>a. r = Ok a"
  by (cases r) auto

lemma ok_or_Ok_iff: "ok_or e x = Ok a \<longleftrightarrow> x = Some a"
  by (cases x) auto

lemma map_err_Ok_iff: "map_err g r = Ok a \<longleftrightarrow> r = Ok a"
  by (cases r) auto

lemma res_map_Ok_iff: "res_map f r = Ok b \<longleftrightarrow> (\<exists>a. r = Ok a \<and> b = f a)"
  by (cases r) auto

lemma res_map_Err_iff [simp]: "res_map f r = Err e \<longleftrightarrow> r = Err e"
  by (cases r) auto

lemma res_map_is_panic [simp]: "is_panic (res_map f r) = is_panic r"
  by (cases r) auto

lemma fold_res_append:
  "fold_res f s (xs @ ys) = res_bind (fold_res f s xs) (\<lambda>s'. fold_res f s' ys)"
proof (induction xs arbitrary: s)
  case (Cons x xs)
  then show ?case by (cases "f s x") simp_all
qed simp

lemma fold_res_cong [fundef_cong]:
  "xs = ys \<Longrightarrow> s = t \<Longrightarrow> (\<And>u x. x \<in> set ys \<Longrightarrow> f u x = g u x) \<Longrightarrow> fold_res f s xs = fold_res g t ys"
proof (induction xs arbitrary: s t ys)
  case (Cons x xs)
  then show ?case by (cases "g t x") auto
qed simp

text \<open>A loop whose body always succeeds is a plain fold.\<close>

lemma fold_res_foldl:
  "(\<And>s x. x \<in> set xs \<Longrightarrow> f s x = Ok (g s x)) \<Longrightarrow> fold_res f s xs = Ok (foldl g s xs)"
  by (induction xs arbitrary: s) auto

lemma fold_res_invariant:
  "fold_res f s xs = Ok s' \<Longrightarrow> P s \<Longrightarrow>
   (\<And>s x t. x \<in> set xs \<Longrightarrow> P s \<Longrightarrow> f s x = Ok t \<Longrightarrow> P t) \<Longrightarrow> P s'"
proof (induction xs arbitrary: s)
  case (Cons x xs)
  from Cons.prems(1) obtain t where "f s x = Ok t" "fold_res f t xs = Ok s'"
    by (auto simp: res_bind_Ok_iff)
  with Cons.IH [of t] Cons.prems(2,3) show ?case by auto
qed simp

text \<open>A loop that only appends: the elements of the result, iteration by iteration.\<close>

lemma fold_res_appends:
  assumes "\<And>acc x. x \<in> set xs \<Longrightarrow>
    \<exists>ys. f acc x = Ok (acc @ ys) \<and> set ys = F x \<and> mset ys \<subseteq># G x"
  shows "\<exists>zs. fold_res f acc xs = Ok (acc @ zs) \<and> set zs = (\<Union>x \<in> set xs. F x) \<and>
    mset zs \<subseteq># sum_list (map G xs)"
  using assms
proof (induction xs arbitrary: acc)
  case (Cons x xs)
  obtain ys where ys: "f acc x = Ok (acc @ ys)" "set ys = F x" "mset ys \<subseteq># G x"
    using Cons.prems [of x acc] by auto
  have "\<exists>zs. fold_res f (acc @ ys) xs = Ok ((acc @ ys) @ zs) \<and> set zs = (\<Union>x \<in> set xs. F x) \<and>
      mset zs \<subseteq># sum_list (map G xs)"
    by (rule Cons.IH) (use Cons.prems in auto)
  then obtain zs where "fold_res f (acc @ ys) xs = Ok ((acc @ ys) @ zs)" "set zs = (\<Union>x \<in> set xs. F x)"
    "mset zs \<subseteq># sum_list (map G xs)" by blast
  with ys show ?case
    by (intro exI [of _ "ys @ zs"]) (auto intro: subset_mset.add_mono)
qed simp

lemma fold_res_appends_set:
  assumes "\<And>acc x. x \<in> set xs \<Longrightarrow> \<exists>ys. f acc x = Ok (acc @ ys) \<and> set ys = F x"
  shows "\<exists>zs. fold_res f acc xs = Ok (acc @ zs) \<and> set zs = (\<Union>x \<in> set xs. F x)"
  using assms
proof (induction xs arbitrary: acc)
  case (Cons x xs)
  obtain ys where ys: "f acc x = Ok (acc @ ys)" "set ys = F x" using Cons.prems [of x acc] by auto
  have "\<exists>zs. fold_res f (acc @ ys) xs = Ok ((acc @ ys) @ zs) \<and> set zs = (\<Union>x \<in> set xs. F x)"
    by (rule Cons.IH) (use Cons.prems in auto)
  with ys show ?case by (auto simp: Un_ac)
qed simp

lemma retain_res_Ok_all:
  "(\<And>x. x \<in> set xs \<Longrightarrow> p x = Ok (q x)) \<Longrightarrow> retain_res p xs = Ok (filter q xs)"
  by (induction xs) auto

lemma collect_res_Ok_all:
  "(\<And>x. x \<in> set xs \<Longrightarrow> f x = Ok (g x)) \<Longrightarrow> collect_res f xs = Ok (map g xs)"
  by (induction xs) auto

lemma collect_res_cong [fundef_cong]:
  "xs = ys \<Longrightarrow> (\<And>x. x \<in> set ys \<Longrightarrow> f x = g x) \<Longrightarrow> collect_res f xs = collect_res g ys"
  by (induction ys arbitrary: xs) auto

lemma collect_res_Ok_iff:
  "collect_res f xs = Ok ys \<longleftrightarrow> list_all2 (\<lambda>x y. f x = Ok y) xs ys"
proof (induction xs arbitrary: ys)
  case (Cons x xs)
  show ?case
    by (cases ys) (auto simp: res_bind_Ok_iff res_map_Ok_iff Cons.IH)
qed auto

lemma collect_res_list_all:
  "collect_res f xs = Ok ys \<Longrightarrow> (\<And>x y. x \<in> set xs \<Longrightarrow> f x = Ok y \<Longrightarrow> P y) \<Longrightarrow> list_all P ys"
proof (induction xs arbitrary: ys)
  case (Cons x xs)
  from Cons.prems(1) obtain z zs where z: "f x = Ok z" "collect_res f xs = Ok zs" "ys = z # zs"
    by (auto simp: res_bind_Ok_iff res_map_Ok_iff)
  have "P z" using Cons.prems(2) [of x z] z by simp
  moreover have "list_all P zs"
    by (rule Cons.IH [OF z(2)]) (use Cons.prems(2) in auto)
  ultimately show ?case using z by simp
qed simp

lemma collect_res_is_panic:
  "is_panic (collect_res f xs) \<Longrightarrow> \<exists>x \<in> set xs. is_panic (f x)"
proof (induction xs)
  case (Cons x xs)
  then show ?case by (cases "f x") auto
qed simp

section \<open>Machine integers\<close>

type_synonym u8 = "8 word"
type_synonym u16 = "16 word"
type_synonym u32 = "32 word"
type_synonym u64 = "64 word"
type_synonym i64 = "64 word"

datatype ordering = Less | Equal | Greater

fun ordering_reverse :: "ordering \<Rightarrow> ordering" where
  "ordering_reverse Less = Greater"
| "ordering_reverse Equal = Equal"
| "ordering_reverse Greater = Less"

text \<open>\<open>then_with\<close>: the second comparison decides a tie of the first.\<close>

fun then_with :: "ordering \<Rightarrow> ordering \<Rightarrow> ordering" where
  "then_with Equal o2 = o2"
| "then_with Less o2 = Less"
| "then_with Greater o2 = Greater"

definition cmp_ord :: "'a::linorder \<Rightarrow> 'a \<Rightarrow> ordering" where
  "cmp_ord a b = (if a < b then Less else if a = b then Equal else Greater)"

definition i64_cmp :: "i64 \<Rightarrow> i64 \<Rightarrow> ordering" where
  "i64_cmp a b = cmp_ord (sint a) (sint b)"

lemma cmp_ord_refl [simp]: "cmp_ord a a = Equal"
  by (simp add: cmp_ord_def)

lemma cmp_ord_simps [simp]:
  "cmp_ord a b = Equal \<longleftrightarrow> a = b" "cmp_ord a b = Less \<longleftrightarrow> a < b" "cmp_ord a b = Greater \<longleftrightarrow> b < a"
  by (auto simp: cmp_ord_def)

lemma cmp_ord_reverse: "ordering_reverse (cmp_ord a b) = cmp_ord b a"
  by (auto simp: cmp_ord_def)

lemma i64_cmp_simps [simp]:
  "i64_cmp a b = Equal \<longleftrightarrow> a = b" "i64_cmp a b = Less \<longleftrightarrow> sint a < sint b"
  "i64_cmp a b = Greater \<longleftrightarrow> sint b < sint a"
  by (auto simp: i64_cmp_def intro: signed_word_eqI)

lemma ordering_reverse_simps [simp]:
  "ordering_reverse x = Equal \<longleftrightarrow> x = Equal" "ordering_reverse x = Less \<longleftrightarrow> x = Greater"
  "ordering_reverse x = Greater \<longleftrightarrow> x = Less" "ordering_reverse (ordering_reverse x) = x"
  by (cases x; simp)+

section \<open>IEEE-754 doubles by their bits\<close>

type_synonym f64 = "64 word"

definition f64_magnitude :: "f64 \<Rightarrow> nat" where
  "f64_magnitude x = unat (take_bit 63 x)"

definition f64_is_nan :: "f64 \<Rightarrow> bool" where
  "f64_is_nan x \<longleftrightarrow> f64_magnitude x > 0x7FF0000000000000"

text \<open>
  The bits after the sign order the magnitudes, so a non-NaN double has the rank of its
  signed magnitude; both zeroes have rank 0.
\<close>

definition f64_rank :: "f64 \<Rightarrow> int" where
  "f64_rank x = (if bit x 63 then - int (f64_magnitude x) else int (f64_magnitude x))"

definition f64_partial_cmp :: "f64 \<Rightarrow> f64 \<Rightarrow> ordering option" where
  "f64_partial_cmp a b =
     (if f64_is_nan a \<or> f64_is_nan b then None else Some (cmp_ord (f64_rank a) (f64_rank b)))"

definition f64_eq :: "f64 \<Rightarrow> f64 \<Rightarrow> bool" where
  "f64_eq a b \<longleftrightarrow> f64_partial_cmp a b = Some Equal"

section \<open>Strings\<close>

text \<open>Decimal rendering of an unsigned integer, as \<open>Display\<close> prints it.\<close>

definition digit_char :: "nat \<Rightarrow> char" where
  "digit_char d = char_of (48 + d)"

fun show_nat :: "nat \<Rightarrow> string" where
  "show_nat n = (if n < 10 then [digit_char n] else show_nat (n div 10) @ [digit_char (n mod 10)])"

declare show_nat.simps [simp del]

definition is_ascii_digit :: "char \<Rightarrow> bool" where
  "is_ascii_digit c \<longleftrightarrow> 48 \<le> (of_char c :: nat) \<and> (of_char c :: nat) \<le> 57"

definition digit_val :: "char \<Rightarrow> nat" where
  "digit_val c = of_char c - 48"

fun digits_value :: "nat \<Rightarrow> string \<Rightarrow> nat" where
  "digits_value acc [] = acc"
| "digits_value acc (c # cs) = digits_value (10 * acc + digit_val c) cs"

text \<open>
  \<open>str::parse\<close> for an unsigned integer of the given number of bits: an optional \<open>+\<close>,
  then one or more ASCII digits, and an error when the value does not fit.
\<close>

fun strip_plus :: "string \<Rightarrow> string" where
  "strip_plus [] = []"
| "strip_plus (c # cs) = (if c = CHR ''+'' \<and> cs \<noteq> [] then cs else c # cs)"

definition parse_unsigned :: "nat \<Rightarrow> string \<Rightarrow> nat option" where
  "parse_unsigned bits s =
     (let ds = strip_plus s in
      if ds \<noteq> [] \<and> list_all is_ascii_digit ds \<and> digits_value 0 ds < 2 ^ bits
      then Some (digits_value 0 ds) else None)"

definition parse_u32 :: "string \<Rightarrow> u32 option" where
  "parse_u32 s = map_option of_nat (parse_unsigned 32 s)"

definition parse_u64 :: "string \<Rightarrow> u64 option" where
  "parse_u64 s = map_option of_nat (parse_unsigned 64 s)"

text \<open>\<open>str::parse::<i64>\<close>: an optional sign, digits, and the two's complement range.\<close>

definition parse_i64 :: "string \<Rightarrow> i64 option" where
  "parse_i64 s =
     (case s of
        CHR ''-'' # ds \<Rightarrow>
          (if ds \<noteq> [] \<and> list_all is_ascii_digit ds \<and> digits_value 0 ds \<le> 2 ^ 63
           then Some (word_of_int (- int (digits_value 0 ds))) else None)
      | _ \<Rightarrow> map_option of_nat (parse_unsigned 63 s))"

lemma digits_value_append:
  "digits_value acc (xs @ ys) = digits_value (digits_value acc xs) ys"
  by (induction xs arbitrary: acc) auto

lemma digit_char_props:
  assumes "d < 10"
  shows "is_ascii_digit (digit_char d)" "digit_val (digit_char d) = d" "digit_char d \<noteq> CHR ''+''"
    "digit_char d \<noteq> CHR ''-''"
proof -
  have v: "(of_char (digit_char d) :: nat) = 48 + d"
    using assms by (simp add: digit_char_def)
  show "is_ascii_digit (digit_char d)" "digit_val (digit_char d) = d"
    using assms v by (simp_all add: is_ascii_digit_def digit_val_def)
  show "digit_char d \<noteq> CHR ''+''" "digit_char d \<noteq> CHR ''-''"
    using v by (auto dest: arg_cong [where f = "of_char :: char \<Rightarrow> nat"])
qed

lemma show_nat_digits: "show_nat n \<noteq> [] \<and> list_all is_ascii_digit (show_nat n)"
proof (induction n rule: show_nat.induct)
  case (1 n)
  then show ?case
    by (subst (1 2) show_nat.simps) (auto simp: digit_char_props)
qed

lemma digits_value_show_nat [simp]: "digits_value 0 (show_nat n) = n"
proof (induction n rule: show_nat.induct)
  case (1 n)
  then show ?case
    by (subst show_nat.simps) (auto simp: digit_char_props digits_value_append)
qed

lemma digit_not_sign: "is_ascii_digit c \<Longrightarrow> c \<noteq> CHR ''+'' \<and> c \<noteq> CHR ''-''"
  by (auto simp: is_ascii_digit_def)

lemma strip_plus_digits [simp]: "list_all is_ascii_digit s \<Longrightarrow> strip_plus s = s"
  by (cases s) (auto dest: digit_not_sign)

lemma parse_unsigned_show [simp]:
  "parse_unsigned bits (show_nat n) = (if n < 2 ^ bits then Some n else None)"
  using show_nat_digits [of n] by (auto simp: parse_unsigned_def Let_def)

section \<open>Text\<close>

text \<open>\<open>{:?}\<close> of a string of printable ASCII.\<close>

definition debug_str :: "string \<Rightarrow> string" where
  "debug_str s = [CHR 0x22] @ concat (map (\<lambda>c. if c = CHR 0x22 \<or> c = CHR 0x5C then [CHR 0x5C, c] else [c]) s)
     @ [CHR 0x22]"

text \<open>\<open>split_once(sep)\<close>: what is before and after the first separator.\<close>

fun split_once :: "char \<Rightarrow> string \<Rightarrow> (string \<times> string) option" where
  "split_once sep [] = None"
| "split_once sep (c # cs) =
     (if c = sep then Some ([], cs) else map_option (\<lambda>(a, b). (c # a, b)) (split_once sep cs))"

lemma split_once_append: "sep \<notin> set a \<Longrightarrow> split_once sep (a @ sep # b) = Some (a, b)"
  by (induction a) auto

text \<open>\<open>split(sep)\<close>, and joining the pieces again.\<close>

fun split_on :: "char \<Rightarrow> string \<Rightarrow> string list" where
  "split_on sep [] = [[]]"
| "split_on sep (c # cs) =
     (if c = sep then [] # split_on sep cs
      else (case split_on sep cs of w # ws \<Rightarrow> (c # w) # ws | [] \<Rightarrow> [[c]]))"

fun join_with :: "string \<Rightarrow> string list \<Rightarrow> string" where
  "join_with sep [] = []"
| "join_with sep [s] = s"
| "join_with sep (s # t # ss) = s @ sep @ join_with sep (t # ss)"

lemma split_on_plain: "sep \<notin> set a \<Longrightarrow> split_on sep a = [a]"
  by (induction a) auto

lemma split_on_append: "sep \<notin> set a \<Longrightarrow> split_on sep (a @ sep # b) = a # split_on sep b"
  by (induction a) auto

lemma split_on_join:
  "ws \<noteq> [] \<Longrightarrow> \<forall>w \<in> set ws. sep \<notin> set w \<Longrightarrow> split_on sep (join_with [sep] ws) = ws"
  by (induction "[sep]" ws rule: join_with.induct) (auto simp: split_on_plain split_on_append)

end
