(* ===== verification/Rust_Collections.thy ===== *)
theory Rust_Collections
  imports Rust_Prelude "HOL-Library.Product_Lexorder"
begin

text \<open>
  Rust's collections: iteration of hash maps and sets in an unspecified order, maps built
  by \<open>collect\<close> and by \<open>entry(k).or_default().push(v)\<close>, deduplication through a
  \<open>HashSet\<close>, and the stable \<open>sort_by\<close>. The locale \<open>comparator_on\<close> is the contract of a
  comparison function handed to \<open>sort_by\<close>.
\<close>

section \<open>Hash iteration order\<close>

text \<open>
  A hash order gives, for a collection of \<open>n\<close> elements, the order of the \<open>n\<close> positions
  in which an iterator visits them. It is \<^emph>\<open>valid\<close> when it visits each position once.
\<close>

type_synonym hash_order = "nat \<Rightarrow> nat list"

definition valid_hash_order :: "hash_order \<Rightarrow> bool" where
  "valid_hash_order ho \<longleftrightarrow> (\<forall>n. mset (ho n) = mset [0..<n])"

definition hash_iter :: "hash_order \<Rightarrow> 'a list \<Rightarrow> 'a list" where
  "hash_iter ho xs = map (\<lambda>i. xs ! i) (ho (length xs))"

definition hm_iter :: "hash_order \<Rightarrow> ('k::linorder, 'v) fmap \<Rightarrow> ('k \<times> 'v) list" where
  "hm_iter ho m = hash_iter ho (sorted_list_of_fmap m)"

definition hs_iter :: "hash_order \<Rightarrow> 'a::linorder fset \<Rightarrow> 'a list" where
  "hs_iter ho S = hash_iter ho (sorted_list_of_fset S)"

lemma mset_hash_iter [simp]:
  assumes "valid_hash_order ho"
  shows "mset (hash_iter ho xs) = mset xs"
proof -
  have "mset (hash_iter ho xs) = image_mset (\<lambda>i. xs ! i) (mset (ho (length xs)))"
    by (simp add: hash_iter_def)
  also have "\<dots> = mset (map (\<lambda>i. xs ! i) [0..<length xs])"
    using assms by (simp add: valid_hash_order_def)
  also have "\<dots> = mset xs" by (simp add: map_nth)
  finally show ?thesis .
qed

lemma set_hash_iter [simp]: "valid_hash_order ho \<Longrightarrow> set (hash_iter ho xs) = set xs"
  by (rule mset_eq_setD) simp

lemma distinct_hash_iter [simp]:
  "valid_hash_order ho \<Longrightarrow> distinct (hash_iter ho xs) = distinct xs"
  by (rule mset_eq_imp_distinct_iff) simp

lemma length_hash_iter [simp]: "valid_hash_order ho \<Longrightarrow> length (hash_iter ho xs) = length xs"
  by (metis mset_hash_iter size_mset)

lemma hash_iter_empty [simp]: "valid_hash_order ho \<Longrightarrow> hash_iter ho [] = []"
  by (metis length_0_conv length_hash_iter)

lemma set_sorted_list_of_fmap:
  "set (sorted_list_of_fmap m) = {(k, v). fmlookup m k = Some v}"
  by (auto simp: sorted_list_of_fmap_def fmlookup_dom_iff)

lemma map_fst_sorted_list_of_fmap:
  "map fst (sorted_list_of_fmap m) = sorted_list_of_fset (fmdom m)"
  by (simp add: sorted_list_of_fmap_def o_def)

lemma set_hm_iter [simp]:
  "valid_hash_order ho \<Longrightarrow> set (hm_iter ho m) = {(k, v). fmlookup m k = Some v}"
  by (simp add: hm_iter_def set_sorted_list_of_fmap)

lemma distinct_sorted_list_of_fset [simp]: "distinct (sorted_list_of_fset S)"
  by (simp add: sorted_list_of_fset.rep_eq)

lemma sorted_sorted_list_of_fset [simp]: "sorted (sorted_list_of_fset S)"
  by (simp add: sorted_list_of_fset.rep_eq)

lemma distinct_keys_hm_iter:
  assumes "valid_hash_order ho"
  shows "distinct (map fst (hm_iter ho m))"
proof -
  have "mset (map fst (hm_iter ho m)) = mset (map fst (sorted_list_of_fmap m))"
    using assms by (simp add: hm_iter_def flip: image_mset.compositionality)
  then have "distinct (map fst (hm_iter ho m)) = distinct (map fst (sorted_list_of_fmap m))"
    by (rule mset_eq_imp_distinct_iff)
  then show ?thesis by (simp add: map_fst_sorted_list_of_fmap)
qed

lemma set_hs_iter [simp]: "valid_hash_order ho \<Longrightarrow> set (hs_iter ho S) = fset S"
  by (simp add: hs_iter_def)

lemma distinct_hs_iter [simp]: "valid_hash_order ho \<Longrightarrow> distinct (hs_iter ho S)"
  by (simp add: hs_iter_def)

definition insertion_order :: hash_order where
  "insertion_order n = [0..<n]"

lemma valid_insertion_order [simp, intro]: "valid_hash_order insertion_order"
  by (simp add: valid_hash_order_def insertion_order_def)

definition reverse_order :: hash_order where
  "reverse_order n = rev [0..<n]"

lemma valid_reverse_order [simp, intro]: "valid_hash_order reverse_order"
  by (simp add: valid_hash_order_def reverse_order_def)

section \<open>Maps built from sequences\<close>

text \<open>\<open>collect\<close> into a map: a later entry overwrites an earlier one with its key.\<close>

definition hm_collect :: "('k \<times> 'v) list \<Rightarrow> ('k, 'v) fmap" where
  "hm_collect kvs = foldl (\<lambda>m (k, v). fmupd k v m) fmempty kvs"

lemma fmlookup_foldl_upd:
  "fmlookup (foldl (\<lambda>m (k, v). fmupd k v m) m kvs) k =
     (case map_of (rev kvs) k of Some v \<Rightarrow> Some v | None \<Rightarrow> fmlookup m k)"
proof (induction kvs arbitrary: m)
  case (Cons kv kvs)
  then show ?case
    by (cases kv) (auto simp: map_add_def split: option.splits)
qed simp

lemma fmlookup_hm_collect [simp]: "fmlookup (hm_collect kvs) k = map_of (rev kvs) k"
  by (simp add: hm_collect_def fmlookup_foldl_upd split: option.splits)

lemma hm_collect_Some_iff:
  "distinct (map fst kvs) \<Longrightarrow> fmlookup (hm_collect kvs) k = Some v \<longleftrightarrow> (k, v) \<in> set kvs"
  by (simp add: map_of_eq_Some_iff rev_map [symmetric])

lemma map_of_rev_SomeD: "map_of (rev kvs) k = Some v \<Longrightarrow> (k, v) \<in> set kvs"
  by (auto dest: map_of_SomeD)

lemma map_of_rev_eq_None [simp]: "map_of (rev kvs) k = None \<longleftrightarrow> k \<notin> fst ` set kvs"
  by (simp add: map_of_eq_None_iff)

lemma fmdom_hm_collect [simp]: "fset (fmdom (hm_collect kvs)) = fst ` set kvs"
proof (rule set_eqI)
  fix k
  have "k \<in> fset (fmdom (hm_collect kvs)) \<longleftrightarrow> fmlookup (hm_collect kvs) k \<noteq> None"
    unfolding fmlookup_dom_iff by blast
  then show "k \<in> fset (fmdom (hm_collect kvs)) \<longleftrightarrow> k \<in> fst ` set kvs" by simp
qed

text \<open>\<open>extend\<close>: the entries of the second map win.\<close>

definition hm_extend :: "('k, 'v) fmap \<Rightarrow> ('k, 'v) fmap \<Rightarrow> ('k, 'v) fmap" where
  "hm_extend m n = m ++\<^sub>f n"

lemma fmlookup_hm_extend [simp]:
  "fmlookup (hm_extend m n) k = (case fmlookup n k of Some v \<Rightarrow> Some v | None \<Rightarrow> fmlookup m k)"
  by (auto simp: hm_extend_def fmlookup_dom_iff split: option.splits)

text \<open>\<open>entry(k).or_default().push(v)\<close>.\<close>

definition hm_push :: "'k \<Rightarrow> 'v \<Rightarrow> ('k, 'v list) fmap \<Rightarrow> ('k, 'v list) fmap" where
  "hm_push k v m = fmupd k ((case fmlookup m k of Some vs \<Rightarrow> vs | None \<Rightarrow> []) @ [v]) m"

lemma fmlookup_hm_push:
  "fmlookup (hm_push k v m) k' =
     (if k' = k then Some ((case fmlookup m k of Some vs \<Rightarrow> vs | None \<Rightarrow> []) @ [v])
      else fmlookup m k')"
  by (simp add: hm_push_def)

text \<open>Grouping a sequence by a key with \<open>hm_push\<close>.\<close>

definition hm_group :: "('a \<Rightarrow> 'k) \<Rightarrow> 'a list \<Rightarrow> ('k, 'a list) fmap" where
  "hm_group key xs = foldl (\<lambda>m x. hm_push (key x) x m) fmempty xs"

lemma fmlookup_foldl_push:
  "fmlookup (foldl (\<lambda>m x. hm_push (key x) x m) m xs) k =
     (let ys = filter (\<lambda>x. key x = k) xs in
      if ys = [] then fmlookup m k
      else Some ((case fmlookup m k of Some vs \<Rightarrow> vs | None \<Rightarrow> []) @ ys))"
proof (induction xs arbitrary: m)
  case (Cons x xs)
  show ?case
    by (auto simp: Cons.IH Let_def fmlookup_hm_push split: option.splits)
qed (simp add: Let_def)

lemma fmlookup_hm_group:
  "fmlookup (hm_group key xs) k =
     (if filter (\<lambda>x. key x = k) xs = [] then None else Some (filter (\<lambda>x. key x = k) xs))"
  by (simp add: hm_group_def fmlookup_foldl_push Let_def)

lemma set_hm_iter_group:
  "valid_hash_order ho \<Longrightarrow>
   set (hm_iter ho (hm_group key xs)) = (\<lambda>k. (k, filter (\<lambda>x. key x = k) xs)) ` key ` set xs"
  by (auto simp: fmlookup_hm_group filter_empty_conv split: if_splits)

text \<open>Grouping loses and repeats nothing.\<close>

lemma sum_filter_mset:
  "finite K \<Longrightarrow> key ` set xs \<subseteq> K \<Longrightarrow> (\<Sum>k \<in> K. mset (filter (\<lambda>x. key x = k) xs)) = mset xs"
proof (induction xs)
  case (Cons x xs)
  have "(\<Sum>k \<in> K. mset (filter (\<lambda>y. key y = k) (x # xs))) =
      (\<Sum>k \<in> K. (if key x = k then {#x#} else {#}) + mset (filter (\<lambda>y. key y = k) xs))"
    by (intro sum.cong) auto
  also have "\<dots> = (\<Sum>k \<in> K. if key x = k then {#x#} else {#}) + mset xs"
    using Cons by (simp add: sum.distrib)
  finally show ?case using Cons.prems by simp
qed simp

lemma mset_hm_group:
  assumes "valid_hash_order ho"
  shows "sum_list (map (mset \<circ> snd) (hm_iter ho (hm_group key xs))) = mset xs"
proof -
  let ?g = "hm_iter ho (hm_group key xs)"
  have d: "distinct ?g" using distinct_keys_hm_iter [OF assms, of "hm_group key xs"] by (simp add: distinct_map)
  have inj: "inj_on (\<lambda>k. (k, filter (\<lambda>x. key x = k) xs)) (key ` set xs)" by (simp add: inj_on_def)
  have "sum_list (map (mset \<circ> snd) ?g) = (\<Sum>g \<in> set ?g. mset (snd g))"
    using d by (simp add: sum_list_distinct_conv_sum_set)
  also have "\<dots> = (\<Sum>k \<in> key ` set xs. mset (filter (\<lambda>x. key x = k) xs))"
    unfolding set_hm_iter_group [OF assms] by (simp add: sum.reindex [OF inj])
  also have "\<dots> = mset xs" by (rule sum_filter_mset) auto
  finally show ?thesis .
qed

section \<open>Deduplication through a HashSet\<close>

text \<open>\<open>filter(|x| seen.insert(key(x)))\<close>: keeps the first element of every key.\<close>

fun dedup_seen :: "('a \<Rightarrow> 'k) \<Rightarrow> 'k set \<Rightarrow> 'a list \<Rightarrow> 'a list" where
  "dedup_seen key seen [] = []"
| "dedup_seen key seen (x # xs) =
     (if key x \<in> seen then dedup_seen key seen xs
      else x # dedup_seen key (insert (key x) seen) xs)"

lemma set_dedup_seen_subset: "set (dedup_seen key seen xs) \<subseteq> set xs"
  by (induction xs arbitrary: seen) auto

lemma set_dedup_seen:
  "inj_on key (set xs) \<Longrightarrow> set (dedup_seen key seen xs) = {x \<in> set xs. key x \<notin> seen}"
proof (induction xs arbitrary: seen)
  case (Cons x xs)
  have "inj_on key (set xs)" using Cons.prems by (simp add: inj_on_def)
  with Cons show ?case by (auto simp: inj_on_def)
qed simp

lemma dedup_seen_fresh: "x \<in> set (dedup_seen key seen xs) \<Longrightarrow> key x \<notin> seen"
  by (induction xs arbitrary: seen) (auto split: if_splits)

lemma distinct_dedup_seen: "distinct (map key (dedup_seen key seen xs))"
proof (induction xs arbitrary: seen)
  case (Cons x xs)
  have "key x \<notin> key ` set (dedup_seen key (insert (key x) seen) xs)"
    using dedup_seen_fresh [of _ key "insert (key x) seen" xs] by (fastforce simp: image_iff)
  then show ?case using Cons.IH [of seen] Cons.IH [of "insert (key x) seen"] by simp
qed simp

section \<open>Stable sorting with a comparison function\<close>

text \<open>
  \<open>slice::sort_by\<close> is a stable sort. Insertion sort has the same result for every
  comparison function that is a total preorder on the elements
  (\<open>sort_by_unique\<close> below shows that such a result is unique).
\<close>

fun insert_by :: "('a \<Rightarrow> 'a \<Rightarrow> ordering) \<Rightarrow> 'a \<Rightarrow> 'a list \<Rightarrow> 'a list" where
  "insert_by cmp x [] = [x]"
| "insert_by cmp x (y # ys) =
     (if cmp x y = Greater then y # insert_by cmp x ys else x # y # ys)"

fun sort_by :: "('a \<Rightarrow> 'a \<Rightarrow> ordering) \<Rightarrow> 'a list \<Rightarrow> 'a list" where
  "sort_by cmp [] = []"
| "sort_by cmp (x # xs) = insert_by cmp x (sort_by cmp xs)"

lemma mset_insert_by [simp]: "mset (insert_by cmp x xs) = add_mset x (mset xs)"
  by (induction xs) auto

lemma mset_sort_by [simp]: "mset (sort_by cmp xs) = mset xs"
  by (induction xs) auto

lemma set_sort_by [simp]: "set (sort_by cmp xs) = set xs"
  by (rule mset_eq_setD) simp

lemma length_sort_by [simp]: "length (sort_by cmp xs) = length xs"
  by (metis mset_sort_by size_mset)

lemma distinct_sort_by [simp]: "distinct (sort_by cmp xs) = distinct xs"
  by (rule mset_eq_imp_distinct_iff) simp

locale comparator_on =
  fixes cmp :: "'a \<Rightarrow> 'a \<Rightarrow> ordering" and A :: "'a set"
  assumes cmp_anti: "a \<in> A \<Longrightarrow> b \<in> A \<Longrightarrow> cmp b a = ordering_reverse (cmp a b)"
    and cmp_trans: "a \<in> A \<Longrightarrow> b \<in> A \<Longrightarrow> c \<in> A \<Longrightarrow>
      cmp a b \<noteq> Greater \<Longrightarrow> cmp b c \<noteq> Greater \<Longrightarrow> cmp a c \<noteq> Greater"
begin

lemma cmp_refl: "a \<in> A \<Longrightarrow> cmp a a = Equal"
  using cmp_anti [of a a] by (cases "cmp a a") auto

lemma cmp_not_greater_swap: "a \<in> A \<Longrightarrow> b \<in> A \<Longrightarrow> cmp a b = Greater \<Longrightarrow> cmp b a \<noteq> Greater"
  using cmp_anti [of a b] by simp

lemma sorted_insert_by:
  assumes "x \<in> A" "set ys \<subseteq> A" "sorted_wrt (\<lambda>a b. cmp a b \<noteq> Greater) ys"
  shows "sorted_wrt (\<lambda>a b. cmp a b \<noteq> Greater) (insert_by cmp x ys)"
  using assms(2,3)
proof (induction ys)
  case (Cons y ys)
  have mem: "set (insert_by cmp x ys) = insert x (set ys)"
    by (metis mset_insert_by set_mset_add_mset_insert set_mset_mset)
  show ?case
  proof (cases "cmp x y = Greater")
    case True
    then have "cmp y x \<noteq> Greater" using assms(1) Cons.prems cmp_anti [of x y] by simp
    with True Cons show ?thesis by (auto simp: mem)
  next
    case False
    then have "cmp x b \<noteq> Greater" if "b \<in> set ys" for b
      using cmp_trans [of x y b] Cons.prems assms(1) that by auto
    with False Cons.prems show ?thesis by simp
  qed
qed simp

lemma sorted_sort_by:
  "set xs \<subseteq> A \<Longrightarrow> sorted_wrt (\<lambda>a b. cmp a b \<noteq> Greater) (sort_by cmp xs)"
  by (induction xs) (auto intro!: sorted_insert_by)

lemma filter_insert_by:
  assumes "x \<in> A" "set ys \<subseteq> A" "z \<in> A" "sorted_wrt (\<lambda>a b. cmp a b \<noteq> Greater) ys"
  shows "filter (\<lambda>y. cmp z y = Equal) (insert_by cmp x ys) =
         filter (\<lambda>y. cmp z y = Equal) (x # ys)"
  using assms(2,4)
proof (induction ys)
  case (Cons y ys)
  show ?case
  proof (cases "cmp x y = Greater \<and> cmp z x = Equal \<and> cmp z y = Equal")
    case True
    have "cmp x z = Equal" using True assms(1,3) cmp_anti [of z x] by simp
    then have "cmp x y \<noteq> Greater"
      using True cmp_trans [of x z y] assms(1,3) Cons.prems by auto
    with True show ?thesis by simp
  next
    case False
    with Cons show ?thesis by auto
  qed
qed simp

text \<open>Elements that compare equal keep their order.\<close>

lemma stable_sort_by:
  assumes "set xs \<subseteq> A" "z \<in> A"
  shows "filter (\<lambda>y. cmp z y = Equal) (sort_by cmp xs) = filter (\<lambda>y. cmp z y = Equal) xs"
  using assms(1)
proof (induction xs)
  case (Cons x xs)
  then have s: "sorted_wrt (\<lambda>a b. cmp a b \<noteq> Greater) (sort_by cmp xs)"
    by (intro sorted_sort_by) auto
  have "filter (\<lambda>y. cmp z y = Equal) (insert_by cmp x (sort_by cmp xs)) =
        filter (\<lambda>y. cmp z y = Equal) (x # sort_by cmp xs)"
    using Cons.prems assms(2) s by (intro filter_insert_by) auto
  with Cons show ?case by simp
qed simp

text \<open>A sorted, stable rearrangement is unique, so every stable sort returns the same list.\<close>

lemma sorted_stable_unique:
  assumes "mset ys = mset zs" "set ys \<subseteq> A"
    and "sorted_wrt (\<lambda>a b. cmp a b \<noteq> Greater) ys" "sorted_wrt (\<lambda>a b. cmp a b \<noteq> Greater) zs"
    and "\<And>z. z \<in> A \<Longrightarrow> filter (\<lambda>y. cmp z y = Equal) ys = filter (\<lambda>y. cmp z y = Equal) zs"
  shows "ys = zs"
  using assms
proof (induction ys arbitrary: zs)
  case (Cons y ys)
  obtain z zs' where zs: "zs = z # zs'"
    using Cons.prems(1) by (cases zs) auto
  have set_eq: "set (y # ys) = set (z # zs')"
    using Cons.prems(1) zs by (metis mset_eq_setD)
  have inA: "y \<in> A" "z \<in> A" using Cons.prems(2) set_eq by auto
  have yz: "cmp y z \<noteq> Greater"
    using set_eq Cons.prems(3) inA by (cases "y = z") (auto simp: cmp_refl)
  have zy: "cmp z y \<noteq> Greater"
    using set_eq Cons.prems(4) zs inA by (cases "y = z") (auto simp: cmp_refl)
  have eq: "cmp z y = Equal"
    using yz zy inA cmp_anti [of y z] by (cases "cmp y z"; cases "cmp z y") auto
  have "filter (\<lambda>w. cmp z w = Equal) (y # ys) = filter (\<lambda>w. cmp z w = Equal) (z # zs')"
    using Cons.prems(5) inA zs by simp
  then have "y = z" using eq inA by (simp add: cmp_refl)
  moreover have "ys = zs'"
  proof (rule Cons.IH)
    show "mset ys = mset zs'" using Cons.prems(1) zs \<open>y = z\<close> by simp
    show "filter (\<lambda>w. cmp a w = Equal) ys = filter (\<lambda>w. cmp a w = Equal) zs'" if "a \<in> A" for a
      using Cons.prems(5) [OF that] zs \<open>y = z\<close> by (auto split: if_splits)
  qed (use Cons.prems zs in auto)
  ultimately show ?case using zs by simp
qed simp

lemma sort_by_unique:
  assumes "set xs \<subseteq> A" "mset ys = mset xs"
    and "sorted_wrt (\<lambda>a b. cmp a b \<noteq> Greater) ys"
    and "\<And>z. z \<in> A \<Longrightarrow> filter (\<lambda>y. cmp z y = Equal) ys = filter (\<lambda>y. cmp z y = Equal) xs"
  shows "ys = sort_by cmp xs"
proof (rule sorted_stable_unique)
  show "set ys \<subseteq> A" using assms(1,2) by (metis mset_eq_setD)
qed (use assms sorted_sort_by stable_sort_by in simp_all)

end

interpretation ord_cmp: comparator_on "cmp_ord :: 'a::linorder \<Rightarrow> 'a \<Rightarrow> ordering" UNIV
  by unfold_locales (auto simp: cmp_ord_reverse cmp_ord_def split: if_splits)

interpretation i64_order: comparator_on i64_cmp UNIV
  by unfold_locales (auto simp: i64_cmp_def cmp_ord_reverse)

end
