(* ===== verification/Graph_Schema.thy ===== *)
theory Graph_Schema
  imports Rust_Collections
begin

text \<open>
  Crate \<open>graph-schema\<close>: identifiers, scalar types and the versioned schema
  (\<open>lib.rs\<close>) and the partitioning formula (\<open>partitioning.rs\<close>). The schema's parser and the
  classification of its changes are in theories \<open>Schema_Parser\<close> and \<open>Schema_Evolution\<close>.
\<close>

section \<open>Identifiers\<close>

datatype NodeId = NodeId (node_raw: u64)
datatype EdgeId = EdgeId (edge_raw: u64)
datatype Label = Label (label_name: string)
datatype EdgeType = EdgeType (edge_type_name: string)

text \<open>The derived \<open>Ord\<close> of a one-field struct is the order of its field.\<close>

instantiation NodeId :: linorder
begin
definition "less_eq_NodeId a b \<longleftrightarrow> node_raw a \<le> node_raw b"
definition "less_NodeId a b \<longleftrightarrow> node_raw a < node_raw b"
instance
  by standard (auto simp: less_eq_NodeId_def less_NodeId_def NodeId.expand)
end

instantiation EdgeId :: linorder
begin
definition "less_eq_EdgeId a b \<longleftrightarrow> edge_raw a \<le> edge_raw b"
definition "less_EdgeId a b \<longleftrightarrow> edge_raw a < edge_raw b"
instance
  by standard (auto simp: less_eq_EdgeId_def less_EdgeId_def EdgeId.expand)
end

instantiation Label :: linorder
begin
definition "less_eq_Label a b \<longleftrightarrow> label_name a \<le> label_name b"
definition "less_Label a b \<longleftrightarrow> label_name a < label_name b"
instance
  by standard (auto simp: less_eq_Label_def less_Label_def Label.expand)
end

instantiation EdgeType :: linorder
begin
definition "less_eq_EdgeType a b \<longleftrightarrow> edge_type_name a \<le> edge_type_name b"
definition "less_EdgeType a b \<longleftrightarrow> edge_type_name a < edge_type_name b"
instance
  by standard (auto simp: less_eq_EdgeType_def less_EdgeType_def EdgeType.expand)
end

section \<open>Scalar types and definitions\<close>

datatype ScalarType =
    TInt64 | TFloat64 | TBool | TString | TTimestamp | TBytes
  | TList ScalarType
  | TVector u32

text \<open>The derived \<open>Debug\<close> rendering (\<open>{:?}\<close>) of a scalar type.\<close>

fun show_scalar_type :: "ScalarType \<Rightarrow> string" where
  "show_scalar_type TInt64 = ''Int64''"
| "show_scalar_type TFloat64 = ''Float64''"
| "show_scalar_type TBool = ''Bool''"
| "show_scalar_type TString = ''String''"
| "show_scalar_type TTimestamp = ''Timestamp''"
| "show_scalar_type TBytes = ''Bytes''"
| "show_scalar_type (TList t) = ''List('' @ show_scalar_type t @ '')''"
| "show_scalar_type (TVector dim) = ''Vector { dim: '' @ show_nat (unat dim) @ '' }''"

record PropertyDef =
  pd_name :: string
  pd_ty :: ScalarType
  pd_optional :: bool
  pd_indexed :: bool

record NodeDef =
  nd_label :: Label
  nd_properties :: "PropertyDef list"

record EdgeDef =
  ed_edge_type :: EdgeType
  ed_from :: Label
  ed_to :: Label
  ed_properties :: "PropertyDef list"

record Schema =
  sch_version :: string
  sch_nodes :: "(Label, NodeDef) fmap"
  sch_edges :: "(EdgeType, EdgeDef) fmap"

definition node_def :: "Schema \<Rightarrow> Label \<Rightarrow> NodeDef option" where
  "node_def s l = fmlookup (sch_nodes s) l"

definition edge_def :: "Schema \<Rightarrow> EdgeType \<Rightarrow> EdgeDef option" where
  "edge_def s t = fmlookup (sch_edges s) t"

datatype SchemaError =
    SchemaParse string
  | IncompatibleEvolution string string string
  | UnknownLabel Label
  | UnknownEdgeType EdgeType
  | SchemaTypeMismatch string

text \<open>
  A schema's maps are keyed by the definitions they hold and its edges run between declared
  labels: what \<open>PestSchemaParser\<close> builds, and what every consumer of a schema relies on.
\<close>

definition wf_schema :: "Schema \<Rightarrow> bool" where
  "wf_schema s \<longleftrightarrow>
     fmpred (\<lambda>l d. nd_label d = l) (sch_nodes s) \<and>
     fmpred (\<lambda>t d. ed_edge_type d = t \<and> ed_from d |\<in>| fmdom (sch_nodes s)
                   \<and> ed_to d |\<in>| fmdom (sch_nodes s)) (sch_edges s)"

section \<open>Partitioning\<close>

text \<open>
  \<open>partition_of\<close>: \<open>h\<close> is \<open>stable_hash\<close> (xxh3 over the little-endian bytes, a
  third-party function). The remainder by zero panics.
\<close>

definition partition_of :: "(u64 \<Rightarrow> u64) \<Rightarrow> NodeId \<Rightarrow> u32 \<Rightarrow> ('e, u32) res" where
  "partition_of h n n_partitions =
     (if n_partitions = 0 then Panic ''attempt to calculate the remainder with a divisor of zero''
      else Ok (ucast (h (node_raw n) mod ucast n_partitions)))"

text \<open>The partition a node is in, once \<open>partition_of\<close> is known not to panic.\<close>

definition home_of :: "(u64 \<Rightarrow> u64) \<Rightarrow> u32 \<Rightarrow> NodeId \<Rightarrow> u32" where
  "home_of h n_partitions n = ucast (h (node_raw n) mod ucast n_partitions)"

lemma partition_of_Ok [simp]: "np \<noteq> 0 \<Longrightarrow> partition_of h n np = Ok (home_of h np n)"
  by (simp add: partition_of_def home_of_def)

lemma partition_of_zero [simp]: "is_panic (partition_of h n 0)"
  by (simp add: partition_of_def)

lemma home_of_less:
  assumes "np \<noteq> 0"
  shows "home_of h np n < np"
proof -
  have pos: "0 < unat np" using assms by (simp add: unat_gt_0)
  have up: "unat (ucast np :: u64) = unat np"
    using unsigned_less [of np, where ?'a = nat] by (simp add: unsigned_ucast_eq take_bit_nat_eq_self)
  have "unat (h (node_raw n) mod ucast np) = unat (h (node_raw n)) mod unat np"
    by (simp add: unat_mod_distrib up)
  also have "\<dots> < unat np" using pos by simp
  finally have lt: "unat (h (node_raw n) mod ucast np) < unat np" .
  have "unat (home_of h np n) = unat (h (node_raw n) mod ucast np) mod 2 ^ 32"
    by (simp add: home_of_def unsigned_ucast_eq take_bit_eq_mod)
  also have "\<dots> = unat (h (node_raw n) mod ucast np)"
    using lt unsigned_less [of np, where ?'a = nat] by (intro mod_less) simp
  finally show ?thesis using lt by (simp add: word_less_nat_alt)
qed

text \<open>A single partition owns every node, whatever the hash.\<close>

lemma home_of_one [simp]: "home_of h 1 n = 0"
  using home_of_less [of 1 h n] by simp

end
