(* ===== verification/Graph_Dsl.thy ===== *)
theory Graph_Dsl
  imports Graph_Schema
begin

text \<open>
  Crate \<open>graph-dsl\<close> (\<open>lib.rs\<close>): the query language's syntax tree and its errors.
\<close>

datatype Direction = Outgoing | Incoming

record HopRange =
  hr_min :: u32
  hr_max :: u32

datatype ComparisonOp = Eq | Ne | Lt | Lte | Gt | Gte

datatype Literal = LInt64 i64 | LFloat64 f64 | LBool bool | LString string

record PropertyFilter =
  pf_property :: string
  pf_op :: ComparisonOp
  pf_value :: Literal

record NodePattern =
  np_alias :: string
  np_label :: "Label option"
  np_property_filters :: "PropertyFilter list"

record EdgePattern =
  ep_alias :: "string option"
  ep_edge_type :: "EdgeType option"
  ep_direction :: Direction
  ep_hops :: HopRange

datatype PatternStep = StepNode NodePattern | StepEdge EdgePattern

type_synonym Pattern = "PatternStep list"

record PropertyRef =
  pr_alias :: string
  pr_property :: string

text \<open>
  A \<open>NOT EXISTS\<close> subquery holds conditions itself, so the two types are mutually
  recursive; its two fields are the constructor's arguments.
\<close>

datatype WhereCondition =
    WProperty string PropertyFilter
  | WAliasComparison string ComparisonOp string
  | WPropertyComparison PropertyRef ComparisonOp PropertyRef
  | WNotExists ExistsSubquery
and ExistsSubquery = ExistsSubquery (sub_pattern: Pattern) (sub_where: "WhereCondition list")

record ReturnItem =
  ri_alias :: string
  ri_property :: "string option"

datatype SortDirection = Asc | Desc

record OrderBy =
  ob_alias :: string
  ob_property :: string
  ob_direction :: SortDirection

record Query =
  q_pattern :: Pattern
  q_where_conditions :: "WhereCondition list"
  q_returns :: "ReturnItem list"
  q_order_by :: "OrderBy option"
  q_limit :: "u64 option"

datatype DslError = Syntax nat string

datatype ValidationError =
    VUnknownLabel string
  | VUnknownEdgeType string
  | VUnknownProperty string string
  | VIncompatibleOperator string
  | VUnknownAlias string
  | VEdgeAliasOnVariableLengthHop string u32 u32
  | VNotExistsAnchorNotPreBound string
  | VNotExistsWrongShape nat
  | VNestedNotExists
  | VNotExistsMustBeOutgoing

section \<open>Shapes\<close>

text \<open>
  A pattern alternates nodes and edges, from a node to a node: what the grammar's
  \<open>pattern = node (edge node)*\<close> yields.
\<close>

fun edge_chain :: "Pattern \<Rightarrow> bool" where
  "edge_chain [] = True"
| "edge_chain (StepEdge e # StepNode n # rest) = edge_chain rest"
| "edge_chain _ = False"

fun wf_pattern :: "Pattern \<Rightarrow> bool" where
  "wf_pattern (StepNode n # rest) = edge_chain rest"
| "wf_pattern _ = False"

fun node_aliases :: "Pattern \<Rightarrow> string list" where
  "node_aliases [] = []"
| "node_aliases (StepNode n # rest) = np_alias n # node_aliases rest"
| "node_aliases (StepEdge e # rest) = node_aliases rest"

fun edge_aliases :: "Pattern \<Rightarrow> string list" where
  "edge_aliases [] = []"
| "edge_aliases (StepNode n # rest) = edge_aliases rest"
| "edge_aliases (StepEdge e # rest) =
     (case ep_alias e of Some a \<Rightarrow> a # edge_aliases rest | None \<Rightarrow> edge_aliases rest)"

end
