(* ===== verification/Graph_Storage.thy ===== *)
theory Graph_Storage
  imports Graph_Schema
begin

text \<open>
  Crate \<open>graph-storage\<close>: property values and rows (\<open>lib.rs\<close>), table names and the
  conversion of Arrow record batches into rows (\<open>iceberg_reader.rs\<close>,
  \<open>property_value.rs\<close>). Arrow arrays and record batches are third-party; they enter as
  the operations the code calls on them (\<open>arrow_ops\<close>), the Iceberg catalog as
  \<open>catalog_ops\<close>. A stream of rows is the list of the items it yields.
\<close>

section \<open>Rows and values\<close>

datatype SnapshotId = SnapshotId (snapshot_raw: i64)

datatype PropertyValue =
    VInt64 i64
  | VFloat64 f64
  | VBool bool
  | VString string
  | VTimestamp i64
  | VBytes "u8 list"
  | VList "PropertyValue list"
  | VNull

record NodeRow =
  nr_id :: NodeId
  nr_properties :: "(string, PropertyValue) fmap"

record EdgeRow =
  er_id :: EdgeId
  er_src :: NodeId
  er_dst :: NodeId
  er_properties :: "(string, PropertyValue) fmap"

datatype StorageError =
    TableNotFound string
  | SnapshotResolution string
  | NonConformingRow string
  | Backend string

text \<open>\<open>IcebergReader\<close>: the trait's three methods.\<close>

record IcebergReader =
  latest_snapshot :: "string \<Rightarrow> (StorageError, SnapshotId) res"
  scan_nodes :: "Schema \<Rightarrow> Label \<Rightarrow> SnapshotId \<Rightarrow> (StorageError, (StorageError, NodeRow) res list) res"
  scan_edges :: "Schema \<Rightarrow> EdgeType \<Rightarrow> SnapshotId \<Rightarrow> (StorageError, (StorageError, EdgeRow) res list) res"

section \<open>Table names\<close>

text \<open>
  \<open>to_lowercase\<close> on the ASCII letters (the schema grammar admits only ASCII identifiers).
\<close>

definition to_lower_char :: "char \<Rightarrow> char" where
  "to_lower_char c =
     (let n = of_char c :: nat in if 65 \<le> n \<and> n \<le> 90 then char_of (n + 32) else c)"

definition to_lowercase :: "string \<Rightarrow> string" where
  "to_lowercase s = map to_lower_char s"

definition node_table_name :: "Label \<Rightarrow> string" where
  "node_table_name l = ''nodes_'' @ to_lowercase (label_name l)"

definition edge_table_name :: "EdgeType \<Rightarrow> string" where
  "edge_table_name t = ''edges_'' @ to_lowercase (edge_type_name t)"

section \<open>Reading Arrow arrays\<close>

text \<open>
  What the code calls on an \<open>ArrayRef\<close>: the null test, the length, and for every array type
  it downcasts to, the accessor of a slot (\<open>None\<close> when the array is of another type).
\<close>

record 'arr arrow_ops =
  arr_is_null :: "'arr \<Rightarrow> nat \<Rightarrow> bool"
  arr_len :: "'arr \<Rightarrow> nat"
  as_Int64Array :: "'arr \<Rightarrow> (nat \<Rightarrow> i64) option"
  as_Float64Array :: "'arr \<Rightarrow> (nat \<Rightarrow> f64) option"
  as_BooleanArray :: "'arr \<Rightarrow> (nat \<Rightarrow> bool) option"
  as_StringArray :: "'arr \<Rightarrow> (nat \<Rightarrow> string) option"
  as_TimestampMicrosecondArray :: "'arr \<Rightarrow> (nat \<Rightarrow> i64) option"
  as_BinaryArray :: "'arr \<Rightarrow> (nat \<Rightarrow> u8 list) option"
  as_ListArray :: "'arr \<Rightarrow> (nat \<Rightarrow> 'arr) option"

text \<open>A \<open>RecordBatch\<close>: its columns by name and its number of rows.\<close>

record 'arr RecordBatch =
  column_by_name :: "string \<Rightarrow> 'arr option"
  num_rows :: nat

definition downcast :: "(nat \<Rightarrow> 'a) option \<Rightarrow> ScalarType \<Rightarrow> (StorageError, nat \<Rightarrow> 'a) res" where
  "downcast a ty = ok_or (NonConformingRow (''column declared as '' @ show_scalar_type ty
     @ '' does not have the matching Arrow array type'')) a"

text \<open>
  The recursion follows the declared type; a vector is read as a list of \<open>Float64\<close>, so the
  depth of the type counts it as one level.
\<close>

fun type_depth :: "ScalarType \<Rightarrow> nat" where
  "type_depth (TList t) = Suc (type_depth t)"
| "type_depth (TVector dim) = 1"
| "type_depth _ = 0"

function read_property_value ::
  "'arr arrow_ops \<Rightarrow> 'arr \<Rightarrow> nat \<Rightarrow> ScalarType \<Rightarrow> (StorageError, PropertyValue) res" where
  "read_property_value A array row ty =
     (if arr_is_null A array row then Ok VNull
      else case ty of
        TInt64 \<Rightarrow> res_map (\<lambda>v. VInt64 (v row)) (downcast (as_Int64Array A array) ty)
      | TFloat64 \<Rightarrow> res_map (\<lambda>v. VFloat64 (v row)) (downcast (as_Float64Array A array) ty)
      | TBool \<Rightarrow> res_map (\<lambda>v. VBool (v row)) (downcast (as_BooleanArray A array) ty)
      | TString \<Rightarrow> res_map (\<lambda>v. VString (v row)) (downcast (as_StringArray A array) ty)
      | TTimestamp \<Rightarrow>
          res_map (\<lambda>v. VTimestamp (v row)) (downcast (as_TimestampMicrosecondArray A array) ty)
      | TBytes \<Rightarrow> res_map (\<lambda>v. VBytes (v row)) (downcast (as_BinaryArray A array) ty)
      | TList elem_ty \<Rightarrow>
          res_bind (downcast (as_ListArray A array) ty) (\<lambda>list.
            let elements = list row in
            res_map VList (collect_res (\<lambda>i. read_property_value A elements i elem_ty)
                                   [0..<arr_len A elements]))
      | TVector dim \<Rightarrow>
          res_bind (downcast (as_ListArray A array) ty) (\<lambda>list.
            let elements = list row in
            res_map VList (collect_res (\<lambda>i. read_property_value A elements i TFloat64)
                                   [0..<arr_len A elements])))"
  by auto
termination
  by (relation "measure (\<lambda>(A, array, row, ty). type_depth ty)") auto

declare read_property_value.simps [simp del]

definition read_id :: "'arr arrow_ops \<Rightarrow> 'arr \<Rightarrow> nat \<Rightarrow> (StorageError, u64) res" where
  "read_id A column row =
     res_map (\<lambda>v. v row) (ok_or (NonConformingRow ''id column is not Int64'') (as_Int64Array A column))"

definition read_properties ::
  "'arr arrow_ops \<Rightarrow> 'arr RecordBatch \<Rightarrow> nat \<Rightarrow> PropertyDef list
   \<Rightarrow> (StorageError, (string, PropertyValue) fmap) res" where
  "read_properties A batch row properties =
     res_map hm_collect (collect_res (\<lambda>prop.
       res_bind (ok_or (NonConformingRow (''missing column '' @ pd_name prop))
                       (column_by_name batch (pd_name prop))) (\<lambda>column.
       res_map (\<lambda>v. (pd_name prop, v)) (read_property_value A column row (pd_ty prop)))) properties)"

text \<open>A batch is an Iceberg result: the batch, or an error with its rendering.\<close>

definition batch_to_node_rows ::
  "'arr arrow_ops \<Rightarrow> (string, 'arr RecordBatch) res \<Rightarrow> NodeDef \<Rightarrow> (StorageError, NodeRow) res list" where
  "batch_to_node_rows A batch nd =
     (case batch of
        Err e \<Rightarrow> [Err (Backend e)]
      | Panic m \<Rightarrow> [Panic m]
      | Ok b \<Rightarrow>
          (case column_by_name b ''node_id'' of
             None \<Rightarrow> [Err (NonConformingRow ''missing node_id column'')]
           | Some id_column \<Rightarrow>
               map (\<lambda>row.
                 res_bind (read_id A id_column row) (\<lambda>i.
                 res_bind (read_properties A b row (nd_properties nd)) (\<lambda>props.
                 Ok \<lparr>nr_id = NodeId i, nr_properties = props\<rparr>))) [0..<num_rows b]))"

definition batch_to_edge_rows ::
  "'arr arrow_ops \<Rightarrow> (string, 'arr RecordBatch) res \<Rightarrow> EdgeDef \<Rightarrow> (StorageError, EdgeRow) res list" where
  "batch_to_edge_rows A batch ed =
     (case batch of
        Err e \<Rightarrow> [Err (Backend e)]
      | Panic m \<Rightarrow> [Panic m]
      | Ok b \<Rightarrow>
          (case (column_by_name b ''edge_id'', column_by_name b ''src_node_id'',
                 column_by_name b ''dst_node_id'') of
             (Some edge_id_col, Some src_col, Some dst_col) \<Rightarrow>
               map (\<lambda>row.
                 res_bind (read_id A edge_id_col row) (\<lambda>i.
                 res_bind (read_id A src_col row) (\<lambda>src.
                 res_bind (read_id A dst_col row) (\<lambda>dst.
                 res_bind (read_properties A b row (ed_properties ed)) (\<lambda>props.
                 Ok \<lparr>er_id = EdgeId i, er_src = NodeId src, er_dst = NodeId dst,
                      er_properties = props\<rparr>))))) [0..<num_rows b]
           | _ \<Rightarrow> [Err (NonConformingRow ''missing edge_id/src_node_id/dst_node_id column'')]))"

section \<open>The catalog reader\<close>

text \<open>
  \<open>IcebergCatalogReader\<close>: of a loaded table the code uses the current snapshot id and the
  batches of a scan at a snapshot; each may fail with an error rendered as a string.
\<close>

record 'arr catalog_ops =
  cat_load_table :: "string \<Rightarrow> (string, string) res"
  cat_current_snapshot :: "string \<Rightarrow> i64 option"
  cat_scan :: "string \<Rightarrow> i64 \<Rightarrow> (string, (string, 'arr RecordBatch) res list) res"

definition load_table :: "'arr catalog_ops \<Rightarrow> string \<Rightarrow> (StorageError, string) res" where
  "load_table C table_name = map_err Backend (cat_load_table C table_name)"

definition arrow_stream ::
  "'arr catalog_ops \<Rightarrow> string \<Rightarrow> SnapshotId \<Rightarrow> (StorageError, (string, 'arr RecordBatch) res list) res" where
  "arrow_stream C table_name snapshot =
     res_bind (load_table C table_name) (\<lambda>table.
     map_err Backend (cat_scan C table (snapshot_raw snapshot)))"

definition catalog_latest_snapshot ::
  "'arr catalog_ops \<Rightarrow> string \<Rightarrow> (StorageError, SnapshotId) res" where
  "catalog_latest_snapshot C table_name =
     res_bind (load_table C table_name) (\<lambda>table.
     ok_or (SnapshotResolution (''table '' @ table @ '' has no committed snapshot''))
       (map_option SnapshotId (cat_current_snapshot C table)))"

definition catalog_scan_nodes ::
  "'arr arrow_ops \<Rightarrow> 'arr catalog_ops \<Rightarrow> Schema \<Rightarrow> Label \<Rightarrow> SnapshotId
   \<Rightarrow> (StorageError, (StorageError, NodeRow) res list) res" where
  "catalog_scan_nodes A C schema lbl snapshot =
     (let table_name = node_table_name lbl in
      res_bind (ok_or (TableNotFound table_name) (node_def schema lbl)) (\<lambda>nd.
      res_bind (arrow_stream C table_name snapshot) (\<lambda>batches.
      Ok (concat (map (\<lambda>batch. batch_to_node_rows A batch nd) batches)))))"

definition catalog_scan_edges ::
  "'arr arrow_ops \<Rightarrow> 'arr catalog_ops \<Rightarrow> Schema \<Rightarrow> EdgeType \<Rightarrow> SnapshotId
   \<Rightarrow> (StorageError, (StorageError, EdgeRow) res list) res" where
  "catalog_scan_edges A C schema ty snapshot =
     (let table_name = edge_table_name ty in
      res_bind (ok_or (TableNotFound table_name) (edge_def schema ty)) (\<lambda>ed.
      res_bind (arrow_stream C table_name snapshot) (\<lambda>batches.
      Ok (concat (map (\<lambda>batch. batch_to_edge_rows A batch ed) batches)))))"

definition IcebergCatalogReader :: "'arr arrow_ops \<Rightarrow> 'arr catalog_ops \<Rightarrow> IcebergReader" where
  "IcebergCatalogReader A C =
     \<lparr>latest_snapshot = catalog_latest_snapshot C,
      scan_nodes = catalog_scan_nodes A C,
      scan_edges = catalog_scan_edges A C\<rparr>"

section \<open>What a scan yields\<close>

text \<open>A value of a declared type, or a null.\<close>

fun value_has_type :: "PropertyValue \<Rightarrow> ScalarType \<Rightarrow> bool" where
  "value_has_type VNull ty = True"
| "value_has_type (VInt64 _) ty = (ty = TInt64)"
| "value_has_type (VFloat64 _) ty = (ty = TFloat64)"
| "value_has_type (VBool _) ty = (ty = TBool)"
| "value_has_type (VString _) ty = (ty = TString)"
| "value_has_type (VTimestamp _) ty = (ty = TTimestamp)"
| "value_has_type (VBytes _) ty = (ty = TBytes)"
| "value_has_type (VList vs) ty =
     (case ty of TList t \<Rightarrow> list_all (\<lambda>v. value_has_type v t) vs
      | TVector dim \<Rightarrow> list_all (\<lambda>v. value_has_type v TFloat64) vs
      | _ \<Rightarrow> False)"

lemma downcast_Ok_iff [simp]: "downcast a ty = Ok v \<longleftrightarrow> a = Some v"
  by (cases a) (auto simp: downcast_def)

lemma read_property_value_typed:
  "read_property_value A array row ty = Ok v \<Longrightarrow> value_has_type v ty"
proof (induction A array row ty arbitrary: v rule: read_property_value.induct)
  case (1 A array row ty)
  note eq = 1(3) [unfolded read_property_value.simps [of A array row ty]]
  show ?case
  proof (cases "arr_is_null A array row")
    case True
    then show ?thesis using eq by simp
  next
    case nn: False
    show ?thesis
    proof (cases ty)
      case (TList t)
      with eq nn obtain list vs where l: "as_ListArray A array = Some list"
        and vs: "collect_res (\<lambda>i. read_property_value A (list row) i t) [0..<arr_len A (list row)] = Ok vs"
        and v: "v = VList vs"
        by (auto simp: res_bind_Ok_iff res_map_Ok_iff Let_def)
      from vs have "list_all (\<lambda>v. value_has_type v t) vs"
        by (rule collect_res_list_all) (use 1(1) [OF nn TList] in simp)
      with v TList show ?thesis by simp
    next
      case (TVector dim)
      with eq nn obtain list vs where l: "as_ListArray A array = Some list"
        and vs: "collect_res (\<lambda>i. read_property_value A (list row) i TFloat64)
                   [0..<arr_len A (list row)] = Ok vs"
        and v: "v = VList vs"
        by (auto simp: res_bind_Ok_iff res_map_Ok_iff Let_def)
      from vs have "list_all (\<lambda>v. value_has_type v TFloat64) vs"
        by (rule collect_res_list_all) (use 1(2) [OF nn TVector] in simp)
      with v TVector show ?thesis by simp
    qed (use eq nn in \<open>auto simp: res_map_Ok_iff\<close>)
  qed
qed

text \<open>
  A row conforms to its definitions when it has exactly the declared properties, each of the
  type of its declaration (the last one, should a name be declared twice).
\<close>

definition properties_conform :: "PropertyDef list \<Rightarrow> (string, PropertyValue) fmap \<Rightarrow> bool" where
  "properties_conform defs m \<longleftrightarrow>
     fset (fmdom m) = pd_name ` set defs \<and>
     (\<forall>k v. fmlookup m k = Some v \<longrightarrow> (\<exists>d \<in> set defs. pd_name d = k \<and> value_has_type v (pd_ty d)))"

lemma read_properties_conform:
  assumes "read_properties A batch row defs = Ok m"
  shows "properties_conform defs m"
proof -
  from assms obtain kvs where m: "m = hm_collect kvs"
    and ok: "list_all2 (\<lambda>d kv. res_bind (ok_or (NonConformingRow (''missing column '' @ pd_name d))
       (column_by_name batch (pd_name d))) (\<lambda>column.
       res_map (\<lambda>v. (pd_name d, v)) (read_property_value A column row (pd_ty d))) = Ok kv) defs kvs"
    by (auto simp: read_properties_def res_map_Ok_iff collect_res_Ok_iff)
  from ok have kvs: "list_all2 (\<lambda>d kv. fst kv = pd_name d \<and> value_has_type (snd kv) (pd_ty d)) defs kvs"
    by (rule list_all2_mono)
      (auto simp: res_map_Ok_iff res_bind_Ok_iff intro: read_property_value_typed)
  have keys: "map fst kvs = map pd_name defs"
    using kvs by (auto simp: list_eq_iff_nth_eq list_all2_conv_all_nth)
  then have dom: "fst ` set kvs = pd_name ` set defs"
    by (metis list.set_map)
  have typed: "\<exists>d \<in> set defs. pd_name d = fst kv \<and> value_has_type (snd kv) (pd_ty d)"
    if "kv \<in> set kvs" for kv
  proof -
    from that obtain i where i: "i < length kvs" "kv = kvs ! i"
      by (auto simp: in_set_conv_nth)
    then show ?thesis
      using list_all2_nthD2 [OF kvs i(1)] list_all2_lengthD [OF kvs] by fastforce
  qed
  have "fset (fmdom m) = pd_name ` set defs"
    using dom by (simp add: m)
  then show ?thesis
    using typed map_of_rev_SomeD [of kvs] unfolding properties_conform_def m fmlookup_hm_collect
    by fastforce
qed

end
