(* ===== verification/Graph_Index.thy ===== *)
theory Graph_Index
  imports Graph_Storage
begin

text \<open>
  Crate \<open>graph-index\<close> (\<open>lib.rs\<close>): the compressed-sparse-row topology, the property index
  and one immutable index generation of a partition.
\<close>

section \<open>Topology\<close>

datatype PartitionId = PartitionId (partition_raw: u32)

instantiation PartitionId :: linorder
begin
definition "less_eq_PartitionId a b \<longleftrightarrow> partition_raw a \<le> partition_raw b"
definition "less_PartitionId a b \<longleftrightarrow> partition_raw a < partition_raw b"
instance
  by standard (auto simp: less_eq_PartitionId_def less_PartitionId_def PartitionId.expand)
end

record RemoteRef =
  rr_partition :: PartitionId
  rr_node :: NodeId

datatype LocalIdx = LocalIdx u32

record AdjacencyEntry =
  ae_edge_id :: EdgeId
  ae_edge_type :: EdgeType
  ae_dst_local :: "NodeId option"
  ae_dst_remote :: "RemoteRef option"

record TopologicalIndex =
  ti_node_ids :: "NodeId list"
  ti_id_to_local :: "(NodeId, LocalIdx) fmap"
  ti_out_offsets :: "u32 list"
  ti_out_entries :: "AdjacencyEntry list"
  ti_in_offsets :: "u32 list"
  ti_in_entries :: "AdjacencyEntry list"

text \<open>\<open>v[i]\<close> and \<open>&v[start..end]\<close>, which panic out of range.\<close>

definition index_at :: "'a list \<Rightarrow> nat \<Rightarrow> ('e, 'a) res" where
  "index_at xs i = (if i < length xs then Ok (xs ! i) else Panic ''index out of bounds'')"

definition slice :: "'a list \<Rightarrow> nat \<Rightarrow> nat \<Rightarrow> ('e, 'a list) res" where
  "slice xs start stop =
     (if start \<le> stop \<and> stop \<le> length xs then Ok (take (stop - start) (drop start xs))
      else Panic ''slice index out of range'')"

definition neighbors ::
  "TopologicalIndex \<Rightarrow> NodeId \<Rightarrow> u32 list \<Rightarrow> AdjacencyEntry list \<Rightarrow> ('e, AdjacencyEntry list) res" where
  "neighbors t node offsets entries =
     (case fmlookup (ti_id_to_local t) node of
        Some (LocalIdx i) \<Rightarrow>
          res_bind (index_at offsets (unat i)) (\<lambda>start.
          res_bind (index_at offsets (unat i + 1)) (\<lambda>stop.
          slice entries (unat start) (unat stop)))
      | None \<Rightarrow> Ok [])"

definition out_neighbors :: "TopologicalIndex \<Rightarrow> NodeId \<Rightarrow> ('e, AdjacencyEntry list) res" where
  "out_neighbors t node = neighbors t node (ti_out_offsets t) (ti_out_entries t)"

definition in_neighbors :: "TopologicalIndex \<Rightarrow> NodeId \<Rightarrow> ('e, AdjacencyEntry list) res" where
  "in_neighbors t node = neighbors t node (ti_in_offsets t) (ti_in_entries t)"

definition contains_node :: "TopologicalIndex \<Rightarrow> NodeId \<Rightarrow> bool" where
  "contains_node t node \<longleftrightarrow> node |\<in>| fmdom (ti_id_to_local t)"

section \<open>Property index\<close>

datatype PropertyKey =
    KInt64 i64
  | KBool bool
  | KString string
  | KTimestamp i64

text \<open>The derived order: variants in declaration order, then their contents.\<close>

fun property_key_rank :: "PropertyKey \<Rightarrow> nat \<times> int \<times> string" where
  "property_key_rank (KInt64 v) = (0, sint v, [])"
| "property_key_rank (KBool b) = (1, of_bool b, [])"
| "property_key_rank (KString s) = (2, 0, s)"
| "property_key_rank (KTimestamp v) = (3, sint v, [])"

lemma property_key_rank_inject: "property_key_rank a = property_key_rank b \<Longrightarrow> a = b"
  by (cases a; cases b) (auto intro: signed_word_eqI split: if_splits)

instantiation PropertyKey :: linorder
begin
definition "less_eq_PropertyKey a b \<longleftrightarrow> property_key_rank a \<le> property_key_rank b"
definition "less_PropertyKey a b \<longleftrightarrow> property_key_rank a < property_key_rank b"
instance
  by standard (auto simp: less_eq_PropertyKey_def less_PropertyKey_def
      intro: property_key_rank_inject)
end

type_synonym PropertyTree = "(PropertyKey, NodeId list) fmap"
type_synonym PropertyIndex = "(string \<times> string, PropertyTree) fmap"

definition lookup_eq :: "PropertyIndex \<Rightarrow> string \<Rightarrow> string \<Rightarrow> PropertyKey \<Rightarrow> NodeId list" where
  "lookup_eq idx label_or_type property key =
     (case fmlookup idx (label_or_type, property) of
        Some tree \<Rightarrow> (case fmlookup tree key of Some ids \<Rightarrow> ids | None \<Rightarrow> [])
      | None \<Rightarrow> [])"

text \<open>\<open>std::ops::Bound\<close>, and \<open>BTreeMap::range\<close> with the two cases in which it panics.\<close>

datatype 'k Bound = Included 'k | Excluded 'k | Unbounded

fun above_bound :: "'k::linorder Bound \<Rightarrow> 'k \<Rightarrow> bool" where
  "above_bound (Included b) k = (b \<le> k)"
| "above_bound (Excluded b) k = (b < k)"
| "above_bound Unbounded k = True"

fun below_bound :: "'k::linorder Bound \<Rightarrow> 'k \<Rightarrow> bool" where
  "below_bound (Included b) k = (k \<le> b)"
| "below_bound (Excluded b) k = (k < b)"
| "below_bound Unbounded k = True"

fun bad_range :: "'k::linorder Bound \<Rightarrow> 'k Bound \<Rightarrow> bool" where
  "bad_range (Excluded a) (Excluded b) = (b \<le> a)"
| "bad_range (Included a) (Included b) = (b < a)"
| "bad_range (Included a) (Excluded b) = (b < a)"
| "bad_range (Excluded a) (Included b) = (b < a)"
| "bad_range _ _ = False"

definition btree_range ::
  "('k::linorder, 'v) fmap \<Rightarrow> 'k Bound \<Rightarrow> 'k Bound \<Rightarrow> ('e, ('k \<times> 'v) list) res" where
  "btree_range m lo hi =
     (if bad_range lo hi then Panic ''range start is greater than range end in BTreeMap''
      else Ok (filter (\<lambda>(k, v). above_bound lo k \<and> below_bound hi k) (sorted_list_of_fmap m)))"

definition lookup_range ::
  "PropertyIndex \<Rightarrow> string \<Rightarrow> string \<Rightarrow> PropertyKey Bound \<Rightarrow> PropertyKey Bound
   \<Rightarrow> ('e, NodeId list) res" where
  "lookup_range idx label_or_type property lo hi =
     (case fmlookup idx (label_or_type, property) of
        Some tree \<Rightarrow> res_map (\<lambda>kvs. concat (map snd kvs)) (btree_range tree lo hi)
      | None \<Rightarrow> Ok [])"

section \<open>Generations\<close>

record NodeRecord =
  nrec_label :: Label
  nrec_properties :: "(string, PropertyValue) fmap"

record EdgeRecord =
  erec_edge_type :: EdgeType
  erec_properties :: "(string, PropertyValue) fmap"

record GenerationMeta =
  gm_partition :: PartitionId
  gm_snapshot_by_table :: "(string, SnapshotId) fmap"
  gm_built_at_unix_ms :: i64
  gm_node_count :: u64
  gm_edge_count :: u64

record IndexGeneration =
  ig_meta :: GenerationMeta
  ig_topology :: TopologicalIndex
  ig_properties :: PropertyIndex
  ig_node_records :: "(NodeId, NodeRecord) fmap"
  ig_edge_records :: "(EdgeId, EdgeRecord) fmap"

datatype RebuildError = RebuildStorage StorageError | RebuildSchema SchemaError

section \<open>Lookups\<close>

lemma index_at_Ok [simp]: "i < length xs \<Longrightarrow> index_at xs i = Ok (xs ! i)"
  by (simp add: index_at_def)

lemma slice_Ok [simp]:
  "start \<le> stop \<Longrightarrow> stop \<le> length xs \<Longrightarrow> slice xs start stop = Ok (take (stop - start) (drop start xs))"
  by (simp add: slice_def)

lemma sorted_keys_btree_range:
  assumes "btree_range m lo hi = Ok kvs"
  shows "sorted_wrt (<) (map fst kvs)"
    and "set kvs = {(k, v). fmlookup m k = Some v \<and> above_bound lo k \<and> below_bound hi k}"
proof -
  have kvs: "kvs = filter (\<lambda>(k, v). above_bound lo k \<and> below_bound hi k) (sorted_list_of_fmap m)"
    using assms by (auto simp: btree_range_def split: if_splits)
  have "sorted_wrt (<) (map fst (sorted_list_of_fmap m))"
    unfolding map_fst_sorted_list_of_fmap strict_sorted_iff by simp
  then show "sorted_wrt (<) (map fst kvs)"
    unfolding kvs strict_sorted_iff by (simp add: distinct_map_filter sorted_filter)
  show "set kvs = {(k, v). fmlookup m k = Some v \<and> above_bound lo k \<and> below_bound hi k}"
    by (auto simp: kvs set_sorted_list_of_fmap)
qed

lemma in_lookup_eq:
  "n \<in> set (lookup_eq idx l p k) \<longleftrightarrow>
   (\<exists>tree ids. fmlookup idx (l, p) = Some tree \<and> fmlookup tree k = Some ids \<and> n \<in> set ids)"
  by (cases "fmlookup idx (l, p)"; cases "fmlookup (the (fmlookup idx (l, p))) k")
    (auto simp: lookup_eq_def)

text \<open>A range lookup returns the nodes of the keys in the range, and no other.\<close>

lemma lookup_range_exact:
  assumes "lookup_range idx l p lo hi = (Ok ids :: ('e, NodeId list) res)"
  shows "set ids = (\<Union>k \<in> {k. above_bound lo k \<and> below_bound hi k}. set (lookup_eq idx l p k))"
proof (cases "fmlookup idx (l, p)")
  case (Some tree)
  with assms obtain kvs where r: "btree_range tree lo hi = (Ok kvs :: ('e, _) res)" "ids = concat (map snd kvs)"
    by (auto simp: lookup_range_def res_map_Ok_iff)
  show ?thesis
    using Some by (fastforce simp: r(2) sorted_keys_btree_range(2) [OF r(1)] in_lookup_eq)
next
  case None
  with assms show ?thesis by (simp add: lookup_range_def lookup_eq_def)
qed

end
