(* ===== verification/Query_Plan.thy ===== *)
theory Query_Plan
  imports Graph_Dsl Graph_Index
begin

text \<open>
  Crate \<open>graph-query\<close>: query plans, bindings and frontiers (\<open>lib.rs\<close>), the comparison of a
  stored property with a literal (\<open>filter_eval.rs\<close>), and the identity of a binding
  (\<open>binding_key\<close>, \<open>dedup\<close> of \<open>distributed_executor.rs\<close>).
\<close>

section \<open>Plans\<close>

record AntiJoinStep =
  aj_from_alias :: string
  aj_to_alias :: string
  aj_direction :: Direction
  aj_edge_alias :: "string option"
  aj_edge_type :: "string option"
  aj_literal_conditions :: "PropertyFilter list"
  aj_outer_conditions :: "(string \<times> ComparisonOp \<times> PropertyRef) list"

record ExpandHopStep =
  eh_from_alias :: string
  eh_to_alias :: string
  eh_to_label :: "string option"
  eh_edge_type :: "string option"
  eh_direction :: Direction
  eh_hops :: HopRange
  eh_filters :: "PropertyFilter list"
  eh_edge_alias :: "string option"

datatype PlanStep =
    ResolveStart string string string PropertyKey
  | ResolveAll string string
  | ExpandHop ExpandHopStep
  | AntiJoin AntiJoinStep

record QueryPlan =
  qp_steps :: "PlanStep list"
  qp_project :: "ReturnItem list"

record Binding =
  b_nodes :: "(string, NodeId) fmap"
  b_edges :: "(string, EdgeId) fmap"

definition empty_binding :: Binding where
  "empty_binding = \<lparr>b_nodes = fmempty, b_edges = fmempty\<rparr>"

definition binding_from_node :: "string \<Rightarrow> NodeId \<Rightarrow> Binding" where
  "binding_from_node alias node = empty_binding\<lparr>b_nodes := fmupd alias node (b_nodes empty_binding)\<rparr>"

record Frontier =
  fr_local :: "Binding list"
  fr_remote :: "(RemoteRef \<times> Binding) list"

datatype ExecutionError = NoIndex | UnknownAlias string | Rpc string

text \<open>Binding a node alias, and an edge alias where the step names one.\<close>

definition bind_node :: "string \<Rightarrow> NodeId \<Rightarrow> Binding \<Rightarrow> Binding" where
  "bind_node alias n b = b\<lparr>b_nodes := fmupd alias n (b_nodes b)\<rparr>"

definition bind_edge :: "string option \<Rightarrow> EdgeId \<Rightarrow> Binding \<Rightarrow> Binding" where
  "bind_edge alias e b =
     (case alias of Some a \<Rightarrow> b\<lparr>b_edges := fmupd a e (b_edges b)\<rparr> | None \<Rightarrow> b)"

section \<open>Filters\<close>

text \<open>
  \<open>rfc\<close> is \<open>chrono\<close>'s RFC 3339 parser, to microseconds: third-party code.
\<close>

definition literal_ordering ::
  "(string \<Rightarrow> i64 option) \<Rightarrow> PropertyValue \<Rightarrow> Literal \<Rightarrow> ordering option" where
  "literal_ordering rfc value literal =
     (case (value, literal) of
        (VInt64 v, LInt64 l) \<Rightarrow> Some (i64_cmp v l)
      | (VFloat64 v, LFloat64 l) \<Rightarrow> f64_partial_cmp v l
      | (VBool v, LBool l) \<Rightarrow> Some (cmp_ord v l)
      | (VString v, LString l) \<Rightarrow> Some (cmp_ord v l)
      | (VTimestamp v, LString l) \<Rightarrow> map_option (\<lambda>parsed. i64_cmp v parsed) (rfc l)
      | _ \<Rightarrow> None)"

fun op_accepts :: "ComparisonOp \<Rightarrow> ordering \<Rightarrow> bool" where
  "op_accepts Eq o1 = (o1 = Equal)"
| "op_accepts Ne o1 = (o1 \<noteq> Equal)"
| "op_accepts Lt o1 = (o1 = Less)"
| "op_accepts Lte o1 = (o1 \<noteq> Greater)"
| "op_accepts Gt o1 = (o1 = Greater)"
| "op_accepts Gte o1 = (o1 \<noteq> Less)"

definition literal_matches ::
  "(string \<Rightarrow> i64 option) \<Rightarrow> PropertyValue \<Rightarrow> ComparisonOp \<Rightarrow> Literal \<Rightarrow> bool" where
  "literal_matches rfc value op literal =
     (case literal_ordering rfc value literal of None \<Rightarrow> False | Some o1 \<Rightarrow> op_accepts op o1)"

definition evaluate_filter ::
  "(string \<Rightarrow> i64 option) \<Rightarrow> (string, PropertyValue) fmap \<Rightarrow> PropertyFilter \<Rightarrow> bool" where
  "evaluate_filter rfc properties flt =
     (case fmlookup properties (pf_property flt) of
        Some value \<Rightarrow> literal_matches rfc value (pf_op flt) (pf_value flt)
      | None \<Rightarrow> False)"

section \<open>The identity of a binding\<close>

definition binding_key :: "Binding \<Rightarrow> (nat \<times> string \<times> u64) list" where
  "binding_key b =
     sort (map (\<lambda>(alias, i). (0, alias, node_raw i)) (sorted_list_of_fmap (b_nodes b))
         @ map (\<lambda>(alias, i). (1, alias, edge_raw i)) (sorted_list_of_fmap (b_edges b)))"

definition dedup :: "Binding list \<Rightarrow> Binding list" where
  "dedup bindings = dedup_seen binding_key {} bindings"

lemma set_binding_key:
  "set (binding_key b) =
     {(0, a, node_raw n) |a n. fmlookup (b_nodes b) a = Some n} \<union>
     {(1, a, edge_raw e) |a e. fmlookup (b_edges b) a = Some e}"
  by (auto simp: binding_key_def set_sorted_list_of_fmap)

text \<open>The key identifies the binding: two bindings with one key are the same map.\<close>

lemma binding_key_inject: "binding_key b = binding_key c \<longleftrightarrow> b = c"
proof
  assume "binding_key b = binding_key c"
  then have eq: "set (binding_key b) = set (binding_key c)" by simp
  have n: "fmlookup (b_nodes b) a = Some n \<longleftrightarrow> fmlookup (b_nodes c) a = Some n" for a n
  proof -
    have "fmlookup (b_nodes d) a = Some n \<longleftrightarrow> (0, a, node_raw n) \<in> set (binding_key d)" for d
      by (auto simp: set_binding_key NodeId.expand)
    with eq show ?thesis by simp
  qed
  have e: "fmlookup (b_edges b) a = Some n \<longleftrightarrow> fmlookup (b_edges c) a = Some n" for a n
  proof -
    have "fmlookup (b_edges d) a = Some n \<longleftrightarrow> (1, a, edge_raw n) \<in> set (binding_key d)" for d
      by (auto simp: set_binding_key EdgeId.expand)
    with eq show ?thesis by simp
  qed
  have "b_nodes b = b_nodes c" "b_edges b = b_edges c"
    by (rule fmap_ext, use n e in \<open>metis not_Some_eq\<close>)+
  then show "b = c" by simp
qed simp

lemma inj_binding_key: "inj_on binding_key A"
  by (simp add: inj_on_def binding_key_inject)

lemma set_dedup [simp]: "set (dedup bs) = set bs"
  by (simp add: dedup_def set_dedup_seen inj_binding_key)

lemma distinct_dedup [simp]: "distinct (dedup bs)"
  using distinct_dedup_seen [of binding_key "{}" bs] by (simp add: dedup_def distinct_map)

lemma binding_from_node_simps [simp]:
  "b_nodes (binding_from_node a n) = fmupd a n fmempty" "b_edges (binding_from_node a n) = fmempty"
  by (simp_all add: binding_from_node_def empty_binding_def)

lemma bind_simps [simp]:
  "b_nodes (bind_node a n b) = fmupd a n (b_nodes b)" "b_edges (bind_node a n b) = b_edges b"
  "b_nodes (bind_edge ea i b) = b_nodes b"
  "bind_edge None i b = b"
  by (simp_all add: bind_node_def bind_edge_def split: option.splits)

end
