(* ===== verification/Planner.thy ===== *)
theory Planner
  imports Query_Plan
begin

text \<open>
  \<open>graph-query/src/planner.rs\<close>: the lowering of a query into plan steps, in pattern order. The
  planner has no error channel; a shape it does not support panics (the texts of the panics
  are abridged). The lemmas say exactly which queries it plans.
\<close>

section \<open>The planner\<close>

fun literal_to_property_key :: "Literal \<Rightarrow> ('e, PropertyKey) res" where
  "literal_to_property_key (LInt64 v) = Ok (KInt64 v)"
| "literal_to_property_key (LBool v) = Ok (KBool v)"
| "literal_to_property_key (LString v) = Ok (KString v)"
| "literal_to_property_key (LFloat64 v) = Panic ''PropertyIndex has no PropertyKey variant for Float64''"

fun flip_op :: "ComparisonOp \<Rightarrow> ComparisonOp" where
  "flip_op Eq = Eq"
| "flip_op Ne = Ne"
| "flip_op Lt = Gt"
| "flip_op Lte = Gte"
| "flip_op Gt = Lt"
| "flip_op Gte = Lte"

text \<open>The \<open>WHERE\<close> filters on one alias, in order.\<close>

definition where_filter_on :: "string \<Rightarrow> WhereCondition \<Rightarrow> PropertyFilter option" where
  "where_filter_on alias c =
     (case c of WProperty a flt \<Rightarrow> if a = alias then Some flt else None | _ \<Rightarrow> None)"

definition where_filters :: "string \<Rightarrow> WhereCondition list \<Rightarrow> PropertyFilter list" where
  "where_filters alias conds = List.map_filter (where_filter_on alias) conds"

definition start_filter :: "NodePattern \<Rightarrow> PropertyFilter list \<Rightarrow> ('e, PropertyFilter option) res" where
  "start_filter node filters =
     (case np_property_filters node of
        f # _ \<Rightarrow> Ok (Some f)
      | [] \<Rightarrow>
          (case filters of
             [] \<Rightarrow> Ok None
           | [single] \<Rightarrow> Ok (Some single)
           | _ \<Rightarrow> Panic ''ResolveStart supports at most one WHERE condition on the start node''))"

definition resolve_start_or_all_step :: "NodePattern \<Rightarrow> PropertyFilter list \<Rightarrow> ('e, PlanStep) res" where
  "resolve_start_or_all_step node filters =
     res_bind (expect ''the naive planner requires a labeled start node'' (np_label node)) (\<lambda>lbl.
     res_bind (start_filter node filters) (\<lambda>flt.
       case flt of
         Some f \<Rightarrow>
           if pf_op f = Eq
           then res_map (\<lambda>key. ResolveStart (np_alias node) (label_name lbl) (pf_property f) key)
                  (literal_to_property_key (pf_value f))
           else Panic ''ResolveStart only supports an equality filter on the start node''
       | None \<Rightarrow> Ok (ResolveAll (np_alias node) (label_name lbl))))"

definition expand_step :: "WhereCondition list \<Rightarrow> string \<Rightarrow> EdgePattern \<Rightarrow> NodePattern \<Rightarrow> ExpandHopStep" where
  "expand_step conds from_alias edge to_node =
     (let to_label = map_option label_name (np_label to_node);
          filters = where_filters (np_alias to_node) conds in
      \<lparr>eh_from_alias = from_alias,
       eh_to_alias = np_alias to_node,
       eh_to_label = to_label,
       eh_edge_type = map_option edge_type_name (ep_edge_type edge),
       eh_direction = ep_direction edge,
       eh_hops = ep_hops edge,
       eh_filters = (if to_label \<noteq> None then filters else []),
       eh_edge_alias = ep_alias edge\<rparr>)"

fun plan_hops :: "WhereCondition list \<Rightarrow> string \<Rightarrow> Pattern \<Rightarrow> ('e, PlanStep list) res" where
  "plan_hops conds from_alias [] = Ok []"
| "plan_hops conds from_alias (StepEdge edge # StepNode to_node # rest) =
     res_map (\<lambda>steps. ExpandHop (expand_step conds from_alias edge to_node) # steps)
       (plan_hops conds (np_alias to_node) rest)"
| "plan_hops conds from_alias [StepEdge edge] = Panic ''edge step has no node after it''"
| "plan_hops conds from_alias (StepEdge edge # StepEdge edge2 # rest) = Panic ''expected a node step''"
| "plan_hops conds from_alias (StepNode node # rest) = Panic ''expected an edge step''"

text \<open>One condition of a \<open>NOT EXISTS\<close>, sorted into the two buckets.\<close>

definition anti_join_condition ::
  "string option \<Rightarrow> AntiJoinStep \<Rightarrow> WhereCondition \<Rightarrow> AntiJoinStep" where
  "anti_join_condition inner_alias st c =
     (case c of
        WProperty alias flt \<Rightarrow>
          if Some alias = inner_alias
          then st\<lparr>aj_literal_conditions := aj_literal_conditions st @ [flt]\<rparr> else st
      | WPropertyComparison left op right \<Rightarrow>
          if Some (pr_alias left) = inner_alias
          then st\<lparr>aj_outer_conditions := aj_outer_conditions st @ [(pr_property left, op, right)]\<rparr>
          else if Some (pr_alias right) = inner_alias
          then st\<lparr>aj_outer_conditions :=
                 aj_outer_conditions st @ [(pr_property right, flip_op op, left)]\<rparr>
          else st
      | _ \<Rightarrow> st)"

definition compile_anti_join :: "ExistsSubquery \<Rightarrow> ('e, PlanStep) res" where
  "compile_anti_join sq =
     (case sub_pattern sq of
        [StepNode from_node, StepEdge edge, StepNode to_node] \<Rightarrow>
          Ok (AntiJoin (foldl (anti_join_condition (ep_alias edge))
            \<lparr>aj_from_alias = np_alias from_node, aj_to_alias = np_alias to_node,
             aj_direction = ep_direction edge, aj_edge_alias = ep_alias edge,
             aj_edge_type = map_option edge_type_name (ep_edge_type edge),
             aj_literal_conditions = [], aj_outer_conditions = []\<rparr> (sub_where sq)))
      | _ \<Rightarrow> Panic ''a NOT EXISTS pattern is exactly [node, edge, node]'')"

definition not_exists_of :: "WhereCondition \<Rightarrow> ExistsSubquery option" where
  "not_exists_of c = (case c of WNotExists sq \<Rightarrow> Some sq | _ \<Rightarrow> None)"

definition plan :: "Query \<Rightarrow> ('e, QueryPlan) res" where
  "plan query =
     (case q_pattern query of
        [] \<Rightarrow> Panic ''a validated pattern always has at least one node''
      | StepEdge e # _ \<Rightarrow> Panic ''the first step of a pattern is always a node''
      | StepNode first # rest \<Rightarrow>
          (let conds = q_where_conditions query in
           res_bind (resolve_start_or_all_step first (where_filters (np_alias first) conds)) (\<lambda>start.
           res_bind (plan_hops conds (np_alias first) rest) (\<lambda>hops.
           res_bind (collect_res compile_anti_join (List.map_filter not_exists_of conds)) (\<lambda>antis.
           Ok \<lparr>qp_steps = start # hops @ antis, qp_project = q_returns query\<rparr>)))))"

section \<open>Which queries it plans\<close>

definition key_literal :: "Literal \<Rightarrow> bool" where
  "key_literal l = (case l of LFloat64 _ \<Rightarrow> False | _ \<Rightarrow> True)"

definition start_supported :: "NodePattern \<Rightarrow> PropertyFilter list \<Rightarrow> bool" where
  "start_supported node filters \<longleftrightarrow>
     np_label node \<noteq> None \<and>
     (case np_property_filters node @ filters of
        [] \<Rightarrow> True
      | f # _ \<Rightarrow> pf_op f = Eq \<and> key_literal (pf_value f)
          \<and> (np_property_filters node = [] \<longrightarrow> length filters = 1))"

definition single_edge_pattern :: "Pattern \<Rightarrow> bool" where
  "single_edge_pattern p =
     (case p of [StepNode _, StepEdge _, StepNode _] \<Rightarrow> True | _ \<Rightarrow> False)"

definition plan_supported :: "Query \<Rightarrow> bool" where
  "plan_supported q \<longleftrightarrow>
     wf_pattern (q_pattern q) \<and>
     (case q_pattern q of
        StepNode first # _ \<Rightarrow>
          start_supported first (where_filters (np_alias first) (q_where_conditions q))
      | _ \<Rightarrow> False) \<and>
     list_all (\<lambda>sq. single_edge_pattern (sub_pattern sq))
       (List.map_filter not_exists_of (q_where_conditions q))"

lemma literal_to_property_key_panic: "is_panic (literal_to_property_key l) \<longleftrightarrow> \<not> key_literal l"
  by (cases l) (simp_all add: key_literal_def)

lemma literal_to_property_key_no_err: "literal_to_property_key l \<noteq> Err e"
  by (cases l) simp_all

lemma plan_hops_panic: "is_panic (plan_hops conds a p) \<longleftrightarrow> \<not> edge_chain p"
  by (induction conds a p rule: plan_hops.induct) simp_all

lemma plan_hops_no_err: "plan_hops conds a p \<noteq> Err e"
proof (induction conds a p rule: plan_hops.induct)
  case (2 conds a edge to_node rest)
  then show ?case by (cases "plan_hops conds (np_alias to_node) rest :: ('a, _) res") simp_all
qed simp_all

lemma resolve_start_panic:
  "is_panic (resolve_start_or_all_step node filters) \<longleftrightarrow> \<not> start_supported node filters"
  by (cases "np_label node"; cases "np_property_filters node"; cases filters; cases "tl filters")
    (auto simp: resolve_start_or_all_step_def start_supported_def start_filter_def
      literal_to_property_key_panic)

lemma resolve_start_no_err: "resolve_start_or_all_step node filters \<noteq> Err e"
  by (cases "np_label node"; cases "np_property_filters node"; cases filters; cases "tl filters")
    (auto simp: resolve_start_or_all_step_def start_filter_def literal_to_property_key_no_err
      split: if_splits)

lemma compile_anti_join_cases:
  "is_panic (compile_anti_join sq) \<longleftrightarrow> \<not> single_edge_pattern (sub_pattern sq)"
  "compile_anti_join sq \<noteq> Err e"
  by (auto simp: compile_anti_join_def single_edge_pattern_def split: list.split PatternStep.split)

lemma collect_anti_join_no_err: "collect_res compile_anti_join sqs \<noteq> Err e"
  by (induction sqs) (simp_all add: res_bind_Err_iff compile_anti_join_cases(2))

lemma collect_anti_join_panic:
  "is_panic (collect_res compile_anti_join sqs :: ('e, _) res) \<longleftrightarrow>
     \<not> list_all (\<lambda>sq. single_edge_pattern (sub_pattern sq)) sqs"
proof (induction sqs)
  case (Cons sq sqs)
  have "(\<exists>a. compile_anti_join sq = (Ok a :: ('e, _) res)) \<longleftrightarrow> single_edge_pattern (sub_pattern sq)"
    using compile_anti_join_cases(1) [of sq, where ?'a = 'e]
      no_panic_no_err [of "compile_anti_join sq :: ('e, _) res"]
    by (auto simp: compile_anti_join_cases(2))
  then show ?case
    by (auto simp: res_bind_is_panic compile_anti_join_cases(1) Cons.IH)
qed simp

text \<open>The planner returns a plan on the supported queries and panics on the others.\<close>

lemma plan_panics_iff: "is_panic (plan q :: ('e, _) res) \<longleftrightarrow> \<not> plan_supported q"
proof (cases "q_pattern q")
  case (Cons st rest)
  show ?thesis
  proof (cases st)
    case (StepNode first)
    let ?fs = "where_filters (np_alias first) (q_where_conditions q)"
    have s: "(\<exists>a. resolve_start_or_all_step first ?fs = (Ok a :: ('e, _) res)) \<longleftrightarrow> start_supported first ?fs"
      using resolve_start_panic [of first ?fs, where ?'a = 'e] resolve_start_no_err
        no_panic_no_err [of "resolve_start_or_all_step first ?fs :: ('e, _) res"] by force
    have h: "(\<exists>a. plan_hops (q_where_conditions q) (np_alias first) rest = (Ok a :: ('e, _) res))
        \<longleftrightarrow> edge_chain rest"
      using plan_hops_panic [of "q_where_conditions q" "np_alias first" rest, where ?'a = 'e]
        plan_hops_no_err no_panic_no_err
          [of "plan_hops (q_where_conditions q) (np_alias first) rest :: ('e, _) res"] by force
    show ?thesis
      using s h
      by (auto simp: plan_def plan_supported_def Cons StepNode Let_def res_bind_is_panic
          resolve_start_panic plan_hops_panic collect_anti_join_panic)
  qed (simp add: plan_def plan_supported_def Cons)
qed (simp add: plan_def plan_supported_def)

lemma plan_no_err: "plan q \<noteq> Err e"
  by (simp add: plan_def Let_def res_bind_Err_iff resolve_start_no_err plan_hops_no_err
      collect_anti_join_no_err split: list.split PatternStep.split)

lemma plan_Ok_iff: "(\<exists>p. plan q = Ok p) \<longleftrightarrow> plan_supported q"
  using plan_panics_iff [of q] plan_no_err [of q] no_panic_no_err [of "plan q"]
  by (metis is_panic_simps(2))

end
