(* ===== verification/Index_Builder.thy ===== *)
theory Index_Builder
  imports Graph_Index
begin

text \<open>
  \<open>graph-index/src/builder.rs\<close>: the scan of every node and edge table, the filter on the
  partition's own nodes, the compressed-sparse-row arrays of both directions, the property
  index, and the records kept for hydration. The lemmas show that the arrays built
  this way answer exactly the edges of the scan, that the property index answers exactly the
  indexed values, and which records a partition holds.
\<close>

section \<open>The builder\<close>

record IcebergIndexBuilder =
  ib_reader :: IcebergReader
  ib_schema :: Schema
  ib_n_partitions :: u32

fun property_key :: "PropertyValue \<Rightarrow> PropertyKey option" where
  "property_key (VInt64 v) = Some (KInt64 v)"
| "property_key (VBool v) = Some (KBool v)"
| "property_key (VString v) = Some (KString v)"
| "property_key (VTimestamp v) = Some (KTimestamp v)"
| "property_key _ = None"

definition index_property ::
  "Label \<Rightarrow> NodeRow \<Rightarrow> PropertyIndex \<Rightarrow> PropertyDef \<Rightarrow> PropertyIndex" where
  "index_property lbl row by_key prop =
     (case fmlookup (nr_properties row) (pd_name prop) of
        None \<Rightarrow> by_key
      | Some value \<Rightarrow>
          (case property_key value of
             None \<Rightarrow> by_key
           | Some key \<Rightarrow>
               let k = (label_name lbl, pd_name prop);
                   tree = (case fmlookup by_key k of Some t \<Rightarrow> t | None \<Rightarrow> fmempty)
               in fmupd k (hm_push key (nr_id row) tree) by_key))"

definition build_property_index :: "Schema \<Rightarrow> (Label \<times> NodeRow) list \<Rightarrow> PropertyIndex" where
  "build_property_index schema nodes =
     foldl (\<lambda>by_key (lbl, row).
       (case node_def schema lbl of
          None \<Rightarrow> by_key
        | Some nd \<Rightarrow>
            foldl (index_property lbl row) by_key (filter pd_indexed (nd_properties nd))))
       fmempty nodes"

text \<open>The two endpoints of an edge, seen from one direction: its owner and its neighbour.\<close>

definition edge_owner :: "bool \<Rightarrow> EdgeRow \<Rightarrow> NodeId" where
  "edge_owner outgoing row = (if outgoing then er_src row else er_dst row)"

definition edge_far :: "bool \<Rightarrow> EdgeRow \<Rightarrow> NodeId" where
  "edge_far outgoing row = (if outgoing then er_dst row else er_src row)"

definition csr_entry ::
  "(u64 \<Rightarrow> u64) \<Rightarrow> u32 \<Rightarrow> PartitionId \<Rightarrow> (NodeId, LocalIdx) fmap \<Rightarrow> EdgeType \<Rightarrow> EdgeId \<Rightarrow> NodeId
   \<Rightarrow> ('e, AdjacencyEntry) res" where
  "csr_entry h n_partitions part id_to_local edge_type edge_id dst =
     res_bind (partition_of h dst n_partitions) (\<lambda>home.
       let dst_local = (if dst |\<in>| fmdom id_to_local then Some dst else None);
           dst_home = PartitionId home;
           dst_remote = (if dst_local = None \<and> dst_home \<noteq> part
                         then Some \<lparr>rr_partition = dst_home, rr_node = dst\<rparr> else None)
       in Ok \<lparr>ae_edge_id = edge_id, ae_edge_type = edge_type,
              ae_dst_local = dst_local, ae_dst_remote = dst_remote\<rparr>)"

definition csr_bucket_edge ::
  "(u64 \<Rightarrow> u64) \<Rightarrow> u32 \<Rightarrow> PartitionId \<Rightarrow> (NodeId, LocalIdx) fmap \<Rightarrow> bool
   \<Rightarrow> AdjacencyEntry list list \<Rightarrow> EdgeType \<times> EdgeRow \<Rightarrow> ('e, AdjacencyEntry list list) res" where
  "csr_bucket_edge h n_partitions part id_to_local outgoing buckets e =
     (case e of (edge_type, row) \<Rightarrow>
       (case fmlookup id_to_local (edge_owner outgoing row) of
          None \<Rightarrow> Ok buckets
        | Some (LocalIdx i) \<Rightarrow>
            res_bind (csr_entry h n_partitions part id_to_local edge_type (er_id row)
                        (edge_far outgoing row)) (\<lambda>entry.
            res_map (\<lambda>b. buckets[unat i := b @ [entry]]) (index_at buckets (unat i)))))"

definition csr_append ::
  "u32 list \<times> AdjacencyEntry list \<Rightarrow> AdjacencyEntry list \<Rightarrow> u32 list \<times> AdjacencyEntry list" where
  "csr_append acc bucket =
     (let entries = snd acc @ bucket in (fst acc @ [of_nat (length entries)], entries))"

definition build_csr ::
  "(u64 \<Rightarrow> u64) \<Rightarrow> u32 \<Rightarrow> PartitionId \<Rightarrow> NodeId list \<Rightarrow> (NodeId, LocalIdx) fmap
   \<Rightarrow> (EdgeType \<times> EdgeRow) list \<Rightarrow> bool \<Rightarrow> ('e, u32 list \<times> AdjacencyEntry list) res" where
  "build_csr h n_partitions part node_ids id_to_local edges outgoing =
     res_map (foldl csr_append ([0], []))
       (fold_res (csr_bucket_edge h n_partitions part id_to_local outgoing)
          (replicate (length node_ids) []) edges)"

definition local_index :: "NodeId list \<Rightarrow> (NodeId, LocalIdx) fmap" where
  "local_index node_ids =
     hm_collect (map (\<lambda>(i, n). (n, LocalIdx (of_nat i))) (enumerate 0 node_ids))"

definition build_topology ::
  "(u64 \<Rightarrow> u64) \<Rightarrow> u32 \<Rightarrow> PartitionId \<Rightarrow> (Label \<times> NodeRow) list \<Rightarrow> (EdgeType \<times> EdgeRow) list
   \<Rightarrow> ('e, TopologicalIndex) res" where
  "build_topology h n_partitions part nodes edges =
     (let node_ids = map (\<lambda>(_, row). nr_id row) nodes;
          id_to_local = local_index node_ids in
      res_bind (build_csr h n_partitions part node_ids id_to_local edges True) (\<lambda>(oo, oe).
      res_bind (build_csr h n_partitions part node_ids id_to_local edges False) (\<lambda>(io, ie).
      Ok \<lparr>ti_node_ids = node_ids, ti_id_to_local = id_to_local,
           ti_out_offsets = oo, ti_out_entries = oe, ti_in_offsets = io, ti_in_entries = ie\<rparr>)))"

text \<open>The scan of the node tables and of the edge tables, with the snapshot each was read at.\<close>

definition scan_label ::
  "IcebergIndexBuilder \<Rightarrow> (string, SnapshotId) fmap \<times> (Label \<times> NodeRow) list \<Rightarrow> Label
   \<Rightarrow> (StorageError, (string, SnapshotId) fmap \<times> (Label \<times> NodeRow) list) res" where
  "scan_label B acc lbl =
     (let table = node_table_name lbl in
      res_bind (latest_snapshot (ib_reader B) table) (\<lambda>snapshot.
      res_bind (scan_nodes (ib_reader B) (ib_schema B) lbl snapshot) (\<lambda>stream.
      res_bind (collect_res (\<lambda>row. row) stream) (\<lambda>rows.
      Ok (fmupd table snapshot (fst acc), snd acc @ map (\<lambda>row. (lbl, row)) rows)))))"

definition scan_edge_type ::
  "IcebergIndexBuilder \<Rightarrow> (string, SnapshotId) fmap \<times> (EdgeType \<times> EdgeRow) list \<Rightarrow> EdgeDef
   \<Rightarrow> (StorageError, (string, SnapshotId) fmap \<times> (EdgeType \<times> EdgeRow) list) res" where
  "scan_edge_type B acc ed =
     (let table = edge_table_name (ed_edge_type ed) in
      res_bind (latest_snapshot (ib_reader B) table) (\<lambda>snapshot.
      res_bind (scan_edges (ib_reader B) (ib_schema B) (ed_edge_type ed) snapshot) (\<lambda>stream.
      res_bind (collect_res (\<lambda>row. row) stream) (\<lambda>rows.
      Ok (fmupd table snapshot (fst acc), snd acc @ map (\<lambda>row. (ed_edge_type ed, row)) rows)))))"

definition node_record_entry :: "Label \<times> NodeRow \<Rightarrow> NodeId \<times> NodeRecord" where
  "node_record_entry lr =
     (nr_id (snd lr), \<lparr>nrec_label = fst lr, nrec_properties = nr_properties (snd lr)\<rparr>)"

definition edge_record_entry :: "EdgeType \<times> EdgeRow \<Rightarrow> EdgeId \<times> EdgeRecord" where
  "edge_record_entry tr =
     (er_id (snd tr), \<lparr>erec_edge_type = fst tr, erec_properties = er_properties (snd tr)\<rparr>)"

definition owned_by :: "(u64 \<Rightarrow> u64) \<Rightarrow> u32 \<Rightarrow> PartitionId \<Rightarrow> NodeId \<Rightarrow> ('e, bool) res" where
  "owned_by h n_partitions part n =
     res_map (\<lambda>p. p = partition_raw part) (partition_of h n n_partitions)"

text \<open>
  The generation made of the scanned rows: what \<open>build\<close> does once the scans are over
  (\<open>now\<close> is the clock in milliseconds).
\<close>

definition assemble ::
  "(u64 \<Rightarrow> u64) \<Rightarrow> Schema \<Rightarrow> u32 \<Rightarrow> i64 \<Rightarrow> PartitionId \<Rightarrow> (string, SnapshotId) fmap
   \<Rightarrow> (Label \<times> NodeRow) list \<Rightarrow> (EdgeType \<times> EdgeRow) list \<Rightarrow> ('e, IndexGeneration) res" where
  "assemble h schema n_partitions now part snapshots all_nodes edges =
     res_bind (retain_res (\<lambda>(_, row). owned_by h n_partitions part (nr_id row)) all_nodes) (\<lambda>nodes.
     res_bind (build_topology h n_partitions part nodes edges) (\<lambda>topology.
     res_bind (retain_res (\<lambda>(_, row). owned_by h n_partitions part (er_src row)) edges) (\<lambda>owned.
     Ok \<lparr>ig_meta = \<lparr>gm_partition = part, gm_snapshot_by_table = snapshots,
            gm_built_at_unix_ms = now, gm_node_count = of_nat (length nodes),
            gm_edge_count = of_nat (length edges)\<rparr>,
          ig_topology = topology,
          ig_properties = build_property_index schema nodes,
          ig_node_records = hm_collect (map node_record_entry nodes),
          ig_edge_records = hm_collect (map edge_record_entry owned)\<rparr>)))"

definition build ::
  "(u64 \<Rightarrow> u64) \<Rightarrow> i64 \<Rightarrow> IcebergIndexBuilder \<Rightarrow> PartitionId \<Rightarrow> Label list
   \<Rightarrow> (RebuildError, IndexGeneration) res" where
  "build h now B part labels =
     res_bind (map_err RebuildStorage (fold_res (scan_label B) (fmempty, []) labels)) (\<lambda>(snaps, nodes).
     res_bind (map_err RebuildStorage (fold_res (scan_edge_type B) (snaps, [])
                 (map snd (sorted_list_of_fmap (sch_edges (ib_schema B)))))) (\<lambda>(snaps', edges).
     assemble h (ib_schema B) (ib_n_partitions B) now part snaps' nodes edges))"

section \<open>The adjacency arrays answer the edges of the scan\<close>

definition local_pos :: "(NodeId, LocalIdx) fmap \<Rightarrow> NodeId \<Rightarrow> nat option" where
  "local_pos m n = (case fmlookup m n of Some (LocalIdx i) \<Rightarrow> Some (unat i) | None \<Rightarrow> None)"

lemma local_index_Some:
  assumes "fmlookup (local_index ids) n = Some (LocalIdx j)" "length ids \<le> 2 ^ 32"
  shows "unat j < length ids \<and> ids ! unat j = n"
proof -
  have "(n, LocalIdx j) \<in> set (map (\<lambda>(i, n). (n, LocalIdx (of_nat i))) (enumerate 0 ids))"
    using assms(1) by (auto simp: local_index_def dest: map_of_rev_SomeD)
  then obtain i where i: "i < length ids" "n = ids ! i" "j = of_nat i"
    by (auto simp: in_set_enumerate_eq)
  then have "unat j = i" using assms(2) by (simp add: unat_of_nat)
  with i show ?thesis by simp
qed

lemma local_index_dom: "fset (fmdom (local_index ids)) = set ids"
proof -
  have "fset (fmdom (local_index ids)) = snd ` set (enumerate 0 ids)"
    by (simp add: local_index_def image_image case_prod_beta)
  also have "\<dots> = set (map snd (enumerate 0 ids))" by (simp only: list.set_map)
  finally show ?thesis by simp
qed

lemma local_index_None: "fmlookup (local_index ids) n = None \<longleftrightarrow> n \<notin> set ids"
  unfolding local_index_dom [symmetric] by (auto simp: fmlookup_dom_iff)

lemma local_pos_cases:
  assumes "length ids \<le> 2 ^ 32"
  shows "n \<in> set ids \<Longrightarrow> \<exists>i < length ids. local_pos (local_index ids) n = Some i \<and> ids ! i = n"
    and "n \<notin> set ids \<Longrightarrow> local_pos (local_index ids) n = None"
proof -
  show "\<exists>i < length ids. local_pos (local_index ids) n = Some i \<and> ids ! i = n" if mem: "n \<in> set ids"
  proof -
    obtain j where "fmlookup (local_index ids) n = Some (LocalIdx j)"
    proof (cases "fmlookup (local_index ids) n")
      case None
      then show ?thesis using mem by (simp add: local_index_None)
    next
      case (Some l)
      with that show ?thesis by (cases l) auto
    qed
    then show ?thesis using local_index_Some [OF _ assms] by (auto simp: local_pos_def)
  qed
  show "local_pos (local_index ids) n = None" if "n \<notin> set ids"
    using that by (simp add: local_pos_def local_index_None [THEN iffD2])
qed

text \<open>The entry of an edge in the adjacency of its owner.\<close>

definition adjacency_entry ::
  "(u64 \<Rightarrow> u64) \<Rightarrow> u32 \<Rightarrow> PartitionId \<Rightarrow> NodeId set \<Rightarrow> bool \<Rightarrow> EdgeType \<times> EdgeRow \<Rightarrow> AdjacencyEntry" where
  "adjacency_entry h np part local outgoing e =
     (let dst = edge_far outgoing (snd e); home = PartitionId (home_of h np dst) in
      \<lparr>ae_edge_id = er_id (snd e), ae_edge_type = fst e,
       ae_dst_local = (if dst \<in> local then Some dst else None),
       ae_dst_remote = (if dst \<notin> local \<and> home \<noteq> part
                        then Some \<lparr>rr_partition = home, rr_node = dst\<rparr> else None)\<rparr>)"

lemma csr_entry_Ok:
  "np \<noteq> 0 \<Longrightarrow> csr_entry h np part (local_index ids) ty (er_id row) (edge_far outgoing row) =
     Ok (adjacency_entry h np part (set ids) outgoing (ty, row))"
  by (simp add: csr_entry_def adjacency_entry_def Let_def local_index_dom)

lemma csr_buckets:
  assumes "np \<noteq> 0" "length ids \<le> 2 ^ 32" "length bs = length ids"
  shows "fold_res (csr_bucket_edge h np part (local_index ids) outgoing) bs edges =
    Ok (map (\<lambda>i. bs ! i @ map (adjacency_entry h np part (set ids) outgoing)
          (filter (\<lambda>e. local_pos (local_index ids) (edge_owner outgoing (snd e)) = Some i) edges))
        [0..<length bs])"
  using assms(3)
proof (induction edges arbitrary: bs)
  case Nil
  show ?case by (simp only: fold_res.simps list.map filter.simps append_Nil2 map_nth)
next
  case (Cons e edges)
  obtain ty row where e: "e = (ty, row)" by (cases e)
  show ?case
  proof (cases "fmlookup (local_index ids) (edge_owner outgoing row)")
    case None
    then have "local_pos (local_index ids) (edge_owner outgoing row) = None"
      by (simp add: local_pos_def)
    with None Cons show ?thesis by (simp add: csr_bucket_edge_def e)
  next
    case (Some l)
    then obtain j where j: "fmlookup (local_index ids) (edge_owner outgoing row) = Some (LocalIdx j)"
      by (cases l) auto
    let ?a = "adjacency_entry h np part (set ids) outgoing (ty, row)"
    have lt: "unat j < length bs" using local_index_Some [OF j assms(2)] Cons.prems by simp
    have step: "csr_bucket_edge h np part (local_index ids) outgoing bs (ty, row) =
        Ok (bs[unat j := bs ! unat j @ [?a]])"
      using lt by (simp add: csr_bucket_edge_def j csr_entry_Ok [OF assms(1)])
    have pos: "local_pos (local_index ids) (edge_owner outgoing row) = Some (unat j)"
      by (simp add: local_pos_def j)
    show ?thesis
      using Cons.IH [of "bs[unat j := bs ! unat j @ [?a]]"] Cons.prems lt
      by (auto simp: step e pos nth_list_update intro!: map_cong)
  qed
qed

lemma foldl_csr_append:
  "foldl csr_append (offs, ents) bs =
     (offs @ map (\<lambda>i. of_nat (length ents + length (concat (take (Suc i) bs)))) [0..<length bs],
      ents @ concat bs)"
proof (induction bs arbitrary: offs ents)
  case (Cons b bs)
  have "[0..<Suc (length bs)] = 0 # map Suc [0..<length bs]"
    by (simp add: upt_conv_Cons map_Suc_upt del: upt_Suc)
  moreover have "csr_append (offs, ents) b = (offs @ [of_nat (length ents + length b)], ents @ b)"
    by (simp add: csr_append_def Let_def)
  ultimately show ?case
    by (simp add: Cons.IH add.assoc o_def del: upt_Suc of_nat_add)
qed simp

lemma csr_slice:
  assumes "foldl csr_append ([0], []) bs = (offsets, entries)"
    and "i < length bs" "length (concat bs) < 2 ^ 32"
  shows "res_bind (index_at offsets i) (\<lambda>start. res_bind (index_at offsets (i + 1)) (\<lambda>stop.
           slice entries (unat start) (unat stop))) = Ok (bs ! i)"
proof -
  define pre where "pre j = length (concat (take j bs))" for j
  have offs: "offsets = 0 # map (\<lambda>i. of_nat (pre (Suc i))) [0..<length bs]"
    and ents: "entries = concat bs"
    using assms(1) by (simp_all add: foldl_csr_append pre_def)
  have split: "concat bs = concat (take i bs) @ bs ! i @ concat (drop (Suc i) bs)"
    using assms(2) by (metis concat.simps(2) concat_append id_take_nth_drop)
  have pre_Suc: "pre (Suc i) = pre i + length (bs ! i)"
    using assms(2) by (simp add: pre_def take_Suc_conv_app_nth)
  have le: "pre (Suc i) \<le> length (concat bs)"
    using pre_Suc by (simp add: split pre_def)
  have at: "offsets ! j = of_nat (pre j)" if "j \<le> length bs" for j
    using that by (cases j) (simp_all add: offs pre_def)
  have small: "unat (of_nat k :: u32) = k" if "k \<le> pre (Suc i)" for k
    using that le assms(3) by (simp add: unat_of_nat)
  have val: "unat (offsets ! i) = pre i" "unat (offsets ! Suc i) = pre (Suc i)"
    using at [of i] at [of "i + 1"] assms(2) small [of "pre i"] small [of "pre (Suc i)"] pre_Suc
    by simp_all
  have len: "length offsets = Suc (length bs)" by (simp add: offs)
  have "take (pre (Suc i) - pre i) (drop (pre i) entries) = bs ! i"
    by (simp add: ents split pre_Suc) (simp add: pre_def)
  then show ?thesis
    using assms(2) le pre_Suc by (simp add: len val ents)
qed

text \<open>The edges a direction's adjacency must hold for a node.\<close>

definition edges_at :: "bool \<Rightarrow> NodeId \<Rightarrow> (EdgeType \<times> EdgeRow) list \<Rightarrow> (EdgeType \<times> EdgeRow) list" where
  "edges_at outgoing n edges = filter (\<lambda>e. edge_owner outgoing (snd e) = n) edges"

lemma length_concat_filters:
  assumes "\<And>x i j. P i x \<Longrightarrow> P j x \<Longrightarrow> i = j"
  shows "length (concat (map (\<lambda>i. map f (filter (P i) xs)) [0..<n])) \<le> length xs"
proof (induction xs)
  case (Cons x xs)
  have "length (concat (map (\<lambda>i. map f (filter (P i) (x # xs))) is)) \<le>
        length (concat (map (\<lambda>i. map f (filter (P i) xs)) is)) + (if \<exists>i \<in> set is. P i x then 1 else 0)"
    if "distinct is" for "is"
    using that
  proof (induction "is")
    case (Cons i "is")
    then have "P i x \<Longrightarrow> \<not> (\<exists>j \<in> set is. P j x)" using assms by auto
    with Cons show ?case by (cases "P i x"; cases "\<exists>j \<in> set is. P j x") simp_all
  qed simp
  from this [of "[0..<n]"] Cons show ?case by (simp split: if_splits)
qed (induction n; simp)

lemma csr_neighbors:
  assumes np: "np \<noteq> 0" and ids: "length ids \<le> 2 ^ 32" and edges: "length edges < 2 ^ 32"
    and csr: "build_csr h np part ids (local_index ids) edges outgoing =
      (Ok (offsets, entries) :: ('e, _) res)"
    and t: "ti_id_to_local t = local_index ids"
  shows "neighbors t n offsets entries =
    Ok (if n \<in> set ids then map (adjacency_entry h np part (set ids) outgoing)
          (edges_at outgoing n edges) else [])"
proof -
  let ?P = "\<lambda>i e. local_pos (local_index ids) (edge_owner outgoing (snd e)) = Some i"
  define bs where "bs = map (\<lambda>i. map (adjacency_entry h np part (set ids) outgoing)
      (filter (?P i) edges)) [0..<length ids]"
  have fold: "foldl csr_append ([0], []) bs = (offsets, entries)"
  proof -
    have eq: "map (\<lambda>i. replicate (length ids) [] ! i @ map (adjacency_entry h np part (set ids) outgoing)
        (filter (?P i) edges)) [0..<length ids] = bs"
      by (auto simp: bs_def)
    have "fold_res (csr_bucket_edge h np part (local_index ids) outgoing)
        (replicate (length ids) []) edges = (Ok bs :: ('e, _) res)"
      using csr_buckets [OF np ids, of "replicate (length ids) []" h part outgoing edges] eq
      by simp
    then show ?thesis using csr by (simp add: build_csr_def)
  qed
  have small: "length (concat bs) < 2 ^ 32"
    unfolding bs_def by (rule le_less_trans [OF length_concat_filters edges]) simp
  show ?thesis
  proof (cases "n \<in> set ids")
    case True
    then obtain i where i: "i < length ids" "local_pos (local_index ids) n = Some i"
      using local_pos_cases(1) [OF ids] by blast
    then obtain j where j: "fmlookup (local_index ids) n = Some (LocalIdx j)" "i = unat j"
      by (auto simp: local_pos_def split: option.splits LocalIdx.splits)
    have inj: "?P i e \<longleftrightarrow> edge_owner outgoing (snd e) = n" for e
      using i local_pos_cases [OF ids] by (metis option.distinct(1) option.inject)
    have "bs ! i = map (adjacency_entry h np part (set ids) outgoing) (edges_at outgoing n edges)"
      using i(1) by (simp add: bs_def edges_at_def inj)
    moreover have "i < length bs" using i(1) by (simp add: bs_def)
    ultimately show ?thesis
      using csr_slice [OF fold _ small, of i] True by (simp add: neighbors_def t j)
  next
    case False
    then show ?thesis by (simp add: neighbors_def t local_index_None [THEN iffD2])
  qed
qed

lemma build_csr_total:
  "np \<noteq> 0 \<Longrightarrow> length ids \<le> 2 ^ 32 \<Longrightarrow>
   \<exists>offsets entries. build_csr h np part ids (local_index ids) edges outgoing = Ok (offsets, entries)"
  by (simp add: build_csr_def csr_buckets)

section \<open>The property index answers the indexed values\<close>

definition row_has_key :: "NodeRow \<Rightarrow> string \<Rightarrow> PropertyKey \<Rightarrow> bool" where
  "row_has_key row p k \<longleftrightarrow>
     (case fmlookup (nr_properties row) p of Some v \<Rightarrow> property_key v = Some k | None \<Rightarrow> False)"

definition indexed_property :: "Schema \<Rightarrow> Label \<Rightarrow> string \<Rightarrow> bool" where
  "indexed_property schema lbl p \<longleftrightarrow>
     (case node_def schema lbl of
        Some nd \<Rightarrow> list_ex (\<lambda>d. pd_indexed d \<and> pd_name d = p) (nd_properties nd) | None \<Rightarrow> False)"

lemma lookup_eq_index_property:
  "n \<in> set (lookup_eq (index_property lbl row idx d) l p k) \<longleftrightarrow>
   n \<in> set (lookup_eq idx l p k) \<or>
   (l = label_name lbl \<and> p = pd_name d \<and> n = nr_id row \<and> row_has_key row p k)"
  by (auto simp: index_property_def Let_def lookup_eq_def fmlookup_hm_push row_has_key_def
      split: option.splits)

lemma lookup_eq_foldl_property:
  "n \<in> set (lookup_eq (foldl (index_property lbl row) idx ds) l p k) \<longleftrightarrow>
   n \<in> set (lookup_eq idx l p k) \<or>
   (l = label_name lbl \<and> p \<in> pd_name ` set ds \<and> n = nr_id row \<and> row_has_key row p k)"
  by (induction ds arbitrary: idx) (auto simp: lookup_eq_index_property)

lemma lookup_eq_build:
  "n \<in> set (lookup_eq (build_property_index schema nodes) l p k) \<longleftrightarrow>
   indexed_property schema (Label l) p \<and>
   (\<exists>row. (Label l, row) \<in> set nodes \<and> nr_id row = n \<and> row_has_key row p k)"
proof -
  let ?f = "\<lambda>by_key (lbl, row). case node_def schema lbl of None \<Rightarrow> by_key
    | Some nd \<Rightarrow> foldl (index_property lbl row) by_key (filter pd_indexed (nd_properties nd))"
  have step: "n \<in> set (lookup_eq (?f idx e) l p k) \<longleftrightarrow> n \<in> set (lookup_eq idx l p k) \<or>
      (fst e = Label l \<and> indexed_property schema (Label l) p \<and> nr_id (snd e) = n
       \<and> row_has_key (snd e) p k)" for idx e
  proof (cases e)
    case (Pair lbl row)
    have "l = label_name lbl \<longleftrightarrow> lbl = Label l" by (cases lbl) auto
    then show ?thesis
      by (cases "node_def schema lbl")
        (auto simp: Pair lookup_eq_foldl_property indexed_property_def list_ex_iff)
  qed
  have "n \<in> set (lookup_eq (foldl ?f idx nodes) l p k) \<longleftrightarrow> n \<in> set (lookup_eq idx l p k) \<or>
      indexed_property schema (Label l) p \<and>
      (\<exists>row. (Label l, row) \<in> set nodes \<and> nr_id row = n \<and> row_has_key row p k)" for idx
  proof (induction nodes arbitrary: idx)
    case (Cons e nodes)
    show ?case by (simp only: foldl_Cons Cons.IH step) (cases e; auto)
  qed simp
  from this [of fmempty] show ?thesis
    by (simp add: build_property_index_def lookup_eq_def)
qed

section \<open>What a generation holds\<close>

text \<open>The sizes within which the 32-bit local indices and offsets of the arrays are exact.\<close>

definition index_bounds :: "'a list \<Rightarrow> 'b list \<Rightarrow> bool" where
  "index_bounds nodes edges \<longleftrightarrow> length nodes \<le> 2 ^ 32 \<and> length edges < 2 ^ 32"

definition local_nodes ::
  "(u64 \<Rightarrow> u64) \<Rightarrow> u32 \<Rightarrow> PartitionId \<Rightarrow> (Label \<times> NodeRow) list \<Rightarrow> (Label \<times> NodeRow) list" where
  "local_nodes h np part nodes =
     filter (\<lambda>(_, row). home_of h np (nr_id row) = partition_raw part) nodes"

definition local_ids ::
  "(u64 \<Rightarrow> u64) \<Rightarrow> u32 \<Rightarrow> PartitionId \<Rightarrow> (Label \<times> NodeRow) list \<Rightarrow> NodeId set" where
  "local_ids h np part nodes = nr_id ` snd ` set (local_nodes h np part nodes)"

lemma local_ids_iff:
  "n \<in> local_ids h np part nodes \<longleftrightarrow>
   n \<in> nr_id ` snd ` set nodes \<and> home_of h np n = partition_raw part"
  by (force simp: local_ids_def local_nodes_def)

lemma build_topology_Ok:
  assumes "np \<noteq> 0" "index_bounds nodes edges"
  obtains t where "build_topology h np part nodes edges = (Ok t :: ('f, _) res)"
    and "ti_id_to_local t = local_index (map (nr_id \<circ> snd) nodes)"
    and "ti_node_ids t = map (nr_id \<circ> snd) nodes"
    and "\<And>n. out_neighbors t n = (Ok (if n \<in> nr_id ` snd ` set nodes
          then map (adjacency_entry h np part (nr_id ` snd ` set nodes) True) (edges_at True n edges)
          else []) :: ('e, _) res)"
    and "\<And>n. in_neighbors t n = (Ok (if n \<in> nr_id ` snd ` set nodes
          then map (adjacency_entry h np part (nr_id ` snd ` set nodes) False) (edges_at False n edges)
          else []) :: ('e, _) res)"
proof -
  define ids where "ids = map (nr_id \<circ> snd) nodes"
  have ids_eq: "map (\<lambda>(_, row). nr_id row) nodes = ids" by (auto simp: ids_def)
  have set_ids: "set ids = nr_id ` snd ` set nodes" by (auto simp: ids_def)
  have len: "length ids \<le> 2 ^ 32" "length edges < 2 ^ 32"
    using assms(2) by (simp_all add: index_bounds_def ids_def)
  obtain oo oe io ie
    where o: "build_csr h np part ids (local_index ids) edges True = (Ok (oo, oe) :: ('f, _) res)"
      and i: "build_csr h np part ids (local_index ids) edges False = (Ok (io, ie) :: ('f, _) res)"
    using build_csr_total [OF assms(1) len(1)] by metis
  let ?t = "\<lparr>ti_node_ids = ids, ti_id_to_local = local_index ids, ti_out_offsets = oo,
     ti_out_entries = oe, ti_in_offsets = io, ti_in_entries = ie\<rparr>"
  show thesis
  proof (rule that [of ?t])
    show "build_topology h np part nodes edges = (Ok ?t :: ('f, _) res)"
      by (simp add: build_topology_def ids_eq Let_def o i)
  qed (simp_all add: ids_def [symmetric] set_ids [symmetric] out_neighbors_def in_neighbors_def
      csr_neighbors [OF assms(1) len o] csr_neighbors [OF assms(1) len i])
qed

definition local_edges ::
  "(u64 \<Rightarrow> u64) \<Rightarrow> u32 \<Rightarrow> PartitionId \<Rightarrow> (EdgeType \<times> EdgeRow) list \<Rightarrow> (EdgeType \<times> EdgeRow) list" where
  "local_edges h np part edges =
     filter (\<lambda>(_, row). home_of h np (er_src row) = partition_raw part) edges"

lemma assemble_Ok:
  assumes "np \<noteq> 0" "index_bounds nodes edges"
  obtains g where "assemble h schema np now part snaps nodes edges = (Ok g :: ('f, _) res)"
    and "ti_id_to_local (ig_topology g) = local_index (map (nr_id \<circ> snd) (local_nodes h np part nodes))"
    and "ti_node_ids (ig_topology g) = map (nr_id \<circ> snd) (local_nodes h np part nodes)"
    and "\<And>n. out_neighbors (ig_topology g) n = (Ok (if n \<in> local_ids h np part nodes
          then map (adjacency_entry h np part (local_ids h np part nodes) True) (edges_at True n edges)
          else []) :: ('e, _) res)"
    and "\<And>n. in_neighbors (ig_topology g) n = (Ok (if n \<in> local_ids h np part nodes
          then map (adjacency_entry h np part (local_ids h np part nodes) False) (edges_at False n edges)
          else []) :: ('e, _) res)"
    and "ig_properties g = build_property_index schema (local_nodes h np part nodes)"
    and "ig_node_records g = hm_collect (map node_record_entry (local_nodes h np part nodes))"
    and "ig_edge_records g = hm_collect (map edge_record_entry (local_edges h np part edges))"
    and "gm_partition (ig_meta g) = part"
proof -
  let ?N = "local_nodes h np part nodes"
  have b: "index_bounds ?N edges"
    using assms(2) le_trans [OF length_filter_le] by (auto simp: index_bounds_def local_nodes_def)
  obtain t where t: "build_topology h np part ?N edges = (Ok t :: ('f, _) res)"
    "ti_id_to_local t = local_index (map (nr_id \<circ> snd) ?N)"
    "ti_node_ids t = map (nr_id \<circ> snd) ?N"
    "\<And>n. out_neighbors t n = (Ok (if n \<in> nr_id ` snd ` set ?N
          then map (adjacency_entry h np part (nr_id ` snd ` set ?N) True) (edges_at True n edges)
          else []) :: ('e, _) res)"
    "\<And>n. in_neighbors t n = (Ok (if n \<in> nr_id ` snd ` set ?N
          then map (adjacency_entry h np part (nr_id ` snd ` set ?N) False) (edges_at False n edges)
          else []) :: ('e, _) res)"
    using build_topology_Ok [OF assms(1) b, where h = h and part = part and ?'e = 'e and ?'f = 'f]
    by blast
  have n: "retain_res (\<lambda>(_, row). owned_by h np part (nr_id row)) nodes = (Ok ?N :: ('f, _) res)"
    unfolding local_nodes_def
    by (rule retain_res_Ok_all) (auto simp: owned_by_def assms(1))
  have e: "retain_res (\<lambda>(_, row). owned_by h np part (er_src row)) edges =
      (Ok (local_edges h np part edges) :: ('f, _) res)"
    unfolding local_edges_def
    by (rule retain_res_Ok_all) (auto simp: owned_by_def assms(1))
  show thesis
    by (rule that) (simp_all add: assemble_def n e t(1), simp_all add: t local_ids_def)
qed

lemma contains_node_assemble:
  "ti_id_to_local t = local_index (map (nr_id \<circ> snd) (local_nodes h np part nodes)) \<Longrightarrow>
   contains_node t n \<longleftrightarrow> n \<in> local_ids h np part nodes"
  by (simp add: contains_node_def local_index_dom local_ids_def image_comp)

text \<open>Reading records back: the node records of a partition are those of its own rows.\<close>

lemma node_record_lookup:
  assumes "distinct (map (nr_id \<circ> snd) nodes)"
  shows "fmlookup (hm_collect (map node_record_entry (local_nodes h np part nodes))) n = Some r \<longleftrightarrow>
    (\<exists>lbl row. (lbl, row) \<in> set nodes \<and> nr_id row = n \<and> home_of h np n = partition_raw part
       \<and> r = \<lparr>nrec_label = lbl, nrec_properties = nr_properties row\<rparr>)"
proof -
  have "map fst (map node_record_entry ns) = map (nr_id \<circ> snd) ns" for ns
    by (simp add: node_record_entry_def)
  then have "distinct (map fst (map node_record_entry (local_nodes h np part nodes)))"
    using assms by (simp only: local_nodes_def distinct_map_filter)
  then show ?thesis
    by (subst hm_collect_Some_iff) (auto simp: node_record_entry_def local_nodes_def image_iff)
qed

lemma edge_record_lookup:
  assumes "distinct (map (er_id \<circ> snd) edges)"
  shows "fmlookup (hm_collect (map edge_record_entry (local_edges h np part edges))) i = Some r \<longleftrightarrow>
    (\<exists>ty row. (ty, row) \<in> set edges \<and> er_id row = i \<and> home_of h np (er_src row) = partition_raw part
       \<and> r = \<lparr>erec_edge_type = ty, erec_properties = er_properties row\<rparr>)"
proof -
  have "map fst (map edge_record_entry es) = map (er_id \<circ> snd) es" for es
    by (simp add: edge_record_entry_def)
  then have "distinct (map fst (map edge_record_entry (local_edges h np part edges)))"
    using assms by (simp only: local_edges_def distinct_map_filter)
  then show ?thesis
    by (subst hm_collect_Some_iff) (auto simp: edge_record_entry_def local_edges_def image_iff)
qed

end
