(* ===== verification/Local_Executor.thy ===== *)
theory Local_Executor
  imports Planner Index_Builder
begin

text \<open>
  \<open>graph-query/src/local_executor.rs\<close>: plan steps run against one partition's generation. A
  method that takes a \<open>GenerationHandle\<close> acquires the generation once, at its start; the
  definitions take that generation. A \<open>HashSet\<close> that is iterated is a finite set with the
  iteration order \<open>ho\<close>, one that is only asked for membership is a set.
\<close>

section \<open>Resolving the start\<close>

definition resolve_start :: "IndexGeneration \<Rightarrow> PlanStep \<Rightarrow> (ExecutionError, Binding list) res" where
  "resolve_start g step =
     (case step of
        ResolveStart alias label_or_type property key \<Rightarrow>
          Ok (map (binding_from_node alias) (lookup_eq (ig_properties g) label_or_type property key))
      | _ \<Rightarrow> Err (UnknownAlias ''resolve_start called with a non-ResolveStart step''))"

definition resolve_all ::
  "hash_order \<Rightarrow> IndexGeneration \<Rightarrow> PlanStep \<Rightarrow> (ExecutionError, Binding list) res" where
  "resolve_all ho g step =
     (case step of
        ResolveAll alias label \<Rightarrow>
          Ok (map (\<lambda>(i, _). binding_from_node alias i)
            (filter (\<lambda>(_, r). label_name (nrec_label r) = label) (hm_iter ho (ig_node_records g))))
      | _ \<Rightarrow> Err (UnknownAlias ''resolve_all called with a non-ResolveAll step''))"

section \<open>Expanding a hop\<close>

text \<open>What the loop over a step's bindings accumulates.\<close>

record HopState =
  hs_seen :: "(nat \<times> NodeId) set"
  hs_local :: "Binding list"
  hs_remote :: "(RemoteRef \<times> Binding) list"

definition type_matches :: "string option \<Rightarrow> AdjacencyEntry \<Rightarrow> bool" where
  "type_matches edge_type entry \<longleftrightarrow>
     (case edge_type of Some t \<Rightarrow> edge_type_name (ae_edge_type entry) = t | None \<Rightarrow> True)"

definition directed_neighbors ::
  "TopologicalIndex \<Rightarrow> Direction \<Rightarrow> NodeId \<Rightarrow> (ExecutionError, AdjacencyEntry list) res" where
  "directed_neighbors t direction node =
     (case direction of Outgoing \<Rightarrow> out_neighbors t node | Incoming \<Rightarrow> in_neighbors t node)"

definition expand_entry ::
  "ExpandHopStep \<Rightarrow> nat \<Rightarrow> Binding \<Rightarrow> NodeId fset \<times> HopState \<Rightarrow> AdjacencyEntry \<Rightarrow> NodeId fset \<times> HopState" where
  "expand_entry s binding_idx binding acc entry =
     (case acc of (next_set, st) \<Rightarrow>
      if \<not> type_matches (eh_edge_type s) entry then (next_set, st)
      else case ae_dst_local entry of
        Some dst \<Rightarrow>
          (finsert dst next_set,
           (case eh_edge_alias s of
              Some ea \<Rightarrow> st\<lparr>hs_local := hs_local st @
                [bind_edge (Some ea) (ae_edge_id entry) (bind_node (eh_to_alias s) dst binding)]\<rparr>
            | None \<Rightarrow> st))
      | None \<Rightarrow>
          (case ae_dst_remote entry of
             Some remote_ref \<Rightarrow>
               (let key = (binding_idx, rr_node remote_ref);
                    should_push = (eh_edge_alias s \<noteq> None \<or> key \<notin> hs_seen st);
                    st' = (if eh_edge_alias s = None then st\<lparr>hs_seen := insert key (hs_seen st)\<rparr> else st);
                    extended = bind_edge (eh_edge_alias s) (ae_edge_id entry)
                                 (bind_node (eh_to_alias s) (rr_node remote_ref) binding)
                in (next_set, if should_push
                         then st'\<lparr>hs_remote := hs_remote st' @ [(remote_ref, extended)]\<rparr> else st'))
           | None \<Rightarrow> (next_set, st)))"

definition expand_node ::
  "TopologicalIndex \<Rightarrow> ExpandHopStep \<Rightarrow> nat \<Rightarrow> Binding \<Rightarrow> NodeId fset \<times> HopState \<Rightarrow> NodeId
   \<Rightarrow> (ExecutionError, NodeId fset \<times> HopState) res" where
  "expand_node t s binding_idx binding acc node =
     res_map (foldl (expand_entry s binding_idx binding) acc)
       (directed_neighbors t (eh_direction s) node)"

definition accept_node :: "ExpandHopStep \<Rightarrow> nat \<Rightarrow> Binding \<Rightarrow> HopState \<Rightarrow> NodeId \<Rightarrow> HopState" where
  "accept_node s binding_idx binding st node =
     (if (binding_idx, node) \<in> hs_seen st then st
      else st\<lparr>hs_seen := insert (binding_idx, node) (hs_seen st),
              hs_local := hs_local st @ [bind_node (eh_to_alias s) node binding]\<rparr>)"

text \<open>The loop over the depths of one binding, with its early exit.\<close>

fun expand_depths ::
  "hash_order \<Rightarrow> TopologicalIndex \<Rightarrow> ExpandHopStep \<Rightarrow> nat \<Rightarrow> Binding \<Rightarrow> NodeId fset \<Rightarrow> HopState
   \<Rightarrow> nat list \<Rightarrow> (ExecutionError, HopState) res" where
  "expand_depths ho t s binding_idx binding current st [] = Ok st"
| "expand_depths ho t s binding_idx binding current st (depth # depths) =
     res_bind (fold_res (expand_node t s binding_idx binding) ({||}, st) (hs_iter ho current))
       (\<lambda>(next_set, st').
         let st'' = (if eh_edge_alias s = None \<and> depth \<ge> unat (hr_min (eh_hops s))
                     then foldl (accept_node s binding_idx binding) st' (hs_iter ho next_set)
                     else st')
         in if next_set = {||} then Ok st''
            else expand_depths ho t s binding_idx binding next_set st'' depths)"

definition hop_depths :: "HopRange \<Rightarrow> nat list" where
  "hop_depths hops = [1..<Suc (unat (hr_max hops))]"

definition expand_binding ::
  "hash_order \<Rightarrow> TopologicalIndex \<Rightarrow> ExpandHopStep \<Rightarrow> HopState \<Rightarrow> nat \<times> Binding
   \<Rightarrow> (ExecutionError, HopState) res" where
  "expand_binding ho t s st ib =
     (case ib of (binding_idx, binding) \<Rightarrow>
      res_bind (ok_or (UnknownAlias (eh_from_alias s)) (fmlookup (b_nodes binding) (eh_from_alias s)))
        (\<lambda>start. expand_depths ho t s binding_idx binding {|start|} st (hop_depths (eh_hops s))))"

definition property_filter_matches ::
  "PropertyIndex \<Rightarrow> string \<Rightarrow> PropertyFilter \<Rightarrow> (ExecutionError, NodeId set) res" where
  "property_filter_matches properties label flt =
     res_bind (literal_to_property_key (pf_value flt)) (\<lambda>key.
     res_map set
       (case pf_op flt of
          Eq \<Rightarrow> Ok (lookup_eq properties label (pf_property flt) key)
        | Gt \<Rightarrow> lookup_range properties label (pf_property flt) (Excluded key) Unbounded
        | Gte \<Rightarrow> lookup_range properties label (pf_property flt) (Included key) Unbounded
        | Lt \<Rightarrow> lookup_range properties label (pf_property flt) Unbounded (Excluded key)
        | Lte \<Rightarrow> lookup_range properties label (pf_property flt) Unbounded (Included key)
        | Ne \<Rightarrow> Err (UnknownAlias (''WHERE ... <> on property '' @ pf_property flt
                       @ '' is not supported in v1''))))"

definition apply_filters ::
  "PropertyIndex \<Rightarrow> string option \<Rightarrow> string \<Rightarrow> PropertyFilter list \<Rightarrow> Binding list
   \<Rightarrow> (ExecutionError, Binding list) res" where
  "apply_filters properties to_label to_alias filters bindings =
     (if filters = [] then Ok bindings
      else case to_label of
        None \<Rightarrow> Ok bindings
      | Some label \<Rightarrow>
          res_bind (fold_res (\<lambda>allowed flt.
              res_map (\<lambda>ms. Some (case allowed of None \<Rightarrow> ms | Some prev \<Rightarrow> prev \<inter> ms))
                (property_filter_matches properties label flt)) None filters) (\<lambda>allowed.
          retain_res (\<lambda>b. res_map (\<lambda>n. n \<in> (case allowed of Some a \<Rightarrow> a | None \<Rightarrow> {}))
              (expect ''no entry found for key'' (fmlookup (b_nodes b) to_alias))) bindings))"

definition empty_hop_state :: HopState where
  "empty_hop_state = \<lparr>hs_seen = {}, hs_local = [], hs_remote = []\<rparr>"

definition expand_hop ::
  "hash_order \<Rightarrow> IndexGeneration \<Rightarrow> PlanStep \<Rightarrow> Binding list \<Rightarrow> (ExecutionError, Frontier) res" where
  "expand_hop ho g step frontier =
     (case step of
        ExpandHop s \<Rightarrow>
          res_bind (fold_res (expand_binding ho (ig_topology g) s) empty_hop_state
                     (enumerate 0 frontier)) (\<lambda>st.
          res_bind (apply_filters (ig_properties g) (eh_to_label s) (eh_to_alias s) (eh_filters s)
                     (hs_local st)) (\<lambda>local.
          Ok \<lparr>fr_local = local, fr_remote = hs_remote st\<rparr>))
      | _ \<Rightarrow> Err (UnknownAlias ''expand_hop called with a non-ExpandHop step''))"

section \<open>The anti-join\<close>

definition anti_join_candidate ::
  "(string \<Rightarrow> i64 option) \<Rightarrow> IndexGeneration \<Rightarrow> AntiJoinStep \<Rightarrow> PropertyFilter list \<Rightarrow> NodeId
   \<Rightarrow> AdjacencyEntry \<Rightarrow> bool" where
  "anti_join_candidate rfc g step conditions to_node entry \<longleftrightarrow>
     type_matches (aj_edge_type step) entry \<and>
     (ae_dst_local entry = Some to_node \<or> map_option rr_node (ae_dst_remote entry) = Some to_node) \<and>
     (case fmlookup (ig_edge_records g) (ae_edge_id entry) of
        Some rec \<Rightarrow> list_all (evaluate_filter rfc (erec_properties rec)) conditions
      | None \<Rightarrow> False)"

definition check_anti_join ::
  "(string \<Rightarrow> i64 option) \<Rightarrow> IndexGeneration \<Rightarrow> AntiJoinStep \<Rightarrow> PropertyFilter list \<Rightarrow> Binding list
   \<Rightarrow> (ExecutionError, Binding list) res" where
  "check_anti_join rfc g step conditions frontier =
     retain_res (\<lambda>binding.
       res_bind (ok_or (UnknownAlias (aj_from_alias step))
                   (fmlookup (b_nodes binding) (aj_from_alias step))) (\<lambda>from_node.
       res_bind (ok_or (UnknownAlias (aj_to_alias step))
                   (fmlookup (b_nodes binding) (aj_to_alias step))) (\<lambda>to_node.
       res_map (\<lambda>neighbors. \<not> list_ex (anti_join_candidate rfc g step conditions to_node) neighbors)
         (directed_neighbors (ig_topology g) (aj_direction step) from_node)))) frontier"

section \<open>What a hop returns\<close>

text \<open>
  A topology seen as a function: every node's adjacency in one direction, none of the lookups
  panicking.
\<close>

definition adjacency :: "TopologicalIndex \<Rightarrow> Direction \<Rightarrow> (NodeId \<Rightarrow> AdjacencyEntry list) \<Rightarrow> bool" where
  "adjacency t direction adj \<longleftrightarrow> (\<forall>n. directed_neighbors t direction n = Ok (adj n))"

definition entry_target :: "AdjacencyEntry \<Rightarrow> NodeId option" where
  "entry_target e = (case ae_dst_local e of Some d \<Rightarrow> Some d | None \<Rightarrow> map_option rr_node (ae_dst_remote e))"

definition extend_binding :: "ExpandHopStep \<Rightarrow> EdgeId \<Rightarrow> NodeId \<Rightarrow> Binding \<Rightarrow> Binding" where
  "extend_binding s i n b = bind_edge (eh_edge_alias s) i (bind_node (eh_to_alias s) n b)"

definition emitted :: "HopState \<Rightarrow> Binding set" where
  "emitted st = set (hs_local st) \<union> snd ` set (hs_remote st)"

text \<open>What one adjacency entry adds: to the next level, and to the output.\<close>

definition local_targets :: "ExpandHopStep \<Rightarrow> AdjacencyEntry \<Rightarrow> NodeId set" where
  "local_targets s e = (if type_matches (eh_edge_type s) e then set_option (ae_dst_local e) else {})"

definition entry_output :: "ExpandHopStep \<Rightarrow> Binding \<Rightarrow> AdjacencyEntry \<Rightarrow> Binding set" where
  "entry_output s b e =
     (if type_matches (eh_edge_type s) e \<and> (eh_edge_alias s \<noteq> None \<or> ae_dst_local e = None)
      then (\<lambda>n. extend_binding s (ae_edge_id e) n b) ` set_option (entry_target e) else {})"

text \<open>A node marked as seen for a binding has its extension in the output already.\<close>

definition seen_emitted :: "ExpandHopStep \<Rightarrow> nat \<Rightarrow> Binding \<Rightarrow> HopState \<Rightarrow> bool" where
  "seen_emitted s i b st \<longleftrightarrow>
     eh_edge_alias s = None \<longrightarrow>
     (\<forall>n. (i, n) \<in> hs_seen st \<longrightarrow> bind_node (eh_to_alias s) n b \<in> emitted st)"

definition seen_below :: "nat \<Rightarrow> HopState \<Rightarrow> bool" where
  "seen_below k st \<longleftrightarrow> (\<forall>(j, n) \<in> hs_seen st. j < k)"

text \<open>One transition of the loop: the output grows by \<open>B\<close>, the bookkeeping stays sound.\<close>

definition grows :: "ExpandHopStep \<Rightarrow> nat \<Rightarrow> Binding \<Rightarrow> HopState \<Rightarrow> HopState \<Rightarrow> Binding set \<Rightarrow> bool" where
  "grows s i b st st' B \<longleftrightarrow>
     (seen_emitted s i b st \<longrightarrow>
        emitted st' = emitted st \<union> B \<and> seen_emitted s i b st') \<and>
     (seen_below (Suc i) st \<longrightarrow> seen_below (Suc i) st')"

lemma grows_refl: "grows s i b st st {}"
  by (simp add: grows_def)

lemma grows_trans: "grows s i b st st' B \<Longrightarrow> grows s i b st' st'' C \<Longrightarrow> grows s i b st st'' (B \<union> C)"
  by (auto simp: grows_def)

lemma bind_edge_None [simp]: "bind_edge None i b = b"
  by (simp add: bind_edge_def)

lemma expand_entry_step:
  assumes "expand_entry s i b (nx, st) e = (nx', st')"
  shows "fset nx' = fset nx \<union> local_targets s e \<and> grows s i b st st' (entry_output s b e)"
proof (cases "type_matches (eh_edge_type s) e")
  case False
  with assms show ?thesis
    by (simp add: expand_entry_def local_targets_def entry_output_def grows_refl)
next
  case True
  show ?thesis
  proof (cases "ae_dst_local e")
    case None
    then show ?thesis
      using assms True
      by (cases "ae_dst_remote e"; cases "eh_edge_alias s"; cases "(i, rr_node (the (ae_dst_remote e))) \<in> hs_seen st")
        (auto simp: expand_entry_def local_targets_def entry_output_def entry_target_def Let_def
          grows_def emitted_def seen_emitted_def seen_below_def extend_binding_def)
  next
    case (Some d)
    then show ?thesis
      using assms True
      by (cases "eh_edge_alias s")
        (auto simp: expand_entry_def local_targets_def entry_output_def entry_target_def
          grows_def emitted_def seen_emitted_def seen_below_def extend_binding_def)
  qed
qed

lemma expand_entries:
  assumes "foldl (expand_entry s i b) (nx, st) es = (nx', st')"
  shows "fset nx' = fset nx \<union> (\<Union>e \<in> set es. local_targets s e) \<and>
    grows s i b st st' (\<Union>e \<in> set es. entry_output s b e)"
  using assms
proof (induction es arbitrary: nx st)
  case Nil
  then show ?case by (simp add: grows_refl)
next
  case (Cons e es)
  obtain nx1 st1 where e: "expand_entry s i b (nx, st) e = (nx1, st1)" by fastforce
  with Cons.prems have "foldl (expand_entry s i b) (nx1, st1) es = (nx', st')" by simp
  from Cons.IH [OF this] expand_entry_step [OF e] show ?case
    by (auto intro: grows_trans)
qed

text \<open>One level of the walk: the nodes it reaches locally, and what its entries put out.\<close>

definition hop_set :: "ExpandHopStep \<Rightarrow> (NodeId \<Rightarrow> AdjacencyEntry list) \<Rightarrow> NodeId set \<Rightarrow> NodeId set" where
  "hop_set s adj N = (\<Union>m \<in> N. \<Union>e \<in> set (adj m). local_targets s e)"

definition level_output ::
  "ExpandHopStep \<Rightarrow> (NodeId \<Rightarrow> AdjacencyEntry list) \<Rightarrow> Binding \<Rightarrow> NodeId set \<Rightarrow> Binding set" where
  "level_output s adj b N = (\<Union>m \<in> N. \<Union>e \<in> set (adj m). entry_output s b e)"

definition accepted_output :: "ExpandHopStep \<Rightarrow> Binding \<Rightarrow> nat \<Rightarrow> NodeId set \<Rightarrow> Binding set" where
  "accepted_output s b depth N =
     (if eh_edge_alias s = None \<and> unat (hr_min (eh_hops s)) \<le> depth
      then (\<lambda>n. bind_node (eh_to_alias s) n b) ` N else {})"

fun hop_output ::
  "ExpandHopStep \<Rightarrow> (NodeId \<Rightarrow> AdjacencyEntry list) \<Rightarrow> Binding \<Rightarrow> NodeId set \<Rightarrow> nat list \<Rightarrow> Binding set" where
  "hop_output s adj b N [] = {}"
| "hop_output s adj b N (d # ds) =
     level_output s adj b N \<union> accepted_output s b d (hop_set s adj N)
     \<union> hop_output s adj b (hop_set s adj N) ds"

lemma hop_output_empty [simp]: "hop_output s adj b {} ds = {}"
  by (induction ds) (simp_all add: level_output_def accepted_output_def hop_set_def)

lemma expand_nodes:
  assumes "adjacency t (eh_direction s) adj"
  shows "\<exists>nx' st'. fold_res (expand_node t s i b) (nx, st) ns = Ok (nx', st') \<and>
    fset nx' = fset nx \<union> hop_set s adj (set ns) \<and> grows s i b st st' (level_output s adj b (set ns))"
proof (induction ns arbitrary: nx st)
  case Nil
  then show ?case by (simp add: grows_refl hop_set_def level_output_def)
next
  case (Cons m ns)
  obtain nx1 st1 where f: "foldl (expand_entry s i b) (nx, st) (adj m) = (nx1, st1)" by fastforce
  have "expand_node t s i b (nx, st) m = Ok (nx1, st1)"
    using assms f by (simp add: expand_node_def adjacency_def)
  moreover obtain nx' st' where r: "fold_res (expand_node t s i b) (nx1, st1) ns = Ok (nx', st')"
    "fset nx' = fset nx1 \<union> hop_set s adj (set ns)" "grows s i b st1 st' (level_output s adj b (set ns))"
    using Cons.IH by blast
  moreover have "grows s i b st st' (level_output s adj b (set (m # ns)))"
    using grows_trans [OF expand_entries [OF f, THEN conjunct2] r(3)]
    by (simp add: level_output_def)
  ultimately show ?case
    using expand_entries [OF f] by (auto simp: hop_set_def)
qed

lemma accept_nodes:
  assumes "eh_edge_alias s = None"
  shows "grows s i b st (foldl (accept_node s i b) st ns) ((\<lambda>n. bind_node (eh_to_alias s) n b) ` set ns)"
proof (induction ns arbitrary: st)
  case Nil
  then show ?case by (simp add: grows_refl)
next
  case (Cons n ns)
  have "grows s i b st (accept_node s i b st n) {bind_node (eh_to_alias s) n b}"
    using assms
    by (auto simp: accept_node_def grows_def emitted_def seen_emitted_def seen_below_def)
  from grows_trans [OF this Cons.IH] show ?case by simp
qed

lemma expand_depths_grows:
  assumes "adjacency t (eh_direction s) adj" "valid_hash_order ho"
  shows "\<exists>st'. expand_depths ho t s i b current st ds = Ok st' \<and>
    grows s i b st st' (hop_output s adj b (fset current) ds)"
proof (induction ds arbitrary: current st)
  case Nil
  then show ?case by (simp add: grows_refl)
next
  case (Cons d ds)
  obtain nx st1 where n: "fold_res (expand_node t s i b) ({||}, st) (hs_iter ho current) = Ok (nx, st1)"
    "fset nx = hop_set s adj (fset current)" "grows s i b st st1 (level_output s adj b (fset current))"
    using expand_nodes [OF assms(1), of i b "{||}" st "hs_iter ho current"] assms(2) by auto
  define st2 where "st2 = (if eh_edge_alias s = None \<and> unat (hr_min (eh_hops s)) \<le> d
    then foldl (accept_node s i b) st1 (hs_iter ho nx) else st1)"
  have g2: "grows s i b st1 st2 (accepted_output s b d (fset nx))"
    using accept_nodes [of s i b st1 "hs_iter ho nx"] assms(2)
    by (simp add: st2_def accepted_output_def grows_refl)
  have g: "grows s i b st st2 (level_output s adj b (fset current)
      \<union> accepted_output s b d (hop_set s adj (fset current)))"
    using grows_trans [OF n(3) g2] n(2) by simp
  have run: "expand_depths ho t s i b current st (d # ds) =
      (if nx = {||} then Ok st2 else expand_depths ho t s i b nx st2 ds)"
    by (simp add: n(1) st2_def Let_def)
  show ?case
  proof (cases "nx = {||}")
    case True
    then show ?thesis using run g n(2) by auto
  next
    case False
    obtain st' where r: "expand_depths ho t s i b nx st2 ds = Ok st'"
      "grows s i b st2 st' (hop_output s adj b (fset nx) ds)"
      using Cons.IH by blast
    show ?thesis using run r False grows_trans [OF g r(2)] n(2) by simp
  qed
qed

text \<open>
  The whole step without filters: it fails only on a binding that lacks the step's source
  alias, and otherwise puts out, locally or for another partition, exactly the extensions of
  its bindings.
\<close>

definition step_output ::
  "ExpandHopStep \<Rightarrow> (NodeId \<Rightarrow> AdjacencyEntry list) \<Rightarrow> Binding \<Rightarrow> Binding set" where
  "step_output s adj b =
     (case fmlookup (b_nodes b) (eh_from_alias s) of
        Some start \<Rightarrow> hop_output s adj b {start} (hop_depths (eh_hops s)) | None \<Rightarrow> {})"

lemma expand_bindings:
  assumes "adjacency t (eh_direction s) adj" "valid_hash_order ho"
    and "\<forall>b \<in> set bs. fmlookup (b_nodes b) (eh_from_alias s) \<noteq> None" "seen_below k st"
  shows "\<exists>st'. fold_res (expand_binding ho t s) st (enumerate k bs) = Ok st' \<and>
    emitted st' = emitted st \<union> (\<Union>b \<in> set bs. step_output s adj b)"
  using assms(3,4)
proof (induction bs arbitrary: k st)
  case (Cons b bs)
  obtain start where start: "fmlookup (b_nodes b) (eh_from_alias s) = Some start"
    using Cons.prems(1) by auto
  obtain st1 where st1: "expand_depths ho t s k b {|start|} st (hop_depths (eh_hops s)) = Ok st1"
    "grows s k b st st1 (hop_output s adj b {start} (hop_depths (eh_hops s)))"
    using expand_depths_grows [OF assms(1,2), of k b "{|start|}"] by auto
  have inv: "seen_emitted s k b st" "seen_below (Suc k) st"
    using Cons.prems(2) by (fastforce simp: seen_emitted_def seen_below_def)+
  with st1(2) have "emitted st1 = emitted st \<union> step_output s adj b" "seen_below (Suc k) st1"
    by (simp_all add: grows_def step_output_def start)
  with Cons.IH [of "Suc k" st1] Cons.prems(1) start st1(1) show ?case
    by (auto simp: expand_binding_def)
qed simp

end
