(* ===== verification/Cluster.thy ===== *)
theory Cluster
  imports Graph_Index
begin

text \<open>
  Crate \<open>graph-cluster\<close>: the routing hash and the partition map (\<open>lib.rs\<close>), and how the
  map is discovered (\<open>discovery.rs\<close>). A Kubernetes pod enters as the fields the code reads.
\<close>

section \<open>Placement\<close>

datatype ReplicaId = ReplicaId (replica_name: string)

type_synonym SocketAddr = string

record ReplicaEndpoint =
  re_replica :: ReplicaId
  re_address :: SocketAddr
  re_healthy :: bool

record PartitionHasher =
  ph_n_partitions :: u32

definition hasher_partition_of ::
  "(u64 \<Rightarrow> u64) \<Rightarrow> PartitionHasher \<Rightarrow> NodeId \<Rightarrow> ('e, PartitionId) res" where
  "hasher_partition_of h hasher n = res_map PartitionId (partition_of h n (ph_n_partitions hasher))"

type_synonym PartitionMap = "(PartitionId, ReplicaEndpoint list) fmap"

definition healthy_replicas :: "PartitionMap \<Rightarrow> PartitionId \<Rightarrow> ReplicaEndpoint list" where
  "healthy_replicas m p =
     (case fmlookup m p of Some replicas \<Rightarrow> filter re_healthy replicas | None \<Rightarrow> [])"

definition pick_replica :: "PartitionMap \<Rightarrow> PartitionId \<Rightarrow> ReplicaEndpoint option" where
  "pick_replica m p = (case healthy_replicas m p of r # _ \<Rightarrow> Some r | [] \<Rightarrow> None)"

lemma pick_replica_healthy:
  "pick_replica m p = Some r \<Longrightarrow>
   re_healthy r \<and> (\<exists>replicas. fmlookup m p = Some replicas \<and> r \<in> set replicas)"
proof -
  assume "pick_replica m p = Some r"
  then obtain rest where "healthy_replicas m p = r # rest"
    by (auto simp: pick_replica_def split: list.splits)
  then have r: "r \<in> set (healthy_replicas m p)" by simp
  then show ?thesis by (cases "fmlookup m p") (auto simp: healthy_replicas_def)
qed

lemma pick_replica_None_iff:
  "pick_replica m p = None \<longleftrightarrow>
   (\<forall>replicas. fmlookup m p = Some replicas \<longrightarrow> (\<forall>r \<in> set replicas. \<not> re_healthy r))"
proof -
  have "pick_replica m p = None \<longleftrightarrow> healthy_replicas m p = []"
    by (simp add: pick_replica_def split: list.split)
  then show ?thesis
    by (simp add: healthy_replicas_def filter_empty_conv split: option.split)
qed

section \<open>Discovery\<close>

datatype DiscoveryError = KubernetesApi string

text \<open>
  The fields of a \<open>Pod\<close> that the code reads: its name, its IP and conditions (in its
  status, which may be missing), its annotations.
\<close>

record PodStatus =
  pst_pod_ip :: "string option"
  pst_conditions :: "(string \<times> string) list option"

record Pod =
  pod_name :: "string option"
  pod_status :: "PodStatus option"
  pod_annotations :: "(string, string) fmap option"

definition PARTITIONS_ANNOTATION :: string where
  "PARTITIONS_ANNOTATION = ''graph.io/partitions''"

definition pod_is_ready :: "Pod \<Rightarrow> bool" where
  "pod_is_ready pod =
     (case pod_status pod of
        None \<Rightarrow> False
      | Some st \<Rightarrow>
          (case pst_conditions st of
             None \<Rightarrow> False
           | Some cs \<Rightarrow> list_ex (\<lambda>(ty, status). ty = ''Ready'' \<and> status = ''True'') cs))"

text \<open>\<open>trim\<close> of the ASCII white space.\<close>

definition is_space :: "char \<Rightarrow> bool" where
  "is_space c \<longleftrightarrow> (let n = of_char c :: nat in n = 32 \<or> (9 \<le> n \<and> n \<le> 13))"

definition trim :: "string \<Rightarrow> string" where
  "trim s = rev (dropWhile is_space (rev (dropWhile is_space s)))"

definition pod_partitions :: "Pod \<Rightarrow> PartitionId list" where
  "pod_partitions pod =
     (case pod_annotations pod of
        None \<Rightarrow> []
      | Some a \<Rightarrow>
          (case fmlookup a PARTITIONS_ANNOTATION of
             None \<Rightarrow> []
           | Some raw \<Rightarrow>
               map PartitionId (List.map_filter (\<lambda>s. parse_u32 (trim s)) (split_on CHR '','' raw))))"

text \<open>\<open>parse_addr\<close> is the parser of socket addresses.\<close>

definition pod_to_replica_endpoint ::
  "(string \<Rightarrow> SocketAddr option) \<Rightarrow> Pod \<Rightarrow> u16 \<Rightarrow> ReplicaEndpoint option" where
  "pod_to_replica_endpoint parse_addr pod port =
     Option.bind (pod_name pod) (\<lambda>name.
     Option.bind (pod_status pod) (\<lambda>st.
     Option.bind (pst_pod_ip st) (\<lambda>ip.
     Option.bind (parse_addr (ip @ '':'' @ show_nat (unat port))) (\<lambda>address.
     Some \<lparr>re_replica = ReplicaId name, re_address = address, re_healthy = pod_is_ready pod\<rparr>))))"

definition add_pod :: "(string \<Rightarrow> SocketAddr option) \<Rightarrow> u16 \<Rightarrow> PartitionMap \<Rightarrow> Pod \<Rightarrow> PartitionMap" where
  "add_pod parse_addr port m pod =
     (case pod_to_replica_endpoint parse_addr pod port of
        None \<Rightarrow> m
      | Some endpoint \<Rightarrow> foldl (\<lambda>m p. hm_push p endpoint m) m (pod_partitions pod))"

definition kubernetes_current_map ::
  "(string \<Rightarrow> SocketAddr option) \<Rightarrow> u16 \<Rightarrow> (string, Pod list) res \<Rightarrow> (DiscoveryError, PartitionMap) res" where
  "kubernetes_current_map parse_addr port listed =
     res_map (foldl (add_pod parse_addr port) fmempty) (map_err KubernetesApi listed)"

record StaticDiscovery =
  sd_map :: PartitionMap

definition static_current_map :: "StaticDiscovery \<Rightarrow> (DiscoveryError, PartitionMap) res" where
  "static_current_map d = Ok (sd_map d)"

definition single_replica_per_partition :: "hash_order \<Rightarrow> (u32, SocketAddr) fmap \<Rightarrow> StaticDiscovery" where
  "single_replica_per_partition ho addrs =
     \<lparr>sd_map = foldl (\<lambda>m (p, address). fmupd (PartitionId p)
         [\<lparr>re_replica = ReplicaId (''partition-'' @ show_nat (unat p)),
           re_address = address, re_healthy = True\<rparr>] m) fmempty (hm_iter ho addrs)\<rparr>"

section \<open>What discovery finds\<close>

lemma fmlookup_foldl_push_const:
  "fmlookup (foldl (\<lambda>m p. hm_push p e m) m ps) k =
     (if k \<in> set ps then Some ((case fmlookup m k of Some vs \<Rightarrow> vs | None \<Rightarrow> [])
        @ replicate (count_list ps k) e)
      else fmlookup m k)"
proof (induction ps arbitrary: m)
  case (Cons p ps)
  show ?case
    by (auto simp: Cons.IH fmlookup_hm_push replicate_app_Cons_same split: option.splits)
qed simp

definition replicas_at :: "PartitionMap \<Rightarrow> PartitionId \<Rightarrow> ReplicaEndpoint list" where
  "replicas_at m p = (case fmlookup m p of Some rs \<Rightarrow> rs | None \<Rightarrow> [])"

lemma replicas_at_add_pod:
  "r \<in> set (replicas_at (add_pod pa port m pod) p) \<longleftrightarrow>
   r \<in> set (replicas_at m p) \<or>
   pod_to_replica_endpoint pa pod port = Some r \<and> p \<in> set (pod_partitions pod)"
  by (cases "pod_to_replica_endpoint pa pod port")
    (auto simp: replicas_at_def add_pod_def fmlookup_foldl_push_const count_list_0_iff split: if_splits)

lemma replicas_foldl_add_pod:
  "r \<in> set (replicas_at (foldl (add_pod pa port) m pods) p) \<longleftrightarrow>
   r \<in> set (replicas_at m p) \<or>
   (\<exists>pod \<in> set pods. pod_to_replica_endpoint pa pod port = Some r \<and> p \<in> set (pod_partitions pod))"
  by (induction pods arbitrary: m) (auto simp: replicas_at_add_pod)

text \<open>Only a pod whose \<open>Ready\<close> condition is true is ever routed to.\<close>

lemma discovered_replica_ready:
  assumes "kubernetes_current_map pa port listed = Ok m" "pick_replica m p = Some r"
  shows "\<exists>pods pod. listed = Ok pods \<and> pod \<in> set pods \<and> pod_is_ready pod \<and> p \<in> set (pod_partitions pod)
    \<and> pod_to_replica_endpoint pa pod port = Some r"
proof -
  from assms(1) obtain pods where pods: "listed = Ok pods" "m = foldl (add_pod pa port) fmempty pods"
    by (cases listed) (auto simp: kubernetes_current_map_def)
  from pick_replica_healthy [OF assms(2)] obtain rs
    where r: "re_healthy r" "fmlookup m p = Some rs" "r \<in> set rs" by blast
  then have "r \<in> set (replicas_at m p)" by (simp add: replicas_at_def)
  then obtain pod where pod: "pod \<in> set pods" "pod_to_replica_endpoint pa pod port = Some r"
    "p \<in> set (pod_partitions pod)"
    unfolding pods(2) replicas_foldl_add_pod by (auto simp: replicas_at_def)
  then have "pod_is_ready pod"
    using r(1) by (auto simp: pod_to_replica_endpoint_def bind_eq_Some_conv)
  with pods pod show ?thesis by blast
qed

lemma hasher_partition_of_Ok [simp]:
  "ph_n_partitions hs \<noteq> 0 \<Longrightarrow> hasher_partition_of h hs n = Ok (PartitionId (home_of h (ph_n_partitions hs) n))"
  by (simp add: hasher_partition_of_def)

end
