(* ===== verification/Distributed_Executor.thy ===== *)
theory Distributed_Executor
  imports Local_Executor Cluster
begin

text \<open>
  \<open>graph-query/src/distributed_executor.rs\<close>: the coordinator's scatter-gather loop over a
  \<open>PartitionRpc\<close>. The trait's methods are the fields of a record, the answers they give
  during one query; \<open>h\<close> is the node hash, \<open>ho\<close> the iteration order of hash containers,
  \<open>rfc\<close> the timestamp parser.
\<close>

record PartitionRpc =
  rpc_resolve_start :: "ReplicaEndpoint \<Rightarrow> PlanStep \<Rightarrow> (ExecutionError, Binding list) res"
  rpc_resolve_all :: "ReplicaEndpoint \<Rightarrow> PlanStep \<Rightarrow> (ExecutionError, Binding list) res"
  rpc_expand_hop :: "ReplicaEndpoint \<Rightarrow> PlanStep \<Rightarrow> Binding list \<Rightarrow> (ExecutionError, Frontier) res"
  rpc_get_node_properties ::
    "ReplicaEndpoint \<Rightarrow> NodeId list \<Rightarrow> (ExecutionError, (NodeId, NodeRecord) fmap) res"
  rpc_get_edge_properties ::
    "ReplicaEndpoint \<Rightarrow> EdgeId list \<Rightarrow> (ExecutionError, (EdgeId, EdgeRecord) fmap) res"
  rpc_check_anti_join ::
    "ReplicaEndpoint \<Rightarrow> AntiJoinStep \<Rightarrow> PropertyFilter list \<Rightarrow> Binding list
     \<Rightarrow> (ExecutionError, Binding list) res"

record ScatterGatherExecutor =
  sg_rpc :: PartitionRpc
  sg_hasher :: PartitionHasher

section \<open>Grouping by partition\<close>

definition group_ids_by_partition ::
  "(u64 \<Rightarrow> u64) \<Rightarrow> PartitionHasher \<Rightarrow> NodeId list \<Rightarrow> ('e, (PartitionId, NodeId list) fmap) res" where
  "group_ids_by_partition h hasher ids =
     fold_res (\<lambda>groups i. res_map (\<lambda>p. hm_push p i groups) (hasher_partition_of h hasher i)) fmempty ids"

definition group_by_owning_node_partition ::
  "(u64 \<Rightarrow> u64) \<Rightarrow> PartitionHasher \<Rightarrow> Binding list \<Rightarrow> string
   \<Rightarrow> (ExecutionError, (PartitionId, Binding list) fmap) res" where
  "group_by_owning_node_partition h hasher frontier alias =
     fold_res (\<lambda>groups binding.
       res_bind (ok_or (UnknownAlias alias) (fmlookup (b_nodes binding) alias)) (\<lambda>node.
       res_map (\<lambda>p. hm_push p binding groups) (hasher_partition_of h hasher node))) fmempty frontier"

section \<open>Hydration\<close>

definition get_node_properties ::
  "(u64 \<Rightarrow> u64) \<Rightarrow> hash_order \<Rightarrow> ScatterGatherExecutor \<Rightarrow> NodeId list \<Rightarrow> PartitionMap
   \<Rightarrow> (ExecutionError, (NodeId, NodeRecord) fmap) res" where
  "get_node_properties h ho E ids partitions =
     res_bind (group_ids_by_partition h (sg_hasher E) ids) (\<lambda>groups.
     fold_res (\<lambda>properties (p, ids).
       case pick_replica partitions p of
         None \<Rightarrow> Ok properties
       | Some replica \<Rightarrow>
           res_map (hm_extend properties) (rpc_get_node_properties (sg_rpc E) replica ids))
       fmempty (hm_iter ho groups))"

text \<open>The loop over the partitions that still may hold a wanted edge, with its early exit.\<close>

fun get_edge_loop ::
  "hash_order \<Rightarrow> ScatterGatherExecutor \<Rightarrow> PartitionMap \<Rightarrow> (EdgeId, EdgeRecord) fmap \<Rightarrow> EdgeId fset
   \<Rightarrow> PartitionId list \<Rightarrow> (ExecutionError, (EdgeId, EdgeRecord) fmap) res" where
  "get_edge_loop ho E partitions properties remaining [] = Ok properties"
| "get_edge_loop ho E partitions properties remaining (p # ps) =
     (if remaining = {||} then Ok properties
      else case pick_replica partitions p of
        None \<Rightarrow> get_edge_loop ho E partitions properties remaining ps
      | Some replica \<Rightarrow>
          res_bind (rpc_get_edge_properties (sg_rpc E) replica (hs_iter ho remaining)) (\<lambda>found.
          get_edge_loop ho E partitions
            (foldl (\<lambda>m (i, record). fmupd i record m) properties (hm_iter ho found))
            (remaining |-| fmdom found) ps))"

definition partition_keys :: "hash_order \<Rightarrow> PartitionMap \<Rightarrow> PartitionId list" where
  "partition_keys ho partitions = map fst (hm_iter ho partitions)"

definition get_edge_properties ::
  "hash_order \<Rightarrow> ScatterGatherExecutor \<Rightarrow> EdgeId list \<Rightarrow> PartitionMap
   \<Rightarrow> (ExecutionError, (EdgeId, EdgeRecord) fmap) res" where
  "get_edge_properties ho E ids partitions =
     get_edge_loop ho E partitions fmempty (fset_of_list ids) (partition_keys ho partitions)"

section \<open>Scatter rounds\<close>

text \<open>\<open>if seen.insert(binding_key(&b)) { merged.push(b) }\<close>.\<close>

definition merge_binding ::
  "Binding list \<times> (nat \<times> string \<times> u64) list set \<Rightarrow> Binding
   \<Rightarrow> Binding list \<times> (nat \<times> string \<times> u64) list set" where
  "merge_binding acc b =
     (if binding_key b \<in> snd acc then acc else (fst acc @ [b], insert (binding_key b) (snd acc)))"

definition broadcast_resolve ::
  "hash_order \<Rightarrow> ScatterGatherExecutor \<Rightarrow> PlanStep \<Rightarrow> PartitionMap \<Rightarrow> (ExecutionError, Binding list) res" where
  "broadcast_resolve ho E step partitions =
     res_map fst (fold_res (\<lambda>acc p.
       case pick_replica partitions p of
         None \<Rightarrow> Ok acc
       | Some replica \<Rightarrow>
           res_map (foldl merge_binding acc)
             (case step of
                ResolveStart _ _ _ _ \<Rightarrow> rpc_resolve_start (sg_rpc E) replica step
              | ResolveAll _ _ \<Rightarrow> rpc_resolve_all (sg_rpc E) replica step
              | _ \<Rightarrow> Panic ''broadcast_resolve is only called with the first step of a plan''))
       ([], {}) (partition_keys ho partitions))"

definition one_round ::
  "(u64 \<Rightarrow> u64) \<Rightarrow> hash_order \<Rightarrow> ScatterGatherExecutor \<Rightarrow> PlanStep \<Rightarrow> Binding list \<Rightarrow> PartitionMap
   \<Rightarrow> (ExecutionError, Binding list) res" where
  "one_round h ho E round_step frontier partitions =
     (case round_step of
        ExpandHop s \<Rightarrow>
          res_bind (group_by_owning_node_partition h (sg_hasher E) frontier (eh_from_alias s))
            (\<lambda>by_partition.
          fold_res (\<lambda>next_bindings (p, group).
            case pick_replica partitions p of
              None \<Rightarrow> Ok next_bindings
            | Some replica \<Rightarrow>
                res_map (\<lambda>result. next_bindings @ fr_local result @ map snd (fr_remote result))
                  (rpc_expand_hop (sg_rpc E) replica round_step group))
            [] (hm_iter ho by_partition))
      | _ \<Rightarrow> Err (UnknownAlias ''one_round called with a non-ExpandHop step''))"

text \<open>The step of one round: a single unfiltered hop from the round's cursor.\<close>

definition round_step :: "ExpandHopStep \<Rightarrow> string \<Rightarrow> nat \<Rightarrow> ExpandHopStep" where
  "round_step s cursor depth =
     \<lparr>eh_from_alias = cursor, eh_to_alias = eh_to_alias s, eh_to_label = None,
      eh_edge_type = eh_edge_type s, eh_direction = eh_direction s,
      eh_hops = \<lparr>hr_min = 1, hr_max = 1\<rparr>, eh_filters = [],
      eh_edge_alias = (if depth = 1 then eh_edge_alias s else None)\<rparr>"

fun hop_rounds ::
  "(u64 \<Rightarrow> u64) \<Rightarrow> hash_order \<Rightarrow> ScatterGatherExecutor \<Rightarrow> ExpandHopStep \<Rightarrow> PartitionMap
   \<Rightarrow> Binding list \<Rightarrow> Binding list \<times> (nat \<times> string \<times> u64) list set \<Rightarrow> string \<Rightarrow> nat list
   \<Rightarrow> (ExecutionError, Binding list) res" where
  "hop_rounds h ho E s partitions current accepted cursor [] = Ok (fst accepted)"
| "hop_rounds h ho E s partitions current accepted cursor (depth # depths) =
     (if current = [] then Ok (fst accepted)
      else res_bind (one_round h ho E (ExpandHop (round_step s cursor depth)) current partitions)
        (\<lambda>current'.
          hop_rounds h ho E s partitions current'
            (if depth \<ge> unat (hr_min (eh_hops s)) then foldl merge_binding accepted current' else accepted)
            (eh_to_alias s) depths))"

definition scatter_gather_hop ::
  "(u64 \<Rightarrow> u64) \<Rightarrow> hash_order \<Rightarrow> ScatterGatherExecutor \<Rightarrow> PlanStep \<Rightarrow> Binding list \<Rightarrow> PartitionMap
   \<Rightarrow> (ExecutionError, Binding list) res" where
  "scatter_gather_hop h ho E step frontier partitions =
     (case step of
        ExpandHop s \<Rightarrow>
          hop_rounds h ho E s partitions frontier ([], {}) (eh_from_alias s) (hop_depths (eh_hops s))
      | _ \<Rightarrow> Err (UnknownAlias ''scatter_gather_hop called with a non-ExpandHop step''))"

definition filter_frontier ::
  "(u64 \<Rightarrow> u64) \<Rightarrow> hash_order \<Rightarrow> (string \<Rightarrow> i64 option) \<Rightarrow> ScatterGatherExecutor \<Rightarrow> PlanStep
   \<Rightarrow> Binding list \<Rightarrow> PartitionMap \<Rightarrow> (ExecutionError, Binding list) res" where
  "filter_frontier h ho rfc E step frontier partitions =
     (case step of
        ExpandHop s \<Rightarrow>
          (if eh_filters s = [] \<or> frontier = [] then Ok frontier
           else
             let ids = hs_iter ho (fset_of_list
                   (List.map_filter (\<lambda>b. fmlookup (b_nodes b) (eh_to_alias s)) frontier)) in
             res_map (\<lambda>properties.
               filter (\<lambda>binding.
                 case fmlookup (b_nodes binding) (eh_to_alias s) of
                   None \<Rightarrow> False
                 | Some i \<Rightarrow>
                     (case fmlookup properties i of
                        None \<Rightarrow> False
                      | Some record \<Rightarrow> list_all (evaluate_filter rfc (nrec_properties record)) (eh_filters s)))
                 frontier)
               (get_node_properties h ho E ids partitions))
      | _ \<Rightarrow> Err (UnknownAlias ''filter_frontier called with a non-ExpandHop step''))"

section \<open>Anti-joins\<close>

fun property_value_to_literal :: "PropertyValue \<Rightarrow> Literal option" where
  "property_value_to_literal (VInt64 v) = Some (LInt64 v)"
| "property_value_to_literal (VFloat64 v) = Some (LFloat64 v)"
| "property_value_to_literal (VBool v) = Some (LBool v)"
| "property_value_to_literal (VString v) = Some (LString v)"
| "property_value_to_literal _ = None"

text \<open>Which outer aliases are edges, told from the first binding of the frontier.\<close>

definition outer_kinds ::
  "Binding \<Rightarrow> (string \<times> ComparisonOp \<times> PropertyRef) list \<Rightarrow> (ExecutionError, (string, bool) fmap) res" where
  "outer_kinds sample outer_conditions =
     fold_res (\<lambda>kinds (_, _, outer).
       if pr_alias outer |\<in>| fmdom (b_edges sample) then Ok (fmupd (pr_alias outer) True kinds)
       else if pr_alias outer |\<in>| fmdom (b_nodes sample) then Ok (fmupd (pr_alias outer) False kinds)
       else Err (UnknownAlias (pr_alias outer))) fmempty outer_conditions"

definition needed_ids ::
  "(string, bool) fmap \<Rightarrow> (string \<times> ComparisonOp \<times> PropertyRef) list \<Rightarrow> Binding list
   \<Rightarrow> (ExecutionError, NodeId fset \<times> EdgeId fset) res" where
  "needed_ids kinds outer_conditions frontier =
     fold_res (\<lambda>acc binding. fold_res (\<lambda>(ns, es) (_, _, outer).
       res_map (\<lambda>is_edge.
         if is_edge
         then (case fmlookup (b_edges binding) (pr_alias outer) of
                 Some i \<Rightarrow> (ns, finsert i es) | None \<Rightarrow> (ns, es))
         else (case fmlookup (b_nodes binding) (pr_alias outer) of
                 Some i \<Rightarrow> (finsert i ns, es) | None \<Rightarrow> (ns, es)))
         (expect ''no entry found for key'' (fmlookup kinds (pr_alias outer)))) acc outer_conditions)
       ({||}, {||}) frontier"

text \<open>The record an outer reference of a binding points to (\<open>continue 'binding\<close> is \<open>None\<close>).\<close>

definition outer_properties ::
  "(NodeId, NodeRecord) fmap \<Rightarrow> (EdgeId, EdgeRecord) fmap \<Rightarrow> bool \<Rightarrow> Binding \<Rightarrow> string
   \<Rightarrow> (string, PropertyValue) fmap option" where
  "outer_properties node_props edge_props is_edge binding alias =
     (if is_edge
      then Option.bind (fmlookup (b_edges binding) alias) (\<lambda>i. map_option erec_properties (fmlookup edge_props i))
      else Option.bind (fmlookup (b_nodes binding) alias) (\<lambda>i. map_option nrec_properties (fmlookup node_props i)))"

text \<open>The conditions of one binding, resolved; \<open>Ok None\<close> drops the binding.\<close>

fun resolve_conditions ::
  "(NodeId, NodeRecord) fmap \<Rightarrow> (EdgeId, EdgeRecord) fmap \<Rightarrow> (string, bool) fmap \<Rightarrow> Binding
   \<Rightarrow> PropertyFilter list \<Rightarrow> (string \<times> ComparisonOp \<times> PropertyRef) list
   \<Rightarrow> (ExecutionError, PropertyFilter list option) res" where
  "resolve_conditions node_props edge_props kinds binding resolved [] = Ok (Some resolved)"
| "resolve_conditions node_props edge_props kinds binding resolved ((inner_property, op, outer) # rest) =
     res_bind (expect ''no entry found for key'' (fmlookup kinds (pr_alias outer))) (\<lambda>is_edge.
       case Option.bind (outer_properties node_props edge_props is_edge binding (pr_alias outer))
              (\<lambda>p. Option.bind (fmlookup p (pr_property outer)) property_value_to_literal) of
         None \<Rightarrow> Ok None
       | Some literal \<Rightarrow>
           resolve_conditions node_props edge_props kinds binding
             (resolved @ [\<lparr>pf_property = inner_property, pf_op = op, pf_value = literal\<rparr>]) rest)"

text \<open>The derived \<open>PartialEq\<close> of literals and filters: doubles compare as numbers.\<close>

definition literal_eq :: "Literal \<Rightarrow> Literal \<Rightarrow> bool" where
  "literal_eq a b =
     (case (a, b) of (LFloat64 x, LFloat64 y) \<Rightarrow> f64_eq x y | _ \<Rightarrow> a = b)"

definition filter_eq :: "PropertyFilter \<Rightarrow> PropertyFilter \<Rightarrow> bool" where
  "filter_eq f g \<longleftrightarrow>
     pf_property f = pf_property g \<and> pf_op f = pf_op g \<and> literal_eq (pf_value f) (pf_value g)"

fun push_group ::
  "PropertyFilter list \<Rightarrow> Binding \<Rightarrow> (PropertyFilter list \<times> Binding list) list
   \<Rightarrow> (PropertyFilter list \<times> Binding list) list" where
  "push_group resolved binding [] = [(resolved, [binding])]"
| "push_group resolved binding ((conditions, bucket) # groups) =
     (if list_all2 filter_eq conditions resolved then (conditions, bucket @ [binding]) # groups
      else (conditions, bucket) # push_group resolved binding groups)"

definition resolve_and_group_by_condition ::
  "(u64 \<Rightarrow> u64) \<Rightarrow> hash_order \<Rightarrow> ScatterGatherExecutor \<Rightarrow> AntiJoinStep \<Rightarrow> Binding list \<Rightarrow> PartitionMap
   \<Rightarrow> (ExecutionError, (PropertyFilter list \<times> Binding list) list) res" where
  "resolve_and_group_by_condition h ho E step frontier partitions =
     res_bind (index_at frontier 0) (\<lambda>sample.
     res_bind (outer_kinds sample (aj_outer_conditions step)) (\<lambda>kinds.
     res_bind (needed_ids kinds (aj_outer_conditions step) frontier) (\<lambda>(ns, es).
     res_bind (if ns = {||} then Ok fmempty
               else get_node_properties h ho E (hs_iter ho ns) partitions) (\<lambda>node_props.
     res_bind (if es = {||} then Ok fmempty
               else get_edge_properties ho E (hs_iter ho es) partitions) (\<lambda>edge_props.
     fold_res (\<lambda>groups binding.
       res_map (\<lambda>r. case r of None \<Rightarrow> groups | Some resolved \<Rightarrow> push_group resolved binding groups)
         (resolve_conditions node_props edge_props kinds binding (aj_literal_conditions step)
            (aj_outer_conditions step))) [] frontier)))))"

definition anti_join_group ::
  "(u64 \<Rightarrow> u64) \<Rightarrow> hash_order \<Rightarrow> ScatterGatherExecutor \<Rightarrow> AntiJoinStep \<Rightarrow> PartitionMap
   \<Rightarrow> Binding list \<Rightarrow> PropertyFilter list \<times> Binding list \<Rightarrow> (ExecutionError, Binding list) res" where
  "anti_join_group h ho E step partitions survivors grp =
     (case grp of (conditions, bindings) \<Rightarrow>
      res_bind (group_by_owning_node_partition h (sg_hasher E) bindings (aj_from_alias step))
        (\<lambda>by_partition.
      fold_res (\<lambda>survivors (p, group).
        case pick_replica partitions p of
          None \<Rightarrow> Ok survivors
        | Some replica \<Rightarrow>
            res_map (\<lambda>result. survivors @ result)
              (rpc_check_anti_join (sg_rpc E) replica step conditions group))
        survivors (hm_iter ho by_partition)))"

definition execute_anti_join ::
  "(u64 \<Rightarrow> u64) \<Rightarrow> hash_order \<Rightarrow> ScatterGatherExecutor \<Rightarrow> AntiJoinStep \<Rightarrow> Binding list \<Rightarrow> PartitionMap
   \<Rightarrow> (ExecutionError, Binding list) res" where
  "execute_anti_join h ho E step frontier partitions =
     (if frontier = [] then Ok frontier
      else res_bind (if aj_outer_conditions step = [] then Ok [(aj_literal_conditions step, frontier)]
                     else resolve_and_group_by_condition h ho E step frontier partitions) (\<lambda>groups.
        fold_res (anti_join_group h ho E step partitions) [] groups))"

section \<open>Executing a plan\<close>

definition execute_step ::
  "(u64 \<Rightarrow> u64) \<Rightarrow> hash_order \<Rightarrow> (string \<Rightarrow> i64 option) \<Rightarrow> ScatterGatherExecutor \<Rightarrow> PartitionMap
   \<Rightarrow> Binding list \<Rightarrow> PlanStep \<Rightarrow> (ExecutionError, Binding list) res" where
  "execute_step h ho rfc E partitions frontier step =
     (case step of
        ExpandHop s \<Rightarrow>
          res_bind (scatter_gather_hop h ho E step frontier partitions) (\<lambda>expanded.
          filter_frontier h ho rfc E step expanded partitions)
      | AntiJoin aj \<Rightarrow> execute_anti_join h ho E aj frontier partitions
      | _ \<Rightarrow> Err (UnknownAlias ''ResolveStart/ResolveAll can only be the first plan step''))"

definition is_resolve :: "PlanStep \<Rightarrow> bool" where
  "is_resolve step = (case step of ResolveStart _ _ _ _ \<Rightarrow> True | ResolveAll _ _ \<Rightarrow> True | _ \<Rightarrow> False)"

definition execute ::
  "(u64 \<Rightarrow> u64) \<Rightarrow> hash_order \<Rightarrow> (string \<Rightarrow> i64 option) \<Rightarrow> ScatterGatherExecutor \<Rightarrow> QueryPlan
   \<Rightarrow> PartitionMap \<Rightarrow> (ExecutionError, Binding list) res" where
  "execute h ho rfc E qplan partitions =
     (case qp_steps qplan of
        [] \<Rightarrow> Err (UnknownAlias ''a plan always has at least a ResolveStart/ResolveAll step'')
      | first # steps \<Rightarrow>
          if \<not> is_resolve first
          then Err (UnknownAlias ''the first step of a plan must be ResolveStart or ResolveAll'')
          else res_bind (broadcast_resolve ho E first partitions) (\<lambda>frontier.
            res_map dedup (fold_res (execute_step h ho rfc E partitions) frontier steps)))"

end
