(* ===== verification/Graph_Spec.thy ===== *)
theory Graph_Spec
  imports Local_Executor
begin

text \<open>
  What a plan means: a set semantics over the whole graph, with no partitions, hashes,
  orders or duplicates. \<open>up n\<close> says that the partition of node \<open>n\<close> can be reached; with
  \<open>up = (\<lambda>_. True)\<close> the semantics is that of the graph itself. The executors are proved
  to compute these sets.
\<close>

section \<open>The graph\<close>

record Dataset =
  ds_schema :: Schema
  ds_nodes :: "(Label \<times> NodeRow) list"
  ds_edges :: "(EdgeType \<times> EdgeRow) list"

definition ds_ids :: "Dataset \<Rightarrow> NodeId set" where
  "ds_ids D = nr_id ` snd ` set (ds_nodes D)"

definition node_rec :: "Dataset \<Rightarrow> NodeId \<Rightarrow> NodeRecord option" where
  "node_rec D = map_of (map node_record_entry (ds_nodes D))"

definition edge_rec :: "Dataset \<Rightarrow> EdgeId \<Rightarrow> EdgeRecord option" where
  "edge_rec D = map_of (map edge_record_entry (ds_edges D))"

definition edge_source :: "Dataset \<Rightarrow> EdgeId \<Rightarrow> NodeId option" where
  "edge_source D = map_of (map (\<lambda>(_, row). (er_id row, er_src row)) (ds_edges D))"

text \<open>
  A dataset is well formed when ids identify its rows, every edge joins nodes of it, and it
  stays within the 32-bit sizes of the index.
\<close>

definition wf_dataset :: "Dataset \<Rightarrow> bool" where
  "wf_dataset D \<longleftrightarrow>
     distinct (map (nr_id \<circ> snd) (ds_nodes D)) \<and>
     distinct (map (er_id \<circ> snd) (ds_edges D)) \<and>
     list_all (\<lambda>(_, row). er_src row \<in> ds_ids D \<and> er_dst row \<in> ds_ids D) (ds_edges D) \<and>
     index_bounds (ds_nodes D) (ds_edges D)"

definition edge_type_is :: "string option \<Rightarrow> EdgeType \<Rightarrow> bool" where
  "edge_type_is want ty \<longleftrightarrow> (case want of Some t \<Rightarrow> edge_type_name ty = t | None \<Rightarrow> True)"

text \<open>The edges of a type at a node in a direction, with the node at their other end.\<close>

definition links :: "Dataset \<Rightarrow> Direction \<Rightarrow> string option \<Rightarrow> NodeId \<Rightarrow> (EdgeId \<times> NodeId) list" where
  "links D direction want m =
     map (\<lambda>(_, row). (er_id row, edge_far (direction = Outgoing) row))
       (filter (\<lambda>(ty, row). edge_owner (direction = Outgoing) row = m \<and> edge_type_is want ty) (ds_edges D))"

section \<open>Starting\<close>

definition start_matches :: "Dataset \<Rightarrow> string \<Rightarrow> string \<Rightarrow> PropertyKey \<Rightarrow> NodeId set" where
  "start_matches D lbl p k =
     (if indexed_property (ds_schema D) (Label lbl) p
      then (nr_id \<circ> snd) ` set (filter (\<lambda>(l, row). l = Label lbl \<and> row_has_key row p k) (ds_nodes D))
      else {})"

definition labelled :: "Dataset \<Rightarrow> string \<Rightarrow> NodeId set" where
  "labelled D lbl = (nr_id \<circ> snd) ` set (filter (\<lambda>(l, row). l = Label lbl) (ds_nodes D))"

fun spec_start :: "Dataset \<Rightarrow> (NodeId \<Rightarrow> bool) \<Rightarrow> PlanStep \<Rightarrow> Binding set" where
  "spec_start D up (ResolveStart a l p k) = binding_from_node a ` {n \<in> start_matches D l p k. up n}"
| "spec_start D up (ResolveAll a l) = binding_from_node a ` {n \<in> labelled D l. up n}"
| "spec_start D up _ = {}"

section \<open>Walking\<close>

text \<open>The ends of the walks of \<open>d\<close> edges from \<open>m\<close>, every node left being reachable.\<close>

fun walk_ends :: "Dataset \<Rightarrow> (NodeId \<Rightarrow> bool) \<Rightarrow> ExpandHopStep \<Rightarrow> nat \<Rightarrow> NodeId \<Rightarrow> NodeId set" where
  "walk_ends D up s 0 m = {m}"
| "walk_ends D up s (Suc d) m =
     (\<Union>x \<in> walk_ends D up s d m.
        if up x then snd ` set (links D (eh_direction s) (eh_edge_type s) x) else {})"

definition spec_hop :: "Dataset \<Rightarrow> (NodeId \<Rightarrow> bool) \<Rightarrow> ExpandHopStep \<Rightarrow> Binding \<Rightarrow> Binding set" where
  "spec_hop D up s b =
     (case fmlookup (b_nodes b) (eh_from_alias s) of
        None \<Rightarrow> {}
      | Some m \<Rightarrow>
          (if eh_edge_alias s = None
           then \<Union>d \<in> set (filter (\<lambda>d. unat (hr_min (eh_hops s)) \<le> d) (hop_depths (eh_hops s))).
                  (\<lambda>n. bind_node (eh_to_alias s) n b) ` walk_ends D up s d m
           else if up m
           then (\<lambda>(i, n). extend_binding s i n b) ` set (links D (eh_direction s) (eh_edge_type s) m)
           else {}))"

definition spec_passes ::
  "Dataset \<Rightarrow> (NodeId \<Rightarrow> bool) \<Rightarrow> (string \<Rightarrow> i64 option) \<Rightarrow> ExpandHopStep \<Rightarrow> Binding \<Rightarrow> bool" where
  "spec_passes D up rfc s b \<longleftrightarrow>
     eh_filters s = [] \<or>
     (case fmlookup (b_nodes b) (eh_to_alias s) of
        None \<Rightarrow> False
      | Some n \<Rightarrow>
          up n \<and> (case node_rec D n of
                    None \<Rightarrow> False
                  | Some r \<Rightarrow> list_all (evaluate_filter rfc (nrec_properties r)) (eh_filters s)))"

definition spec_expand ::
  "Dataset \<Rightarrow> (NodeId \<Rightarrow> bool) \<Rightarrow> (string \<Rightarrow> i64 option) \<Rightarrow> ExpandHopStep \<Rightarrow> Binding set \<Rightarrow> Binding set" where
  "spec_expand D up rfc s B = {b' \<in> \<Union>b \<in> B. spec_hop D up s b. spec_passes D up rfc s b'}"

section \<open>Anti-joins\<close>

text \<open>The value an outer reference has in a binding, as a literal, when it has one.\<close>

definition outer_value ::
  "Dataset \<Rightarrow> (NodeId \<Rightarrow> bool) \<Rightarrow> Binding \<Rightarrow> PropertyRef \<Rightarrow> PropertyValue option" where
  "outer_value D up b outer =
     (case fmlookup (b_edges b) (pr_alias outer) of
        Some i \<Rightarrow>
          (case edge_source D i of
             Some m \<Rightarrow>
               (if up m then Option.bind (edge_rec D i) (\<lambda>r. fmlookup (erec_properties r) (pr_property outer))
                else None)
           | None \<Rightarrow> None)
      | None \<Rightarrow>
          (case fmlookup (b_nodes b) (pr_alias outer) of
             Some n \<Rightarrow>
               (if up n then Option.bind (node_rec D n) (\<lambda>r. fmlookup (nrec_properties r) (pr_property outer))
                else None)
           | None \<Rightarrow> None))"

fun value_literal :: "PropertyValue \<Rightarrow> Literal option" where
  "value_literal (VInt64 v) = Some (LInt64 v)"
| "value_literal (VFloat64 v) = Some (LFloat64 v)"
| "value_literal (VBool v) = Some (LBool v)"
| "value_literal (VString v) = Some (LString v)"
| "value_literal _ = None"

fun spec_conditions ::
  "Dataset \<Rightarrow> (NodeId \<Rightarrow> bool) \<Rightarrow> Binding \<Rightarrow> PropertyFilter list
   \<Rightarrow> (string \<times> ComparisonOp \<times> PropertyRef) list \<Rightarrow> PropertyFilter list option" where
  "spec_conditions D up b acc [] = Some acc"
| "spec_conditions D up b acc ((p, op, outer) # rest) =
     (case Option.bind (outer_value D up b outer) value_literal of
        Some l \<Rightarrow> spec_conditions D up b (acc @ [\<lparr>pf_property = p, pf_op = op, pf_value = l\<rparr>]) rest
      | None \<Rightarrow> None)"

text \<open>Some edge of the step's type joins the two nodes and meets the conditions.\<close>

definition edge_exists ::
  "Dataset \<Rightarrow> (string \<Rightarrow> i64 option) \<Rightarrow> string option \<Rightarrow> NodeId \<Rightarrow> NodeId \<Rightarrow> PropertyFilter list \<Rightarrow> bool" where
  "edge_exists D rfc want m n conds \<longleftrightarrow>
     list_ex (\<lambda>(ty, row). er_src row = m \<and> er_dst row = n \<and> edge_type_is want ty
       \<and> list_all (evaluate_filter rfc (er_properties row)) conds) (ds_edges D)"

definition spec_survives ::
  "Dataset \<Rightarrow> (NodeId \<Rightarrow> bool) \<Rightarrow> (string \<Rightarrow> i64 option) \<Rightarrow> AntiJoinStep \<Rightarrow> Binding \<Rightarrow> bool" where
  "spec_survives D up rfc st b \<longleftrightarrow>
     (case (fmlookup (b_nodes b) (aj_from_alias st), fmlookup (b_nodes b) (aj_to_alias st),
            spec_conditions D up b (aj_literal_conditions st) (aj_outer_conditions st)) of
        (Some m, Some n, Some conds) \<Rightarrow> up m \<and> \<not> edge_exists D rfc (aj_edge_type st) m n conds
      | _ \<Rightarrow> False)"

section \<open>Plans\<close>

fun spec_step ::
  "Dataset \<Rightarrow> (NodeId \<Rightarrow> bool) \<Rightarrow> (string \<Rightarrow> i64 option) \<Rightarrow> Binding set \<Rightarrow> PlanStep \<Rightarrow> Binding set" where
  "spec_step D up rfc B (ExpandHop s) = spec_expand D up rfc s B"
| "spec_step D up rfc B (AntiJoin st) = {b \<in> B. spec_survives D up rfc st b}"
| "spec_step D up rfc B _ = {}"

fun spec_plan ::
  "Dataset \<Rightarrow> (NodeId \<Rightarrow> bool) \<Rightarrow> (string \<Rightarrow> i64 option) \<Rightarrow> PlanStep list \<Rightarrow> Binding set" where
  "spec_plan D up rfc [] = {}"
| "spec_plan D up rfc (st # steps) = foldl (spec_step D up rfc) (spec_start D up st) steps"

text \<open>
  A plan is well scoped when it starts with a resolve step and every later step refers to
  aliases the steps before it bind. \<open>N\<close> and \<open>E\<close> are the node and edge aliases bound so far.
  The protocol writes an absent name as the empty string, so no name may be empty.
\<close>

fun wf_steps :: "string set \<Rightarrow> string set \<Rightarrow> PlanStep list \<Rightarrow> bool" where
  "wf_steps N E [] = True"
| "wf_steps N E (ExpandHop s # steps) =
     (eh_from_alias s \<in> N \<and>
      (eh_edge_alias s \<noteq> None \<longrightarrow> eh_hops s = \<lparr>hr_min = 1, hr_max = 1\<rparr>) \<and>
      eh_edge_type s \<noteq> Some [] \<and> eh_edge_alias s \<noteq> Some [] \<and>
      wf_steps (insert (eh_to_alias s) N) (E \<union> set_option (eh_edge_alias s)) steps)"
| "wf_steps N E (AntiJoin st # steps) =
     (aj_from_alias st \<in> N \<and> aj_to_alias st \<in> N \<and> aj_direction st = Outgoing \<and>
      aj_edge_type st \<noteq> Some [] \<and>
      list_all (\<lambda>(_, _, outer). pr_alias outer \<in> N \<union> E) (aj_outer_conditions st) \<and>
      wf_steps N E steps)"
| "wf_steps N E (_ # steps) = False"

fun wf_plan :: "PlanStep list \<Rightarrow> bool" where
  "wf_plan (ResolveStart a _ _ _ # steps) = wf_steps {a} {} steps"
| "wf_plan (ResolveAll a _ # steps) = wf_steps {a} {} steps"
| "wf_plan _ = False"

text \<open>The aliases of a binding.\<close>

definition scoped :: "string set \<Rightarrow> string set \<Rightarrow> Binding \<Rightarrow> bool" where
  "scoped N E b \<longleftrightarrow> fset (fmdom (b_nodes b)) = N \<and> fset (fmdom (b_edges b)) = E"

lemma scoped_node: "scoped N E b \<Longrightarrow> a \<in> N \<Longrightarrow> \<exists>n. fmlookup (b_nodes b) a = Some n"
  by (auto simp: scoped_def)

lemma scoped_edge: "scoped N E b \<Longrightarrow> a \<in> E \<Longrightarrow> \<exists>n. fmlookup (b_edges b) a = Some n"
  by (auto simp: scoped_def)

lemma scoped_start: "b \<in> spec_start D up st \<Longrightarrow>
    scoped (case st of ResolveStart a _ _ _ \<Rightarrow> {a} | ResolveAll a _ \<Rightarrow> {a} | _ \<Rightarrow> {}) {} b"
  by (cases st) (auto simp: scoped_def)

lemma scoped_extend:
  "scoped N E b \<Longrightarrow> scoped (insert (eh_to_alias s) N) (E \<union> set_option (eh_edge_alias s)) (extend_binding s i n b)"
  by (cases "eh_edge_alias s") (auto simp: scoped_def extend_binding_def bind_edge_def)

lemma scoped_bind: "scoped N E b \<Longrightarrow> scoped (insert a N) E (bind_node a n b)"
  by (auto simp: scoped_def)

lemma scoped_hop:
  assumes "scoped N E b" "b' \<in> spec_hop D up s b"
  shows "scoped (insert (eh_to_alias s) N) (E \<union> set_option (eh_edge_alias s)) b'"
  using assms(2) scoped_bind [OF assms(1)] scoped_extend [OF assms(1), of s]
  by (auto simp: spec_hop_def split: option.splits if_splits)

lemma scoped_expand:
  "\<forall>b \<in> B. scoped N E b \<Longrightarrow> b' \<in> spec_expand D up rfc s B \<Longrightarrow>
   scoped (insert (eh_to_alias s) N) (E \<union> set_option (eh_edge_alias s)) b'"
  by (auto simp: spec_expand_def intro: scoped_hop)

section \<open>Sizes and values that travel\<close>

text \<open>
  An anti-join's partition answers with 32-bit positions; \<open>small\<close> bounds the number of
  bindings an anti-join of the plan is given.
\<close>

fun small_steps ::
  "(nat \<Rightarrow> bool) \<Rightarrow> Dataset \<Rightarrow> (NodeId \<Rightarrow> bool) \<Rightarrow> (string \<Rightarrow> i64 option) \<Rightarrow> Binding set \<Rightarrow> PlanStep list \<Rightarrow> bool" where
  "small_steps small D up rfc B [] = True"
| "small_steps small D up rfc B (st # steps) =
     ((case st of AntiJoin _ \<Rightarrow> small (card B) | _ \<Rightarrow> True) \<and>
      small_steps small D up rfc (spec_step D up rfc B st) steps)"

fun small_plan ::
  "(nat \<Rightarrow> bool) \<Rightarrow> Dataset \<Rightarrow> (NodeId \<Rightarrow> bool) \<Rightarrow> (string \<Rightarrow> i64 option) \<Rightarrow> PlanStep list \<Rightarrow> bool" where
  "small_plan small D up rfc [] = True"
| "small_plan small D up rfc (st # steps) = small_steps small D up rfc (spec_start D up st) steps"

lemma small_plan_trivial [simp]: "small_plan (\<lambda>_. True) D up rfc steps"
proof (cases steps)
  case (Cons st rest)
  have "small_steps (\<lambda>_. True) D up rfc B rest" for B
    by (induction rest arbitrary: B) (auto split: PlanStep.split)
  then show ?thesis by (simp add: Cons)
qed simp

text \<open>
  Lists and nulls have no representation in the protocol. A record that lost them
  answers every filter and every outer reference as before.
\<close>

fun on_wire :: "PropertyValue \<Rightarrow> bool" where
  "on_wire (VList _) = False"
| "on_wire VNull = False"
| "on_wire _ = True"

definition wire_fields :: "(string, PropertyValue) fmap \<Rightarrow> (string, PropertyValue) fmap" where
  "wire_fields m = fmfilter (\<lambda>k. case fmlookup m k of Some v \<Rightarrow> on_wire v | None \<Rightarrow> False) m"

definition wire_node :: "NodeRecord \<Rightarrow> NodeRecord" where
  "wire_node r = \<lparr>nrec_label = nrec_label r, nrec_properties = wire_fields (nrec_properties r)\<rparr>"

definition wire_edge :: "EdgeRecord \<Rightarrow> EdgeRecord" where
  "wire_edge r = \<lparr>erec_edge_type = erec_edge_type r, erec_properties = wire_fields (erec_properties r)\<rparr>"

lemma fmlookup_wire_fields [simp]:
  "fmlookup (wire_fields m) k = (case fmlookup m k of Some v \<Rightarrow> if on_wire v then Some v else None | None \<Rightarrow> None)"
  by (simp add: wire_fields_def split: option.split)

lemma evaluate_filter_wire: "evaluate_filter rfc (wire_fields m) f = evaluate_filter rfc m f"
proof -
  have "\<not> on_wire v \<Longrightarrow> literal_ordering rfc v l = None" for v l
    by (cases v) (simp_all add: literal_ordering_def)
  then show ?thesis
    by (auto simp: evaluate_filter_def literal_matches_def split: option.split)
qed

lemma evaluate_filter_same_wire:
  "wire_fields m = wire_fields n \<Longrightarrow> evaluate_filter rfc m f = evaluate_filter rfc n f"
  by (metis evaluate_filter_wire)

lemma literal_same_wire:
  assumes "wire_fields m = wire_fields n"
  shows "Option.bind (fmlookup m k) value_literal = Option.bind (fmlookup n k) value_literal"
proof -
  have "Option.bind (fmlookup m k) value_literal = Option.bind (fmlookup (wire_fields m) k) value_literal" for m
  proof (cases "fmlookup m k")
    case (Some v)
    then show ?thesis by (cases v) simp_all
  qed simp
  with assms show ?thesis by metis
qed

section \<open>Partial reachability only removes results\<close>

lemma walk_ends_mono:
  "(\<And>n. up n \<Longrightarrow> up' n) \<Longrightarrow> walk_ends D up s d m \<subseteq> walk_ends D up' s d m"
  by (induction d) (auto split: if_splits)

lemma outer_value_mono:
  "(\<And>n. up n \<Longrightarrow> up' n) \<Longrightarrow> outer_value D up b outer = Some v \<Longrightarrow> outer_value D up' b outer = Some v"
  by (auto simp: outer_value_def split: option.splits if_splits)

lemma spec_conditions_mono:
  assumes "\<And>n. up n \<Longrightarrow> up' n"
  shows "spec_conditions D up b acc outers = Some conds \<Longrightarrow>
    spec_conditions D up' b acc outers = Some conds"
proof (induction outers arbitrary: acc)
  case (Cons o1 outers)
  obtain p op outer where o1: "o1 = (p, op, outer)" by (cases o1)
  from Cons.prems obtain v l where "outer_value D up b outer = Some v" "value_literal v = Some l"
    "spec_conditions D up b (acc @ [\<lparr>pf_property = p, pf_op = op, pf_value = l\<rparr>]) outers = Some conds"
    by (auto simp: o1 split: option.splits bind_splits)
  with Cons.IH outer_value_mono [OF assms] show ?case by (simp add: o1)
qed simp

lemma spec_hop_mono: "(\<And>n. up n \<Longrightarrow> up' n) \<Longrightarrow> spec_hop D up s b \<subseteq> spec_hop D up' s b"
  using walk_ends_mono [of up up' D s]
  by (fastforce simp: spec_hop_def split: option.splits if_splits)

lemma spec_passes_mono:
  "(\<And>n. up n \<Longrightarrow> up' n) \<Longrightarrow> spec_passes D up rfc s b \<Longrightarrow> spec_passes D up' rfc s b"
  by (auto simp: spec_passes_def split: option.splits)

lemma spec_survives_mono:
  "(\<And>n. up n \<Longrightarrow> up' n) \<Longrightarrow> spec_survives D up rfc st b \<Longrightarrow> spec_survives D up' rfc st b"
  using spec_conditions_mono [of up up' D b]
  by (fastforce simp: spec_survives_def split: option.splits)

lemma spec_step_mono:
  assumes "\<And>n. up n \<Longrightarrow> up' n" "B \<subseteq> C"
  shows "spec_step D up rfc B st \<subseteq> spec_step D up' rfc C st"
proof (cases st)
  case (ExpandHop s)
  then show ?thesis
    using spec_hop_mono [of up up' D s] spec_passes_mono [of up up' D rfc s] assms
    by (fastforce simp: spec_expand_def)
next
  case (AntiJoin a)
  then show ?thesis using spec_survives_mono [of up up' D rfc a] assms by auto
qed simp_all

lemma spec_start_mono: "(\<And>n. up n \<Longrightarrow> up' n) \<Longrightarrow> spec_start D up st \<subseteq> spec_start D up' st"
  by (cases st) auto

lemma spec_plan_mono:
  assumes "\<And>n. up n \<Longrightarrow> up' n"
  shows "spec_plan D up rfc steps \<subseteq> spec_plan D up' rfc steps"
proof (cases steps)
  case (Cons st rest)
  have "B \<subseteq> C \<Longrightarrow> foldl (spec_step D up rfc) B rest \<subseteq> foldl (spec_step D up' rfc) C rest" for B C
    by (induction rest arbitrary: B C) (simp_all add: assms spec_step_mono)
  then show ?thesis using spec_start_mono assms by (simp add: Cons)
qed simp

end
