(* ===== verification/Distributed_Refinement.thy ===== *)
theory Distributed_Refinement
  imports Distributed_Executor Graph_Spec
begin

text \<open>
  The scatter-gather executor computes the meaning of the plan. The locale
  \<open>partition_cluster\<close> is the contract between the coordinator and the partitions: what the
  replica picked for a partition answers to each call. Inside it the executor is proved to
  return exactly the bindings of \<open>spec_plan\<close>, whatever the number of partitions, the
  hash, the iteration orders and the replicas; the theories of the providers interpret it.
\<close>

section \<open>Deployments\<close>

record Deployment =
  dp_hash :: "u64 \<Rightarrow> u64"
  dp_order :: hash_order
  dp_rfc :: "string \<Rightarrow> i64 option"
  dp_hasher :: PartitionHasher
  dp_map :: PartitionMap
  dp_data :: Dataset

definition home :: "Deployment \<Rightarrow> NodeId \<Rightarrow> PartitionId" where
  "home d n = PartitionId (home_of (dp_hash d) (ph_n_partitions (dp_hasher d)) n)"

text \<open>The partition of a node has a healthy replica.\<close>

definition reachable :: "Deployment \<Rightarrow> NodeId \<Rightarrow> bool" where
  "reachable d n \<longleftrightarrow> pick_replica (dp_map d) (home d n) \<noteq> None"

definition fully_available :: "Deployment \<Rightarrow> bool" where
  "fully_available d \<longleftrightarrow>
     (\<forall>p < ph_n_partitions (dp_hasher d). pick_replica (dp_map d) (PartitionId p) \<noteq> None)"

lemma fully_available_reachable:
  "ph_n_partitions (dp_hasher d) \<noteq> 0 \<Longrightarrow> fully_available d \<Longrightarrow> reachable d n"
  by (simp add: fully_available_def reachable_def home_def home_of_less)

section \<open>Grouping\<close>

lemma group_ids_Ok:
  assumes "ph_n_partitions (dp_hasher d) \<noteq> 0"
  shows "group_ids_by_partition (dp_hash d) (dp_hasher d) ids = Ok (hm_group (home d) ids)"
  unfolding group_ids_by_partition_def hm_group_def
  by (rule fold_res_foldl) (simp add: assms home_def)

definition alias_home :: "Deployment \<Rightarrow> string \<Rightarrow> Binding \<Rightarrow> PartitionId" where
  "alias_home d a b = home d (the (fmlookup (b_nodes b) a))"

lemma group_bindings_Ok:
  assumes "ph_n_partitions (dp_hasher d) \<noteq> 0" "\<forall>b \<in> set bs. \<exists>n. fmlookup (b_nodes b) a = Some n"
  shows "group_by_owning_node_partition (dp_hash d) (dp_hasher d) bs a = Ok (hm_group (alias_home d a) bs)"
  unfolding group_by_owning_node_partition_def hm_group_def
  by (rule fold_res_foldl) (use assms in \<open>auto simp: alias_home_def home_def\<close>)

section \<open>Merging\<close>

lemma foldl_merge_binding:
  assumes "snd acc = binding_key ` set (fst acc)"
  shows "snd (foldl merge_binding acc bs) = binding_key ` set (fst (foldl merge_binding acc bs))
    \<and> set (fst (foldl merge_binding acc bs)) = set (fst acc) \<union> set bs
    \<and> (distinct (fst acc) \<longrightarrow> distinct (fst (foldl merge_binding acc bs)))"
  using assms
proof (induction bs arbitrary: acc)
  case (Cons b bs)
  have "snd (merge_binding acc b) = binding_key ` set (fst (merge_binding acc b))"
    "set (fst (merge_binding acc b)) = insert b (set (fst acc))"
    "distinct (fst acc) \<longrightarrow> distinct (fst (merge_binding acc b))"
    using Cons.prems by (auto simp: merge_binding_def binding_key_inject)
  with Cons.IH [of "merge_binding acc b"] show ?case by auto
qed simp

lemma fold_merge:
  assumes "\<And>acc x. x \<in> set xs \<Longrightarrow> \<exists>bs. f acc x = Ok (foldl merge_binding acc bs) \<and> set bs = F x"
    and "snd acc = binding_key ` set (fst acc)"
  shows "\<exists>acc'. fold_res f acc xs = Ok acc' \<and> set (fst acc') = set (fst acc) \<union> (\<Union>x \<in> set xs. F x) \<and>
    (distinct (fst acc) \<longrightarrow> distinct (fst acc'))"
  using assms
proof (induction xs arbitrary: acc)
  case (Cons x xs)
  obtain bs where bs: "f acc x = Ok (foldl merge_binding acc bs)" "set bs = F x"
    using Cons.prems(1) [of x acc] by auto
  note m = foldl_merge_binding [OF Cons.prems(2), of bs]
  have "\<exists>acc'. fold_res f (foldl merge_binding acc bs) xs = Ok acc' \<and>
      set (fst acc') = set (fst (foldl merge_binding acc bs)) \<union> (\<Union>x \<in> set xs. F x) \<and>
      (distinct (fst (foldl merge_binding acc bs)) \<longrightarrow> distinct (fst acc'))"
    by (rule Cons.IH) (use Cons.prems m in auto)
  with bs m show ?case by auto
qed simp

section \<open>The contract of the partitions\<close>

text \<open>
  The calls a coordinator makes: single unfiltered hops whose names are not empty, and
  anti-joins over at most as many bindings as the provider's \<open>small\<close> allows. Records are
  determined up to the values the protocol can carry.
\<close>

text \<open>One hop of a binding, as a set.\<close>

definition hop_once :: "Dataset \<Rightarrow> ExpandHopStep \<Rightarrow> Binding \<Rightarrow> Binding set" where
  "hop_once D s b =
     (case fmlookup (b_nodes b) (eh_from_alias s) of
        None \<Rightarrow> {}
      | Some m \<Rightarrow> (\<lambda>(i, n). extend_binding s i n b) ` set (links D (eh_direction s) (eh_edge_type s) m))"

definition at_partition :: "Deployment \<Rightarrow> PartitionId \<Rightarrow> string \<Rightarrow> Binding \<Rightarrow> bool" where
  "at_partition d p a b \<longleftrightarrow> (\<exists>m. fmlookup (b_nodes b) a = Some m \<and> home d m = p)"

definition single_hop :: "ExpandHopStep \<Rightarrow> bool" where
  "single_hop s \<longleftrightarrow>
     eh_hops s = \<lparr>hr_min = 1, hr_max = 1\<rparr> \<and> eh_filters s = [] \<and>
     eh_edge_type s \<noteq> Some [] \<and> eh_edge_alias s \<noteq> Some []"

locale partition_cluster =
  fixes rpc :: "'c \<Rightarrow> PartitionRpc" and dep :: "'c \<Rightarrow> Deployment" and valid :: "'c \<Rightarrow> bool"
    and small :: "nat \<Rightarrow> bool"
  assumes small_le: "small m \<Longrightarrow> n \<le> m \<Longrightarrow> small n"
    and valid_hasher: "valid c \<Longrightarrow> ph_n_partitions (dp_hasher (dep c)) \<noteq> 0"
    and valid_order: "valid c \<Longrightarrow> valid_hash_order (dp_order (dep c))"
    and valid_data: "valid c \<Longrightarrow> wf_dataset (dp_data (dep c))"
    and start_law: "valid c \<Longrightarrow> pick_replica (dp_map (dep c)) p = Some r \<Longrightarrow>
      \<exists>bs. rpc_resolve_start (rpc c) r (ResolveStart a l k v) = Ok bs \<and>
        set bs = binding_from_node a ` {n \<in> start_matches (dp_data (dep c)) l k v. home (dep c) n = p}"
    and all_law: "valid c \<Longrightarrow> pick_replica (dp_map (dep c)) p = Some r \<Longrightarrow>
      \<exists>bs. rpc_resolve_all (rpc c) r (ResolveAll a l) = Ok bs \<and>
        set bs = binding_from_node a ` {n \<in> labelled (dp_data (dep c)) l. home (dep c) n = p}"
    and expand_law: "valid c \<Longrightarrow> pick_replica (dp_map (dep c)) p = Some r \<Longrightarrow> single_hop s \<Longrightarrow>
      \<forall>b \<in> set bs. at_partition (dep c) p (eh_from_alias s) b \<Longrightarrow>
      \<exists>fr. rpc_expand_hop (rpc c) r (ExpandHop s) bs = Ok fr \<and>
        set (fr_local fr) \<union> snd ` set (fr_remote fr) = (\<Union>b \<in> set bs. hop_once (dp_data (dep c)) s b)"
    and node_law: "valid c \<Longrightarrow> pick_replica (dp_map (dep c)) p = Some r \<Longrightarrow>
      \<exists>m. rpc_get_node_properties (rpc c) r ns = Ok m \<and>
        (\<forall>n. map_option wire_node (fmlookup m n) =
           (if n \<in> set ns \<and> home (dep c) n = p then map_option wire_node (node_rec (dp_data (dep c)) n) else None))"
    and edge_law: "valid c \<Longrightarrow> pick_replica (dp_map (dep c)) p = Some r \<Longrightarrow>
      \<exists>m. rpc_get_edge_properties (rpc c) r es = Ok m \<and>
        (\<forall>i. map_option wire_edge (fmlookup m i) =
           (if i \<in> set es \<and> map_option (home (dep c)) (edge_source (dp_data (dep c)) i) = Some p
            then map_option wire_edge (edge_rec (dp_data (dep c)) i) else None))"
    and anti_law: "valid c \<Longrightarrow> pick_replica (dp_map (dep c)) p = Some r \<Longrightarrow>
      aj_direction st = Outgoing \<Longrightarrow> aj_edge_type st \<noteq> Some [] \<Longrightarrow> small (length bs) \<Longrightarrow>
      \<forall>b \<in> set bs. at_partition (dep c) p (aj_from_alias st) b \<and>
        (\<exists>n. fmlookup (b_nodes b) (aj_to_alias st) = Some n) \<Longrightarrow>
      rpc_check_anti_join (rpc c) r st conds bs =
        Ok (filter (\<lambda>b. \<not> edge_exists (dp_data (dep c)) (dp_rfc (dep c)) (aj_edge_type st)
          (the (fmlookup (b_nodes b) (aj_from_alias st))) (the (fmlookup (b_nodes b) (aj_to_alias st))) conds) bs)"
begin

abbreviation executor :: "'c \<Rightarrow> ScatterGatherExecutor" where
  "executor c \<equiv> \<lparr>sg_rpc = rpc c, sg_hasher = dp_hasher (dep c)\<rparr>"

lemma executor_sel: "sg_rpc (executor c) = rpc c" "sg_hasher (executor c) = dp_hasher (dep c)"
  by simp_all

lemma partition_keys_reached:
  assumes "valid c"
  shows "(\<exists>p \<in> set (partition_keys (dp_order (dep c)) (dp_map (dep c))).
      pick_replica (dp_map (dep c)) p \<noteq> None \<and> home (dep c) n = p) \<longleftrightarrow> reachable (dep c) n"
proof
  assume "reachable (dep c) n"
  then obtain r where r: "pick_replica (dp_map (dep c)) (home (dep c) n) = Some r"
    by (auto simp: reachable_def)
  from pick_replica_healthy [OF this] obtain rs
    where "fmlookup (dp_map (dep c)) (home (dep c) n) = Some rs" by blast
  then have "home (dep c) n \<in> set (partition_keys (dp_order (dep c)) (dp_map (dep c)))"
    using valid_order [OF assms] by (force simp: partition_keys_def)
  with r show "\<exists>p \<in> set (partition_keys (dp_order (dep c)) (dp_map (dep c))).
      pick_replica (dp_map (dep c)) p \<noteq> None \<and> home (dep c) n = p" by auto
qed (auto simp: reachable_def)

text \<open>The broadcast of the first step.\<close>

lemma broadcast_start:
  assumes "valid c" "is_resolve st"
  shows "\<exists>bs. broadcast_resolve (dp_order (dep c)) (executor c) st (dp_map (dep c)) = Ok bs \<and>
    set bs = spec_start (dp_data (dep c)) (reachable (dep c)) st \<and> distinct bs"
proof -
  let ?M = "dp_map (dep c)" and ?keys = "partition_keys (dp_order (dep c)) (dp_map (dep c))"
  let ?call = "\<lambda>r. case st of ResolveStart _ _ _ _ \<Rightarrow> rpc_resolve_start (rpc c) r st
    | ResolveAll _ _ \<Rightarrow> rpc_resolve_all (rpc c) r st
    | _ \<Rightarrow> Panic ''broadcast_resolve is only called with the first step of a plan''"
  let ?F = "\<lambda>p. if pick_replica ?M p = None then {}
    else spec_start (dp_data (dep c)) (\<lambda>n. home (dep c) n = p) st"
  have call: "\<exists>bs. ?call r = Ok bs \<and> set bs = spec_start (dp_data (dep c)) (\<lambda>n. home (dep c) n = p) st"
    if "pick_replica ?M p = Some r" for p r
    using start_law [OF assms(1) that] all_law [OF assms(1) that] assms(2)
    by (cases st) (auto simp: is_resolve_def)
  have "\<exists>acc'. fold_res (\<lambda>acc p. case pick_replica ?M p of None \<Rightarrow> Ok acc
      | Some replica \<Rightarrow> res_map (foldl merge_binding acc) (?call replica)) ([], {}) ?keys = Ok acc' \<and>
      set (fst acc') = set (fst ([] :: Binding list, {} :: (nat \<times> string \<times> u64) list set)) \<union> (\<Union>p \<in> set ?keys. ?F p) \<and>
      (distinct (fst ([] :: Binding list, {} :: (nat \<times> string \<times> u64) list set)) \<longrightarrow> distinct (fst acc'))"
  proof (rule fold_merge)
    fix acc p assume "p \<in> set ?keys"
    show "\<exists>bs. (case pick_replica ?M p of None \<Rightarrow> Ok acc
        | Some replica \<Rightarrow> res_map (foldl merge_binding acc) (?call replica)) =
        Ok (foldl merge_binding acc bs) \<and> set bs = ?F p"
    proof (cases "pick_replica ?M p")
      case None
      then show ?thesis by (intro exI [of _ "[]"]) simp
    next
      case (Some r)
      with call [OF Some] show ?thesis by auto
    qed
  qed simp
  then obtain acc' where run: "fold_res (\<lambda>acc p. case pick_replica ?M p of None \<Rightarrow> Ok acc
      | Some replica \<Rightarrow> res_map (foldl merge_binding acc) (?call replica)) ([], {}) ?keys = Ok acc'"
    and set_acc: "set (fst acc') = (\<Union>p \<in> set ?keys. ?F p)" "distinct (fst acc')"
    by auto
  have acc': "broadcast_resolve (dp_order (dep c)) (executor c) st ?M = Ok (fst acc')"
    unfolding broadcast_resolve_def executor_sel run by simp
  have "(\<Union>p \<in> set ?keys. ?F p) = spec_start (dp_data (dep c)) (reachable (dep c)) st"
    using partition_keys_reached [OF assms(1), symmetric]
    by (cases st) (auto split: if_splits)
  with acc' set_acc show ?thesis by auto
qed

text \<open>One round: every binding at a reachable node advances by one edge.\<close>

definition round_output :: "'c \<Rightarrow> ExpandHopStep \<Rightarrow> Binding \<Rightarrow> Binding set" where
  "round_output c s b =
     (if reachable (dep c) (the (fmlookup (b_nodes b) (eh_from_alias s)))
      then hop_once (dp_data (dep c)) s b else {})"

lemma one_round_output:
  assumes "valid c" "single_hop s" "\<forall>b \<in> set bs. \<exists>m. fmlookup (b_nodes b) (eh_from_alias s) = Some m"
  shows "\<exists>cs. one_round (dp_hash (dep c)) (dp_order (dep c)) (executor c) (ExpandHop s) bs
      (dp_map (dep c)) = Ok cs \<and> set cs = (\<Union>b \<in> set bs. round_output c s b)"
proof -
  let ?M = "dp_map (dep c)" and ?a = "eh_from_alias s"
  let ?g = "hm_iter (dp_order (dep c)) (hm_group (alias_home (dep c) ?a) bs)"
  let ?F = "\<lambda>(p, group). if pick_replica ?M p = None then {}
    else (\<Union>b \<in> set group. hop_once (dp_data (dep c)) s b)"
  have groups: "set ?g = (\<lambda>k. (k, filter (\<lambda>b. alias_home (dep c) ?a b = k) bs)) ` alias_home (dep c) ?a ` set bs"
    by (rule set_hm_iter_group [OF valid_order [OF assms(1)]])
  have at: "\<forall>b \<in> set group. at_partition (dep c) p ?a b" if "(p, group) \<in> set ?g" for p group
    using that assms(3) by (fastforce simp: groups at_partition_def alias_home_def)
  have "\<exists>cs. fold_res (\<lambda>next_bindings (p, group). case pick_replica ?M p of
      None \<Rightarrow> Ok next_bindings
    | Some replica \<Rightarrow> res_map (\<lambda>result. next_bindings @ fr_local result @ map snd (fr_remote result))
        (rpc_expand_hop (rpc c) replica (ExpandHop s) group)) [] ?g = Ok ([] @ cs) \<and>
    set cs = (\<Union>x \<in> set ?g. ?F x)"
  proof (rule fold_res_appends_set)
    fix acc :: "Binding list" and x assume "x \<in> set ?g"
    then obtain p group where x: "x = (p, group)" and mem: "(p, group) \<in> set ?g"
      by (metis surj_pair)
    show "\<exists>ys. (case x of (p, group) \<Rightarrow> case pick_replica ?M p of None \<Rightarrow> Ok acc
        | Some replica \<Rightarrow> res_map (\<lambda>result. acc @ fr_local result @ map snd (fr_remote result))
            (rpc_expand_hop (rpc c) replica (ExpandHop s) group)) = Ok (acc @ ys) \<and>
        set ys = ?F x"
    proof (cases "pick_replica ?M p")
      case (Some r)
      obtain fr where "rpc_expand_hop (rpc c) r (ExpandHop s) group = Ok fr"
        "set (fr_local fr) \<union> snd ` set (fr_remote fr) = (\<Union>b \<in> set group. hop_once (dp_data (dep c)) s b)"
        using expand_law [OF assms(1) Some assms(2) at [OF mem]] by blast
      with Some show ?thesis by (auto simp: x)
    qed (simp add: x)
  qed
  then obtain cs where run: "fold_res (\<lambda>next_bindings (p, group). case pick_replica ?M p of
      None \<Rightarrow> Ok next_bindings
    | Some replica \<Rightarrow> res_map (\<lambda>result. next_bindings @ fr_local result @ map snd (fr_remote result))
        (rpc_expand_hop (rpc c) replica (ExpandHop s) group)) [] ?g = Ok cs"
    and cs: "set cs = (\<Union>x \<in> set ?g. ?F x)" by auto
  have "(\<Union>x \<in> set ?g. ?F x) = (\<Union>b \<in> set bs. round_output c s b)"
    by (auto simp: groups round_output_def reachable_def alias_home_def split: if_splits)
  then show ?thesis
    unfolding one_round_def executor_sel
    by (simp add: run cs group_bindings_Ok [OF valid_hasher [OF assms(1)] assms(3)])
qed

text \<open>The rounds of one step, from the round after \<open>k\<close> on.\<close>

lemma hop_rounds_walk:
  assumes "valid c" "eh_edge_alias s = None" "0 < k"
    and "\<forall>b \<in> B. \<exists>m. fmlookup (b_nodes b) (eh_from_alias s) = Some m"
    and "set current = (\<Union>b \<in> B. (\<lambda>n. bind_node (eh_to_alias s) n b) `
      walk_ends (dp_data (dep c)) (reachable (dep c)) s k (the (fmlookup (b_nodes b) (eh_from_alias s))))"
    and "snd acc = binding_key ` set (fst acc)"
    and names: "eh_edge_type s \<noteq> Some []"
  shows "\<exists>cs. hop_rounds (dp_hash (dep c)) (dp_order (dep c)) (executor c) s (dp_map (dep c)) current acc
      (eh_to_alias s) [Suc k..<Suc (k + len)] = Ok cs \<and>
    set cs = set (fst acc) \<union> (\<Union>d \<in> {d. k < d \<and> d \<le> k + len \<and> unat (hr_min (eh_hops s)) \<le> d}.
      \<Union>b \<in> B. (\<lambda>n. bind_node (eh_to_alias s) n b) `
        walk_ends (dp_data (dep c)) (reachable (dep c)) s d (the (fmlookup (b_nodes b) (eh_from_alias s)))) \<and>
    (distinct (fst acc) \<longrightarrow> distinct cs)"
  using assms(3,5,6)
proof (induction len arbitrary: k current acc)
  case 0
  have none: "{d. k < d \<and> d \<le> k + 0 \<and> unat (hr_min (eh_hops s)) \<le> d} = {}" by auto
  show ?case unfolding none by simp
next
  case (Suc len)
  let ?D = "dp_data (dep c)" and ?up = "reachable (dep c)" and ?to = "eh_to_alias s"
  let ?W = "\<lambda>d b. (\<lambda>n. bind_node ?to n b) ` walk_ends ?D ?up s d (the (fmlookup (b_nodes b) (eh_from_alias s)))"
  have upt: "[Suc k..<Suc (k + Suc len)] = Suc k # [Suc (Suc k)..<Suc (Suc k + len)]"
    by (simp add: upt_conv_Cons)
  show ?case
  proof (cases "current = []")
    case True
    then have "\<forall>b \<in> B. walk_ends ?D ?up s k (the (fmlookup (b_nodes b) (eh_from_alias s))) = {}"
      using Suc.prems(2) by auto
    then have "\<forall>b \<in> B. walk_ends ?D ?up s (k + j) (the (fmlookup (b_nodes b) (eh_from_alias s))) = {}" for j
      by (induction j) auto
    then have "\<forall>b \<in> B. ?W d b = {}" if "k < d" for d
      using that less_imp_add_positive [of k d] by auto
    then have none: "(\<Union>d \<in> {d. k < d \<and> d \<le> k + Suc len \<and> unat (hr_min (eh_hops s)) \<le> d}. \<Union>b \<in> B. ?W d b) = {}"
      by auto
    show ?thesis unfolding upt none using True by simp
  next
    case False
    define rs where "rs = round_step s ?to (Suc k)"
    have rs: "single_hop rs" "eh_from_alias rs = ?to" "eh_to_alias rs = ?to" "eh_edge_alias rs = None"
      "eh_direction rs = eh_direction s" "eh_edge_type rs = eh_edge_type s"
      using Suc.prems(1) by (simp_all add: rs_def round_step_def single_hop_def assms(2) names)
    have bound: "\<forall>b \<in> set current. \<exists>m. fmlookup (b_nodes b) (eh_from_alias rs) = Some m"
      using Suc.prems(2) rs(2) by auto
    obtain next_b where nb: "one_round (dp_hash (dep c)) (dp_order (dep c)) (executor c) (ExpandHop rs)
        current (dp_map (dep c)) = Ok next_b" "set next_b = (\<Union>b \<in> set current. round_output c rs b)"
      using one_round_output [OF assms(1) rs(1) bound] by blast
    have step: "round_output c rs (bind_node ?to n b) = (if ?up n then (\<lambda>x. bind_node ?to x b) `
        snd ` set (links ?D (eh_direction s) (eh_edge_type s) n) else {})" for n b
      by (auto simp: round_output_def hop_once_def rs extend_binding_def bind_node_def
          image_image intro!: rev_image_eqI)
    have set_next: "set next_b = (\<Union>b \<in> B. ?W (Suc k) b)"
      unfolding nb(2) Suc.prems(2) by (auto simp: step split: if_splits)
    define acc' where "acc' = (if unat (hr_min (eh_hops s)) \<le> Suc k then foldl merge_binding acc next_b else acc)"
    have acc': "snd acc' = binding_key ` set (fst acc')"
      "set (fst acc') = set (fst acc) \<union> (if unat (hr_min (eh_hops s)) \<le> Suc k then set next_b else {})"
      "distinct (fst acc) \<longrightarrow> distinct (fst acc')"
      using foldl_merge_binding [OF Suc.prems(3), of next_b] Suc.prems(3) by (auto simp: acc'_def)
    obtain cs where cs: "hop_rounds (dp_hash (dep c)) (dp_order (dep c)) (executor c) s (dp_map (dep c))
        next_b acc' ?to [Suc (Suc k)..<Suc (Suc k + len)] = Ok cs"
      "set cs = set (fst acc') \<union> (\<Union>d \<in> {d. Suc k < d \<and> d \<le> Suc k + len \<and>
         unat (hr_min (eh_hops s)) \<le> d}. \<Union>b \<in> B. ?W d b)"
      "distinct (fst acc') \<longrightarrow> distinct cs"
      using Suc.IH [of "Suc k" next_b acc'] set_next acc'(1) by auto
    have split: "{d. k < d \<and> d \<le> k + Suc len \<and> unat (hr_min (eh_hops s)) \<le> d} =
        (if unat (hr_min (eh_hops s)) \<le> Suc k then {Suc k} else {}) \<union>
        {d. Suc k < d \<and> d \<le> Suc k + len \<and> unat (hr_min (eh_hops s)) \<le> d}"
      by auto
    have run: "hop_rounds (dp_hash (dep c)) (dp_order (dep c)) (executor c) s (dp_map (dep c)) current acc
        ?to [Suc k..<Suc (k + Suc len)] = Ok cs"
      unfolding upt using False nb(1) cs(1) by (simp add: rs_def acc'_def)
    have "set cs = set (fst acc) \<union> (\<Union>d \<in> (if unat (hr_min (eh_hops s)) \<le> Suc k then {Suc k} else {}) \<union>
        {d. Suc k < d \<and> d \<le> Suc k + len \<and> unat (hr_min (eh_hops s)) \<le> d}. \<Union>b \<in> B. ?W d b)"
      using cs(2) acc'(2) set_next by auto
    then show ?thesis
      unfolding run split using cs(3) acc'(3) by simp
  qed
qed

end

end
