(* ===== verification/Distributed_Plans.thy ===== *)
theory Distributed_Plans
  imports Distributed_Refinement
begin

text \<open>
  The client side of the contract, continued: a whole hop, the hydration of properties, the
  filters, the anti-join, and the execution of a plan.
\<close>

section \<open>Facts about the specification\<close>

lemma set_hop_depths [simp]: "set (hop_depths hops) = {d. 1 \<le> d \<and> d \<le> unat (hr_max hops)}"
  by (auto simp: hop_depths_def)

lemma edge_rec_source: "edge_source D i = None \<longleftrightarrow> edge_rec D i = None"
  by (auto simp: edge_source_def edge_rec_def map_of_eq_None_iff edge_record_entry_def image_image
      case_prod_beta)

lemma f64_partial_cmp_eq:
  assumes "f64_eq x y"
  shows "f64_partial_cmp v x = f64_partial_cmp v y"
  using assms by (auto simp: f64_eq_def f64_partial_cmp_def split: if_splits)

lemma literal_ordering_eq: "literal_eq a b \<Longrightarrow> literal_ordering rfc v a = literal_ordering rfc v b"
  by (cases a; cases b; cases v)
    (auto simp: literal_eq_def literal_ordering_def f64_partial_cmp_eq)

lemma evaluate_filter_eq: "filter_eq f g \<Longrightarrow> evaluate_filter rfc m f = evaluate_filter rfc m g"
  using literal_ordering_eq [of "pf_value f" "pf_value g" rfc]
  by (simp add: filter_eq_def evaluate_filter_def literal_matches_def split: option.split)

lemma all_filters_eq:
  "list_all2 filter_eq fs gs \<Longrightarrow>
   list_all (evaluate_filter rfc m) fs = list_all (evaluate_filter rfc m) gs"
  by (induction rule: list_all2_induct) (auto simp: evaluate_filter_eq)

lemma edge_exists_eq:
  "list_all2 filter_eq fs gs \<Longrightarrow> edge_exists D rfc want m n fs = edge_exists D rfc want m n gs"
  by (simp add: edge_exists_def all_filters_eq)

section \<open>Groups of bindings with equal conditions\<close>

definition grouped ::
  "(PropertyFilter list \<Rightarrow> Binding \<Rightarrow> bool) \<Rightarrow> (PropertyFilter list \<times> Binding list) list \<Rightarrow> Binding set" where
  "grouped P groups = (\<Union>(conds, bs) \<in> set groups. {b \<in> set bs. P conds b})"

lemma grouped_Cons [simp]:
  "grouped P [] = {}"
  "grouped P ((conds, bs) # groups) = {b \<in> set bs. P conds b} \<union> grouped P groups"
  by (auto simp: grouped_def)

lemma grouped_push:
  assumes "\<And>cs ds b. list_all2 filter_eq cs ds \<Longrightarrow> P cs b = P ds b"
  shows "grouped P (push_group r b groups) = grouped P groups \<union> (if P r b then {b} else {})"
proof (induction groups)
  case (Cons g groups)
  obtain conds bs where g: "g = (conds, bs)" by (cases g)
  show ?case
    by (cases "list_all2 filter_eq conds r") (use Cons assms [of conds r b] in \<open>auto simp: g\<close>)
qed auto

lemma push_group_members:
  "(\<Union>g \<in> set (push_group r b groups). set (snd g)) = insert b (\<Union>g \<in> set groups. set (snd g))"
proof (induction groups)
  case (Cons g groups)
  show ?case by (cases g) (use Cons in \<open>simp add: insert_commute\<close>)
qed simp

section \<open>A whole hop\<close>

context partition_cluster
begin

abbreviation data :: "'c \<Rightarrow> Dataset" where
  "data c \<equiv> dp_data (dep c)"

abbreviation up :: "'c \<Rightarrow> NodeId \<Rightarrow> bool" where
  "up c \<equiv> reachable (dep c)"

lemma scatter_gather_hop_output:
  assumes "valid c" "\<forall>b \<in> set bs. \<exists>m. fmlookup (b_nodes b) (eh_from_alias s) = Some m"
    and names: "eh_edge_type s \<noteq> Some []" "eh_edge_alias s \<noteq> Some []"
    and one_hop: "eh_edge_alias s \<noteq> None \<Longrightarrow> eh_hops s = \<lparr>hr_min = 1, hr_max = 1\<rparr>"
  shows "\<exists>cs. scatter_gather_hop (dp_hash (dep c)) (dp_order (dep c)) (executor c) (ExpandHop s) bs
      (dp_map (dep c)) = Ok cs \<and> set cs = (\<Union>b \<in> set bs. spec_hop (data c) (up c) s b) \<and> distinct cs"
proof (cases "unat (hr_max (eh_hops s)) = 0 \<or> bs = []")
  case True
  then have "set bs = {} \<or> (eh_edge_alias s = None \<and> set (hop_depths (eh_hops s)) = {})"
    using one_hop by (cases "eh_edge_alias s") auto
  then have "(\<Union>b \<in> set bs. spec_hop (data c) (up c) s b) = {}"
    by (auto simp: spec_hop_def split: option.splits)
  moreover have "scatter_gather_hop (dp_hash (dep c)) (dp_order (dep c)) (executor c) (ExpandHop s) bs
      (dp_map (dep c)) = Ok []"
    using True by (cases "hop_depths (eh_hops s)") (auto simp: scatter_gather_hop_def hop_depths_def)
  ultimately show ?thesis by auto
next
  case False
  then obtain len where len: "unat (hr_max (eh_hops s)) = Suc len" using not0_implies_Suc by auto
  define ds where "ds = [Suc 1..<Suc (1 + len)]"
  have depths: "hop_depths (eh_hops s) = 1 # ds"
    by (simp add: hop_depths_def len ds_def upt_conv_Cons)
  define rs where "rs = round_step s (eh_from_alias s) 1"
  have rs: "single_hop rs" "eh_from_alias rs = eh_from_alias s" "eh_to_alias rs = eh_to_alias s"
    "eh_edge_alias rs = eh_edge_alias s" "eh_direction rs = eh_direction s"
    "eh_edge_type rs = eh_edge_type s"
    by (simp_all add: rs_def round_step_def single_hop_def names)
  obtain next_b where nb: "one_round (dp_hash (dep c)) (dp_order (dep c)) (executor c) (ExpandHop rs)
      bs (dp_map (dep c)) = Ok next_b" "set next_b = (\<Union>b \<in> set bs. round_output c rs b)"
    using one_round_output [OF assms(1) rs(1), of bs] assms(2) rs(2) by auto
  define acc where "acc = (if unat (hr_min (eh_hops s)) \<le> 1 then foldl merge_binding ([], {}) next_b
    else ([] :: Binding list, {}))"
  have acc: "snd acc = binding_key ` set (fst acc)"
    "set (fst acc) = (if unat (hr_min (eh_hops s)) \<le> 1 then set next_b else {})"
    "distinct (fst acc)"
    using foldl_merge_binding [of "([], {})" next_b] by (auto simp: acc_def)
  have run: "scatter_gather_hop (dp_hash (dep c)) (dp_order (dep c)) (executor c) (ExpandHop s) bs
      (dp_map (dep c)) = hop_rounds (dp_hash (dep c)) (dp_order (dep c)) (executor c) s (dp_map (dep c))
        next_b acc (eh_to_alias s) ds"
    using False nb(1) by (simp add: scatter_gather_hop_def depths rs_def acc_def)
  show ?thesis
  proof (cases "eh_edge_alias s")
    case None
    let ?W = "\<lambda>d b. (\<lambda>n. bind_node (eh_to_alias s) n b) ` walk_ends (data c) (up c) s d
      (the (fmlookup (b_nodes b) (eh_from_alias s)))"
    have out1: "round_output c rs b = ?W 1 b" if mem: "b \<in> set bs" for b
    proof -
      obtain m where "fmlookup (b_nodes b) (eh_from_alias s) = Some m" using mem assms(2) by auto
      then show ?thesis
        by (auto simp: round_output_def hop_once_def rs None extend_binding_def image_image
            case_prod_beta)
    qed
    then have set_next: "set next_b = (\<Union>b \<in> set bs. ?W 1 b)" using nb(2) by simp
    obtain cs where cs: "hop_rounds (dp_hash (dep c)) (dp_order (dep c)) (executor c) s (dp_map (dep c))
        next_b acc (eh_to_alias s) ds = Ok cs"
      "set cs = set (fst acc) \<union> (\<Union>d \<in> {d. 1 < d \<and> d \<le> 1 + len \<and> unat (hr_min (eh_hops s)) \<le> d}.
        \<Union>b \<in> set bs. ?W d b)" "distinct cs"
      using hop_rounds_walk [OF assms(1) None, of 1 "set bs" next_b acc len] assms(2) set_next acc(1,3) names(1)
      by (auto simp: ds_def)
    have split: "{d. 1 \<le> d \<and> d \<le> unat (hr_max (eh_hops s)) \<and> unat (hr_min (eh_hops s)) \<le> d} =
        (if unat (hr_min (eh_hops s)) \<le> 1 then {1} else {}) \<union>
        {d. 1 < d \<and> d \<le> 1 + len \<and> unat (hr_min (eh_hops s)) \<le> d}"
      by (auto simp: len)
    have hop: "spec_hop (data c) (up c) s b =
        (\<Union>d \<in> {d. 1 \<le> d \<and> d \<le> unat (hr_max (eh_hops s)) \<and> unat (hr_min (eh_hops s)) \<le> d}. ?W d b)"
      if mem: "b \<in> set bs" for b
    proof -
      obtain m where "fmlookup (b_nodes b) (eh_from_alias s) = Some m" using mem assms(2) by auto
      then show ?thesis by (auto simp: spec_hop_def None)
    qed
    have "set cs = (\<Union>d \<in> {d. 1 \<le> d \<and> d \<le> unat (hr_max (eh_hops s)) \<and> unat (hr_min (eh_hops s)) \<le> d}.
        \<Union>b \<in> set bs. ?W d b)"
      unfolding split cs(2) acc(2) set_next by simp
    also have "\<dots> = (\<Union>b \<in> set bs. \<Union>d \<in> {d. 1 \<le> d \<and> d \<le> unat (hr_max (eh_hops s)) \<and>
        unat (hr_min (eh_hops s)) \<le> d}. ?W d b)"
      by (rule SUP_commute)
    also have "\<dots> = (\<Union>b \<in> set bs. spec_hop (data c) (up c) s b)"
      using hop by (intro SUP_cong) auto
    finally show ?thesis using run cs(1,3) by auto
  next
    case (Some ea)
    have one: "eh_hops s = \<lparr>hr_min = 1, hr_max = 1\<rparr>" using one_hop Some by simp
    have hop: "round_output c rs b = spec_hop (data c) (up c) s b" if mem: "b \<in> set bs" for b
    proof -
      obtain m where "fmlookup (b_nodes b) (eh_from_alias s) = Some m" using mem assms(2) by auto
      then show ?thesis
        by (auto simp: round_output_def hop_once_def rs Some spec_hop_def extend_binding_def)
    qed
    have "ds = []" using len one by (simp add: ds_def)
    then show ?thesis using run acc(2,3) nb(2) hop one by auto
  qed
qed

section \<open>Hydration and filters\<close>

lemma node_properties_loop:
  assumes "valid c" "\<forall>(p, ns) \<in> set groups. \<forall>n \<in> set ns. home (dep c) n = p"
  shows "\<exists>m'. fold_res (\<lambda>properties (p, ids). case pick_replica (dp_map (dep c)) p of
      None \<Rightarrow> Ok properties
    | Some replica \<Rightarrow> res_map (hm_extend properties) (rpc_get_node_properties (rpc c) replica ids)) m groups = Ok m' \<and>
    (\<forall>n. map_option wire_node (fmlookup m' n) =
      (if (\<exists>(p, ns) \<in> set groups. n \<in> set ns \<and> pick_replica (dp_map (dep c)) p \<noteq> None) \<and> node_rec (data c) n \<noteq> None
       then map_option wire_node (node_rec (data c) n) else map_option wire_node (fmlookup m n)))"
  using assms(2)
proof (induction groups arbitrary: m)
  case (Cons g groups)
  obtain p ns where g: "g = (p, ns)" by (cases g)
  have homes: "\<forall>n \<in> set ns. home (dep c) n = p" using Cons.prems by (simp add: g)
  show ?case
  proof (cases "pick_replica (dp_map (dep c)) p")
    case None
    then show ?thesis using Cons.IH [of m] Cons.prems by (auto simp: g)
  next
    case (Some r)
    obtain f where f: "rpc_get_node_properties (rpc c) r ns = Ok f"
      "\<forall>n. map_option wire_node (fmlookup f n) =
         (if n \<in> set ns \<and> home (dep c) n = p then map_option wire_node (node_rec (data c) n) else None)"
      using node_law [OF assms(1) Some] by blast
    have ext: "map_option wire_node (fmlookup (hm_extend m f) n) =
        (if n \<in> set ns \<and> node_rec (data c) n \<noteq> None then map_option wire_node (node_rec (data c) n)
         else map_option wire_node (fmlookup m n))" for n
      using f(2) [rule_format, of n] homes by (cases "fmlookup f n"; cases "n \<in> set ns") auto
    obtain m' where "fold_res (\<lambda>properties (p, ids). case pick_replica (dp_map (dep c)) p of
        None \<Rightarrow> Ok properties
      | Some replica \<Rightarrow> res_map (hm_extend properties) (rpc_get_node_properties (rpc c) replica ids))
        (hm_extend m f) groups = Ok m'"
      "\<forall>n. map_option wire_node (fmlookup m' n) =
        (if (\<exists>(p, ns) \<in> set groups. n \<in> set ns \<and> pick_replica (dp_map (dep c)) p \<noteq> None) \<and> node_rec (data c) n \<noteq> None
         then map_option wire_node (node_rec (data c) n) else map_option wire_node (fmlookup (hm_extend m f) n))"
      using Cons.IH [of "hm_extend m f"] Cons.prems by auto
    then show ?thesis
      using Some f(1) ext by (auto simp: g)
  qed
qed simp

lemma node_properties_output:
  assumes "valid c"
  shows "\<exists>m. get_node_properties (dp_hash (dep c)) (dp_order (dep c)) (executor c) ns (dp_map (dep c)) = Ok m \<and>
    (\<forall>n. map_option wire_node (fmlookup m n) =
      (if n \<in> set ns \<and> up c n then map_option wire_node (node_rec (data c) n) else None))"
proof -
  let ?g = "hm_iter (dp_order (dep c)) (hm_group (home (dep c)) ns)"
  have groups: "set ?g = (\<lambda>k. (k, filter (\<lambda>n. home (dep c) n = k) ns)) ` home (dep c) ` set ns"
    by (rule set_hm_iter_group [OF valid_order [OF assms]])
  then have "\<forall>(p, ms) \<in> set ?g. \<forall>n \<in> set ms. home (dep c) n = p" by auto
  from node_properties_loop [OF assms this, of fmempty] obtain m where
    run: "fold_res (\<lambda>properties (p, ids). case pick_replica (dp_map (dep c)) p of
        None \<Rightarrow> Ok properties
      | Some replica \<Rightarrow> res_map (hm_extend properties) (rpc_get_node_properties (rpc c) replica ids))
        fmempty ?g = Ok m"
    and m: "\<forall>n. map_option wire_node (fmlookup m n) =
      (if (\<exists>(p, ms) \<in> set ?g. n \<in> set ms \<and> pick_replica (dp_map (dep c)) p \<noteq> None) \<and> node_rec (data c) n \<noteq> None
       then map_option wire_node (node_rec (data c) n) else None)"
    by auto
  have "(\<exists>(p, ms) \<in> set ?g. n \<in> set ms \<and> pick_replica (dp_map (dep c)) p \<noteq> None) \<longleftrightarrow> n \<in> set ns \<and> up c n" for n
    by (auto simp: groups reachable_def)
  then have "\<forall>n. map_option wire_node (fmlookup m n) =
      (if n \<in> set ns \<and> up c n then map_option wire_node (node_rec (data c) n) else None)"
    using m by auto
  moreover have "get_node_properties (dp_hash (dep c)) (dp_order (dep c)) (executor c) ns (dp_map (dep c)) = Ok m"
    unfolding get_node_properties_def executor_sel
    by (simp add: group_ids_Ok [OF valid_hasher [OF assms]] run)
  ultimately show ?thesis by blast
qed

text \<open>A filter cannot tell two records apart that agree on the wire.\<close>

lemma node_filters_wire:
  "map_option wire_node x = map_option wire_node y \<Longrightarrow>
   (case x of None \<Rightarrow> False | Some r \<Rightarrow> list_all (evaluate_filter rfc (nrec_properties r)) fs) =
   (case y of None \<Rightarrow> False | Some r \<Rightarrow> list_all (evaluate_filter rfc (nrec_properties r)) fs)"
proof (cases x; cases y)
  fix r r' assume eq: "map_option wire_node x = map_option wire_node y" "x = Some r" "y = Some r'"
  then have "wire_node r = wire_node r'" by simp
  then have "wire_fields (nrec_properties r) = wire_fields (nrec_properties r')"
    by (simp add: wire_node_def)
  then have "evaluate_filter rfc (nrec_properties r) = evaluate_filter rfc (nrec_properties r')"
    by (intro ext evaluate_filter_same_wire)
  then show ?thesis using eq by simp
qed simp_all

lemma filter_frontier_output:
  assumes "valid c"
  shows "\<exists>cs. filter_frontier (dp_hash (dep c)) (dp_order (dep c)) (dp_rfc (dep c)) (executor c)
      (ExpandHop s) bs (dp_map (dep c)) = Ok cs \<and>
    set cs = {b \<in> set bs. spec_passes (data c) (up c) (dp_rfc (dep c)) s b} \<and> (distinct bs \<longrightarrow> distinct cs)"
proof (cases "eh_filters s = [] \<or> bs = []")
  case True
  then show ?thesis by (auto simp: filter_frontier_def spec_passes_def)
next
  case False
  let ?ids = "hs_iter (dp_order (dep c))
    (fset_of_list (List.map_filter (\<lambda>b. fmlookup (b_nodes b) (eh_to_alias s)) bs))"
  have ids: "n \<in> set ?ids \<longleftrightarrow> (\<exists>b \<in> set bs. fmlookup (b_nodes b) (eh_to_alias s) = Some n)" for n
    using valid_order [OF assms] by (force simp: fset_of_list.rep_eq List.map_filter_def)
  obtain m where m: "get_node_properties (dp_hash (dep c)) (dp_order (dep c)) (executor c) ?ids (dp_map (dep c)) = Ok m"
    "\<forall>n. map_option wire_node (fmlookup m n) =
      (if n \<in> set ?ids \<and> up c n then map_option wire_node (node_rec (data c) n) else None)"
    using node_properties_output [OF assms] by blast
  let ?test = "\<lambda>binding. case fmlookup (b_nodes binding) (eh_to_alias s) of
      None \<Rightarrow> False
    | Some i \<Rightarrow> (case fmlookup m i of None \<Rightarrow> False
        | Some record \<Rightarrow> list_all (evaluate_filter (dp_rfc (dep c)) (nrec_properties record)) (eh_filters s))"
  have test: "?test b \<longleftrightarrow> spec_passes (data c) (up c) (dp_rfc (dep c)) s b" if mem: "b \<in> set bs" for b
  proof (cases "fmlookup (b_nodes b) (eh_to_alias s)")
    case None
    then show ?thesis using False by (simp add: spec_passes_def)
  next
    case (Some n)
    then have in_ids: "n \<in> set ?ids" using ids mem by blast
    show ?thesis
    proof (cases "up c n")
      case True
      then have "map_option wire_node (fmlookup m n) = map_option wire_node (node_rec (data c) n)"
        using m(2) in_ids by simp
      from node_filters_wire [OF this, of "dp_rfc (dep c)" "eh_filters s"] show ?thesis
        using Some True False by (simp add: spec_passes_def)
    next
      case down: False
      then have "fmlookup m n = None" using m(2) [rule_format, of n] by simp
      then show ?thesis using Some down False by (simp add: spec_passes_def)
    qed
  qed
  have "filter_frontier (dp_hash (dep c)) (dp_order (dep c)) (dp_rfc (dep c)) (executor c)
      (ExpandHop s) bs (dp_map (dep c)) = Ok (filter ?test bs)"
    using False m(1) by (simp add: filter_frontier_def Let_def)
  then show ?thesis using test by auto
qed

section \<open>Edge properties\<close>

abbreviation edge_home :: "'c \<Rightarrow> EdgeId \<Rightarrow> PartitionId option" where
  "edge_home c i \<equiv> map_option (home (dep c)) (edge_source (data c) i)"

lemma fmlookup_insert_found:
  "valid_hash_order ho \<Longrightarrow>
   fmlookup (foldl (\<lambda>m (i, record). fmupd i record m) props (hm_iter ho found)) k =
   (case fmlookup found k of Some v \<Rightarrow> Some v | None \<Rightarrow> fmlookup props k)"
proof -
  assume ho: "valid_hash_order ho"
  have "map_of (rev (hm_iter ho found)) k = fmlookup found k"
  proof (cases "fmlookup found k")
    case None
    then show ?thesis using ho by (auto simp: map_of_eq_None_iff)
  next
    case (Some v)
    have "distinct (map fst (rev (hm_iter ho found)))"
      using distinct_keys_hm_iter [OF ho, of found] by (simp add: rev_map [symmetric])
    then have "map_of (rev (hm_iter ho found)) k = Some v"
      by (subst map_of_eq_Some_iff) (use ho Some in auto)
    with Some show ?thesis by simp
  qed
  then show ?thesis by (simp add: fmlookup_foldl_upd)
qed

lemma edge_loop:
  assumes "valid c"
  shows "\<exists>m. get_edge_loop (dp_order (dep c)) (executor c) (dp_map (dep c)) props remaining ps = Ok m \<and>
    (\<forall>i. map_option wire_edge (fmlookup m i) =
      (if i |\<in>| remaining \<and> (\<exists>p \<in> set ps. edge_home c i = Some p \<and> pick_replica (dp_map (dep c)) p \<noteq> None)
       then map_option wire_edge (edge_rec (data c) i) else map_option wire_edge (fmlookup props i)))"
proof (induction ps arbitrary: props remaining)
  case (Cons p ps)
  show ?case
  proof (cases "remaining = {||}")
    case True
    then show ?thesis by simp
  next
    case ne: False
    show ?thesis
    proof (cases "pick_replica (dp_map (dep c)) p")
      case None
      then show ?thesis using ne Cons.IH [of props remaining] by auto
    next
      case (Some r)
      let ?batch = "hs_iter (dp_order (dep c)) remaining"
      obtain f where f: "rpc_get_edge_properties (rpc c) r ?batch = Ok f"
        "\<forall>i. map_option wire_edge (fmlookup f i) =
          (if i \<in> set ?batch \<and> edge_home c i = Some p then map_option wire_edge (edge_rec (data c) i) else None)"
        using edge_law [OF assms Some] by blast
      have fl: "map_option wire_edge (fmlookup f i) =
          (if i |\<in>| remaining \<and> edge_home c i = Some p then map_option wire_edge (edge_rec (data c) i) else None)" for i
        using f(2) valid_order [OF assms] by simp
      have dom: "i |\<in>| fmdom f \<longleftrightarrow> i |\<in>| remaining \<and> edge_home c i = Some p" for i
        using fl [of i] edge_rec_source [of "data c" i]
        by (cases "fmlookup f i") (auto simp: fmlookup_dom_iff split: if_splits)
      let ?props = "foldl (\<lambda>m (i, record). fmupd i record m) props (hm_iter (dp_order (dep c)) f)"
      have props: "map_option wire_edge (fmlookup ?props i) =
          (if i |\<in>| remaining \<and> edge_home c i = Some p then map_option wire_edge (edge_rec (data c) i)
           else map_option wire_edge (fmlookup props i))" for i
        using fl [of i] dom [of i] fmlookup_insert_found [OF valid_order [OF assms], of props f i]
        by (cases "fmlookup f i") (auto simp: fmlookup_dom_iff)
      obtain m where m: "get_edge_loop (dp_order (dep c)) (executor c) (dp_map (dep c)) ?props
          (remaining |-| fmdom f) ps = Ok m"
        "\<forall>i. map_option wire_edge (fmlookup m i) =
          (if i |\<in>| remaining |-| fmdom f \<and> (\<exists>p \<in> set ps. edge_home c i = Some p \<and> pick_replica (dp_map (dep c)) p \<noteq> None)
           then map_option wire_edge (edge_rec (data c) i) else map_option wire_edge (fmlookup ?props i))"
        using Cons.IH by blast
      have run: "get_edge_loop (dp_order (dep c)) (executor c) (dp_map (dep c)) props remaining (p # ps) = Ok m"
        using ne Some f(1) m(1) by simp
      have "map_option wire_edge (fmlookup m i) =
        (if i |\<in>| remaining \<and> (\<exists>p \<in> set (p # ps). edge_home c i = Some p \<and> pick_replica (dp_map (dep c)) p \<noteq> None)
         then map_option wire_edge (edge_rec (data c) i) else map_option wire_edge (fmlookup props i))" for i
        using m(2) [rule_format, of i] Some props [of i] dom [of i] by auto
      with run show ?thesis by blast
    qed
  qed
qed simp

lemma edge_properties_output:
  assumes "valid c"
  shows "\<exists>m. get_edge_properties (dp_order (dep c)) (executor c) es (dp_map (dep c)) = Ok m \<and>
    (\<forall>i. map_option wire_edge (fmlookup m i) =
      (if i \<in> set es \<and> (\<exists>s. edge_source (data c) i = Some s \<and> up c s)
       then map_option wire_edge (edge_rec (data c) i) else None))"
proof -
  have "(\<exists>p \<in> set (partition_keys (dp_order (dep c)) (dp_map (dep c))). edge_home c i = Some p \<and>
      pick_replica (dp_map (dep c)) p \<noteq> None) \<longleftrightarrow> (\<exists>s. edge_source (data c) i = Some s \<and> up c s)" for i
    using partition_keys_reached [OF assms] by (cases "edge_source (data c) i") auto
  moreover obtain m where "get_edge_loop (dp_order (dep c)) (executor c) (dp_map (dep c)) fmempty
      (fset_of_list es) (partition_keys (dp_order (dep c)) (dp_map (dep c))) = Ok m"
    "\<forall>i. map_option wire_edge (fmlookup m i) = (if i |\<in>| fset_of_list es \<and>
        (\<exists>p \<in> set (partition_keys (dp_order (dep c)) (dp_map (dep c))). edge_home c i = Some p \<and>
          pick_replica (dp_map (dep c)) p \<noteq> None)
       then map_option wire_edge (edge_rec (data c) i) else map_option wire_edge (fmlookup fmempty i))"
    using edge_loop [OF assms] by blast
  ultimately show ?thesis
    by (intro exI [of _ m])
      (simp only: get_edge_properties_def fset_of_list.rep_eq fmempty_lookup simp_thms option.map)
qed

end

end
