(* ===== verification/Distributed_Execution.thy ===== *)
theory Distributed_Execution
  imports Distributed_Plans
begin

text \<open>
  The anti-join, and the execution of a whole plan, under the contract of the partitions.
\<close>

context partition_cluster
begin

section \<open>Resolving outer conditions\<close>

lemma outer_kinds_output:
  assumes "scoped N E b" "list_all (\<lambda>(_, _, outer). pr_alias outer \<in> N \<union> E) outers"
  shows "\<exists>kinds. outer_kinds b outers = Ok kinds \<and>
    (\<forall>(_, _, outer) \<in> set outers. fmlookup kinds (pr_alias outer) = Some (pr_alias outer \<in> E))"
proof -
  let ?f = "\<lambda>kinds (x :: string \<times> ComparisonOp \<times> PropertyRef). case x of (_, _, outer) \<Rightarrow>
    fmupd (pr_alias outer) (pr_alias outer \<in> E) kinds"
  have keep: "fmlookup kinds a = Some (a \<in> E) \<Longrightarrow> fmlookup (foldl ?f kinds outers) a = Some (a \<in> E)" for kinds a outers
    by (induction outers arbitrary: kinds) auto
  have found: "(p, op, outer) \<in> set outers \<Longrightarrow>
      fmlookup (foldl ?f kinds outers) (pr_alias outer) = Some (pr_alias outer \<in> E)" for kinds p op outer outers
    by (induction outers arbitrary: kinds) (auto intro: keep)
  have "outer_kinds b outers = Ok (foldl ?f fmempty outers)"
    unfolding outer_kinds_def
    by (rule fold_res_foldl) (use assms in \<open>auto simp: scoped_def list_all_iff\<close>)
  then show ?thesis using found by auto
qed

lemma needed_ids_output:
  assumes "\<forall>(_, _, outer) \<in> set outers. fmlookup kinds (pr_alias outer) = Some (pr_alias outer \<in> E)"
  shows "\<exists>ns es. needed_ids kinds outers bs = Ok (ns, es) \<and>
    (\<forall>n. n |\<in>| ns \<longleftrightarrow> (\<exists>b \<in> set bs. \<exists>(_, _, outer) \<in> set outers. pr_alias outer \<notin> E \<and>
       fmlookup (b_nodes b) (pr_alias outer) = Some n)) \<and>
    (\<forall>i. i |\<in>| es \<longleftrightarrow> (\<exists>b \<in> set bs. \<exists>(_, _, outer) \<in> set outers. pr_alias outer \<in> E \<and>
       fmlookup (b_edges b) (pr_alias outer) = Some i))"
proof -
  let ?g = "\<lambda>b (acc :: NodeId fset \<times> EdgeId fset) (x :: string \<times> ComparisonOp \<times> PropertyRef).
    case x of (_, _, outer) \<Rightarrow>
      if pr_alias outer \<in> E
      then (case fmlookup (b_edges b) (pr_alias outer) of Some i \<Rightarrow> (fst acc, finsert i (snd acc)) | None \<Rightarrow> acc)
      else (case fmlookup (b_nodes b) (pr_alias outer) of Some i \<Rightarrow> (finsert i (fst acc), snd acc) | None \<Rightarrow> acc)"
  let ?h = "\<lambda>acc b. foldl (?g b) acc outers"
  have run: "needed_ids kinds outers bs = Ok (foldl ?h ({||}, {||}) bs)"
    unfolding needed_ids_def
    by (intro fold_res_foldl) (use assms in \<open>auto split: option.split\<close>)
  have inner: "(n |\<in>| fst (foldl (?g b) acc os) \<longleftrightarrow> n |\<in>| fst acc \<or> (\<exists>(_, _, outer) \<in> set os.
       pr_alias outer \<notin> E \<and> fmlookup (b_nodes b) (pr_alias outer) = Some n)) \<and>
     (i |\<in>| snd (foldl (?g b) acc os) \<longleftrightarrow> i |\<in>| snd acc \<or> (\<exists>(_, _, outer) \<in> set os.
       pr_alias outer \<in> E \<and> fmlookup (b_edges b) (pr_alias outer) = Some i))" for n i b acc os
  proof (induction os arbitrary: acc)
    case (Cons x os)
    obtain p op outer where x: "x = (p, op, outer)" by (cases x)
    show ?case
      by (cases "pr_alias outer \<in> E"; cases "fmlookup (b_edges b) (pr_alias outer)";
          cases "fmlookup (b_nodes b) (pr_alias outer)")
        (simp_all add: x Cons.IH, blast+)
  qed simp
  have "(n |\<in>| fst (foldl ?h acc bs) \<longleftrightarrow> n |\<in>| fst acc \<or> (\<exists>b \<in> set bs. \<exists>(_, _, outer) \<in> set outers.
       pr_alias outer \<notin> E \<and> fmlookup (b_nodes b) (pr_alias outer) = Some n)) \<and>
     (i |\<in>| snd (foldl ?h acc bs) \<longleftrightarrow> i |\<in>| snd acc \<or> (\<exists>b \<in> set bs. \<exists>(_, _, outer) \<in> set outers.
       pr_alias outer \<in> E \<and> fmlookup (b_edges b) (pr_alias outer) = Some i))" for n i acc
  proof (induction bs arbitrary: acc)
    case (Cons b bs)
    show ?case
      by (simp only: foldl_Cons Cons.IH inner) auto
  qed simp
  from this [of _ "({||}, {||})"] show ?thesis
    unfolding run
    by (intro exI [of _ "fst (foldl ?h ({||}, {||}) bs)"] exI [of _ "snd (foldl ?h ({||}, {||}) bs)"])
      (simp only: prod.collapse fst_conv snd_conv, simp)
qed

lemma value_literal_eq: "property_value_to_literal v = value_literal v"
  by (cases v) simp_all

lemma node_literal_same_wire:
  "map_option wire_node x = map_option wire_node y \<Longrightarrow>
   Option.bind x (\<lambda>r. Option.bind (fmlookup (nrec_properties r) k) value_literal) =
   Option.bind y (\<lambda>r. Option.bind (fmlookup (nrec_properties r) k) value_literal)"
  by (cases x; cases y) (auto simp: wire_node_def intro: literal_same_wire)

lemma edge_literal_same_wire:
  "map_option wire_edge x = map_option wire_edge y \<Longrightarrow>
   Option.bind x (\<lambda>r. Option.bind (fmlookup (erec_properties r) k) value_literal) =
   Option.bind y (\<lambda>r. Option.bind (fmlookup (erec_properties r) k) value_literal)"
  by (cases x; cases y) (auto simp: wire_edge_def intro: literal_same_wire)

lemma resolve_conditions_output:
  assumes "scoped N E b"
    and "\<forall>(_, _, outer) \<in> set outers. fmlookup kinds (pr_alias outer) = Some (pr_alias outer \<in> E)"
    and "list_all (\<lambda>(_, _, outer). pr_alias outer \<in> N \<union> E) outers"
    and "\<And>p op outer n. (p, op, outer) \<in> set outers \<Longrightarrow> pr_alias outer \<notin> E \<Longrightarrow>
      fmlookup (b_nodes b) (pr_alias outer) = Some n \<Longrightarrow>
      map_option wire_node (fmlookup nprops n) = (if up c n then map_option wire_node (node_rec (data c) n) else None)"
    and "\<And>p op outer i. (p, op, outer) \<in> set outers \<Longrightarrow> pr_alias outer \<in> E \<Longrightarrow>
      fmlookup (b_edges b) (pr_alias outer) = Some i \<Longrightarrow>
      map_option wire_edge (fmlookup eprops i) =
        (if \<exists>s. edge_source (data c) i = Some s \<and> up c s then map_option wire_edge (edge_rec (data c) i) else None)"
  shows "resolve_conditions nprops eprops kinds b acc outers = Ok (spec_conditions (data c) (up c) b acc outers)"
  using assms(2-)
proof (induction outers arbitrary: acc)
  case (Cons x outers)
  obtain p op outer where x: "x = (p, op, outer)" by (cases x)
  have kind: "fmlookup kinds (pr_alias outer) = Some (pr_alias outer \<in> E)"
    using Cons.prems(1) by (simp add: x)
  have bind: "Option.bind (outer_properties nprops eprops (pr_alias outer \<in> E) b (pr_alias outer))
      (\<lambda>m. Option.bind (fmlookup m (pr_property outer)) property_value_to_literal) =
      Option.bind (outer_value (data c) (up c) b outer) value_literal"
  proof (cases "pr_alias outer \<in> E")
    case True
    then obtain i where i: "fmlookup (b_edges b) (pr_alias outer) = Some i"
      using scoped_edge [OF assms(1)] by blast
    let ?found = "if \<exists>s. edge_source (data c) i = Some s \<and> up c s then edge_rec (data c) i else None"
    have "map_option wire_edge (fmlookup eprops i) = map_option wire_edge ?found"
      using Cons.prems(4) [of p op outer i] True i by (auto simp: x)
    from edge_literal_same_wire [OF this, of "pr_property outer"] show ?thesis
      using i True
      by (simp add: outer_properties_def outer_value_def value_literal_eq [abs_def] bind_map_option comp_def Option.bind_assoc
          split: option.split)
  next
    case False
    then obtain n where n: "fmlookup (b_nodes b) (pr_alias outer) = Some n"
      using Cons.prems(2) scoped_node [OF assms(1)] by (auto simp: x)
    have e: "fmlookup (b_edges b) (pr_alias outer) = None"
      using False assms(1) by (auto simp: scoped_def)
    let ?found = "if up c n then node_rec (data c) n else None"
    have "map_option wire_node (fmlookup nprops n) = map_option wire_node ?found"
      using Cons.prems(3) [of p op outer n] False n by (simp add: x)
    from node_literal_same_wire [OF this, of "pr_property outer"] show ?thesis
      using n e False
      by (auto simp: outer_properties_def outer_value_def value_literal_eq [abs_def] bind_map_option comp_def Option.bind_assoc)
  qed
  have IH: "resolve_conditions nprops eprops kinds b acc' outers =
      Ok (spec_conditions (data c) (up c) b acc' outers)" for acc'
  proof (rule Cons.IH)
    fix q op' o' n
    assume "(q, op', o') \<in> set outers" "pr_alias o' \<notin> E" "fmlookup (b_nodes b) (pr_alias o') = Some n"
    then show "map_option wire_node (fmlookup nprops n) =
        (if up c n then map_option wire_node (node_rec (data c) n) else None)"
      using Cons.prems(3) [of q op' o' n] by simp
  next
    fix q op' o' i
    assume "(q, op', o') \<in> set outers" "pr_alias o' \<in> E" "fmlookup (b_edges b) (pr_alias o') = Some i"
    then show "map_option wire_edge (fmlookup eprops i) =
        (if \<exists>s. edge_source (data c) i = Some s \<and> up c s then map_option wire_edge (edge_rec (data c) i) else None)"
      using Cons.prems(4) [of q op' o' i] by simp
  qed (use Cons.prems(1,2) in \<open>auto simp: x\<close>)
  show ?case
    by (simp add: x kind bind IH split: option.split)
qed simp

section \<open>The anti-join\<close>

definition no_edge :: "'c \<Rightarrow> AntiJoinStep \<Rightarrow> PropertyFilter list \<Rightarrow> Binding \<Rightarrow> bool" where
  "no_edge c st conds b \<longleftrightarrow>
     up c (the (fmlookup (b_nodes b) (aj_from_alias st))) \<and>
     \<not> edge_exists (data c) (dp_rfc (dep c)) (aj_edge_type st)
       (the (fmlookup (b_nodes b) (aj_from_alias st))) (the (fmlookup (b_nodes b) (aj_to_alias st))) conds"

lemma anti_join_group_output:
  assumes "valid c" "aj_direction st = Outgoing" "aj_edge_type st \<noteq> Some []" "small (length bs)"
    and "\<forall>b \<in> set bs. (\<exists>m. fmlookup (b_nodes b) (aj_from_alias st) = Some m) \<and>
      (\<exists>n. fmlookup (b_nodes b) (aj_to_alias st) = Some n)"
  shows "\<exists>ys. anti_join_group (dp_hash (dep c)) (dp_order (dep c)) (executor c) st (dp_map (dep c))
      acc (conds, bs) = Ok (acc @ ys) \<and> set ys = {b \<in> set bs. no_edge c st conds b} \<and> mset ys \<subseteq># mset bs"
proof -
  let ?M = "dp_map (dep c)" and ?a = "aj_from_alias st"
  let ?g = "hm_iter (dp_order (dep c)) (hm_group (alias_home (dep c) ?a) bs)"
  let ?ok = "\<lambda>b. \<not> edge_exists (data c) (dp_rfc (dep c)) (aj_edge_type st)
    (the (fmlookup (b_nodes b) ?a)) (the (fmlookup (b_nodes b) (aj_to_alias st))) conds"
  let ?F = "\<lambda>(p, group). if pick_replica ?M p = None then {} else {b \<in> set group. ?ok b}"
  have groups: "set ?g = (\<lambda>k. (k, filter (\<lambda>b. alias_home (dep c) ?a b = k) bs)) ` alias_home (dep c) ?a ` set bs"
    by (rule set_hm_iter_group [OF valid_order [OF assms(1)]])
  have at: "\<forall>b \<in> set group. at_partition (dep c) p ?a b \<and> (\<exists>n. fmlookup (b_nodes b) (aj_to_alias st) = Some n)"
    if "(p, group) \<in> set ?g" for p group
    using that assms(5) by (fastforce simp: groups at_partition_def alias_home_def)
  have small_group: "small (length group)" if "(p, group) \<in> set ?g" for p group
    using that by (intro small_le [OF assms(4)]) (auto simp: groups)
  have "\<exists>ys. fold_res (\<lambda>survivors (p, group). case pick_replica ?M p of
      None \<Rightarrow> Ok survivors
    | Some replica \<Rightarrow> res_map (\<lambda>result. survivors @ result)
        (rpc_check_anti_join (rpc c) replica st conds group)) acc ?g = Ok (acc @ ys) \<and>
    set ys = (\<Union>x \<in> set ?g. ?F x) \<and> mset ys \<subseteq># sum_list (map (mset \<circ> snd) ?g)"
  proof (rule fold_res_appends)
    fix acc :: "Binding list" and x assume "x \<in> set ?g"
    then obtain p group where x: "x = (p, group)" and mem: "(p, group) \<in> set ?g"
      by (metis surj_pair)
    show "\<exists>ys. (case x of (p, group) \<Rightarrow> case pick_replica ?M p of None \<Rightarrow> Ok acc
        | Some replica \<Rightarrow> res_map (\<lambda>result. acc @ result)
            (rpc_check_anti_join (rpc c) replica st conds group)) = Ok (acc @ ys) \<and> set ys = ?F x \<and>
        mset ys \<subseteq># (mset \<circ> snd) x"
    proof (cases "pick_replica ?M p")
      case (Some r)
      then show ?thesis
        using anti_law [OF assms(1) Some assms(2,3) small_group [OF mem] at [OF mem], of conds]
        by (auto simp: x multiset_filter_subset)
    qed (simp add: x)
  qed
  then obtain ys where run: "fold_res (\<lambda>survivors (p, group). case pick_replica ?M p of
      None \<Rightarrow> Ok survivors
    | Some replica \<Rightarrow> res_map (\<lambda>result. survivors @ result)
        (rpc_check_anti_join (rpc c) replica st conds group)) acc ?g = Ok (acc @ ys)"
    and ys: "set ys = (\<Union>x \<in> set ?g. ?F x)" "mset ys \<subseteq># mset bs"
    unfolding mset_hm_group [OF valid_order [OF assms(1)]] by auto
  have "(\<Union>x \<in> set ?g. ?F x) = {b \<in> set bs. no_edge c st conds b}"
    by (auto simp: groups no_edge_def reachable_def alias_home_def split: if_splits)
  then show ?thesis
    unfolding anti_join_group_def prod.case executor_sel
    using group_bindings_Ok [OF valid_hasher [OF assms(1)], of bs ?a] assms(5) run ys by simp
qed

lemma no_edge_eq: "list_all2 filter_eq fs gs \<Longrightarrow> no_edge c st fs b = no_edge c st gs b"
  by (simp add: no_edge_def edge_exists_eq)

lemma mset_push_group:
  "sum_list (map (mset \<circ> snd) (push_group r b groups)) = add_mset b (sum_list (map (mset \<circ> snd) groups))"
  by (induction r b groups rule: push_group.induct) auto

lemma member_le_sum_mset: "x \<in> set xs \<Longrightarrow> f x \<subseteq># (sum_list (map f xs) :: 'x multiset)"
proof (induction xs)
  case (Cons y ys)
  then show ?case
    by (cases "x = y") (auto intro: subset_mset.order_trans mset_subset_eq_add_right)
qed simp

lemma distinct_mset_le:
  assumes "mset xs \<subseteq># mset ys" "distinct ys"
  shows "distinct xs"
proof -
  obtain zs where "mset zs = mset ys - mset xs" using ex_mset by blast
  then have "mset (xs @ zs) = mset ys" using assms(1) by simp
  then have "distinct (xs @ zs)" using assms(2) mset_eq_imp_distinct_iff by blast
  then show ?thesis by simp
qed

lemma grouping_loop:
  assumes "\<And>b. b \<in> set bs \<Longrightarrow> f b = Ok (r b)"
  shows "\<exists>groups'. fold_res (\<lambda>groups b. res_map (\<lambda>r. case r of None \<Rightarrow> groups | Some resolved \<Rightarrow> push_group resolved b groups)
      (f b)) groups bs = Ok groups' \<and>
    grouped (no_edge c st) groups' = grouped (no_edge c st) groups \<union>
      {b \<in> set bs. \<exists>conds. r b = Some conds \<and> no_edge c st conds b} \<and>
    sum_list (map (mset \<circ> snd) groups') \<subseteq># sum_list (map (mset \<circ> snd) groups) + mset bs"
  using assms
proof (induction bs arbitrary: groups)
  case (Cons b bs)
  define groups1 where "groups1 = (case r b of None \<Rightarrow> groups | Some resolved \<Rightarrow> push_group resolved b groups)"
  have g1: "grouped (no_edge c st) groups1 = grouped (no_edge c st) groups \<union>
      {x. x = b \<and> (\<exists>conds. r b = Some conds \<and> no_edge c st conds b)}"
    using grouped_push [of "no_edge c st", OF no_edge_eq]
    by (auto simp: groups1_def split: option.split)
  have m1: "sum_list (map (mset \<circ> snd) groups1) \<subseteq># add_mset b (sum_list (map (mset \<circ> snd) groups))"
    by (simp add: groups1_def mset_push_group split: option.split)
  obtain groups' where "fold_res (\<lambda>groups b. res_map (\<lambda>r. case r of None \<Rightarrow> groups
      | Some resolved \<Rightarrow> push_group resolved b groups) (f b)) groups1 bs = Ok groups'"
    "grouped (no_edge c st) groups' = grouped (no_edge c st) groups1 \<union>
      {b \<in> set bs. \<exists>conds. r b = Some conds \<and> no_edge c st conds b}"
    "sum_list (map (mset \<circ> snd) groups') \<subseteq># sum_list (map (mset \<circ> snd) groups1) + mset bs"
    using Cons.IH [of groups1] Cons.prems by (auto simp: comp_def)
  note r = this
  have "fold_res (\<lambda>groups b. res_map (\<lambda>r. case r of None \<Rightarrow> groups
      | Some resolved \<Rightarrow> push_group resolved b groups) (f b)) groups (b # bs) = Ok groups'"
    using r(1) Cons.prems [of b] by (simp add: groups1_def)
  moreover have "grouped (no_edge c st) groups' = grouped (no_edge c st) groups \<union>
      {x \<in> set (b # bs). \<exists>conds. r x = Some conds \<and> no_edge c st conds x}"
    unfolding r(2) g1 by auto
  moreover have "sum_list (map (mset \<circ> snd) groups') \<subseteq># sum_list (map (mset \<circ> snd) groups) + mset (b # bs)"
    using subset_mset.order_trans [OF r(3) subset_mset.add_right_mono [OF m1]] by simp
  ultimately show ?case by blast
qed simp

lemma resolve_and_group_output:
  assumes "valid c" "\<forall>b \<in> set bs. scoped N E b" "bs \<noteq> []"
    and "list_all (\<lambda>(_, _, outer). pr_alias outer \<in> N \<union> E) (aj_outer_conditions st)"
  shows "\<exists>groups. resolve_and_group_by_condition (dp_hash (dep c)) (dp_order (dep c)) (executor c) st bs
      (dp_map (dep c)) = Ok groups \<and>
    grouped (no_edge c st) groups = {b \<in> set bs. \<exists>conds. spec_conditions (data c) (up c) b
      (aj_literal_conditions st) (aj_outer_conditions st) = Some conds \<and> no_edge c st conds b} \<and>
    sum_list (map (mset \<circ> snd) groups) \<subseteq># mset bs"
proof -
  let ?outers = "aj_outer_conditions st" and ?ho = "dp_order (dep c)"
  have sample: "index_at bs 0 = (Ok (hd bs) :: (ExecutionError, _) res)" "scoped N E (hd bs)"
    using assms(2,3) by (simp_all add: hd_conv_nth)
  obtain kinds where kinds: "outer_kinds (hd bs) ?outers = Ok kinds"
    "\<forall>(_, _, outer) \<in> set ?outers. fmlookup kinds (pr_alias outer) = Some (pr_alias outer \<in> E)"
    using outer_kinds_output [OF sample(2) assms(4)] by blast
  obtain ns es where need: "needed_ids kinds ?outers bs = Ok (ns, es)"
    and ns: "\<And>n. n |\<in>| ns \<longleftrightarrow> (\<exists>b \<in> set bs. \<exists>(_, _, outer) \<in> set ?outers. pr_alias outer \<notin> E \<and>
       fmlookup (b_nodes b) (pr_alias outer) = Some n)"
    and es: "\<And>i. i |\<in>| es \<longleftrightarrow> (\<exists>b \<in> set bs. \<exists>(_, _, outer) \<in> set ?outers. pr_alias outer \<in> E \<and>
       fmlookup (b_edges b) (pr_alias outer) = Some i)"
    using needed_ids_output [OF kinds(2), of bs] by blast
  obtain nprops where nprops: "(if ns = {||} then Ok fmempty
      else get_node_properties (dp_hash (dep c)) ?ho (executor c) (hs_iter ?ho ns) (dp_map (dep c))) = Ok nprops"
    "\<And>n. n |\<in>| ns \<Longrightarrow> map_option wire_node (fmlookup nprops n) =
      (if up c n then map_option wire_node (node_rec (data c) n) else None)"
    using node_properties_output [OF assms(1), of "hs_iter ?ho ns"] valid_order [OF assms(1)]
    by (cases "ns = {||}") auto
  obtain eprops where eprops: "(if es = {||} then Ok fmempty
      else get_edge_properties ?ho (executor c) (hs_iter ?ho es) (dp_map (dep c))) = Ok eprops"
    "\<And>i. i |\<in>| es \<Longrightarrow> map_option wire_edge (fmlookup eprops i) =
      (if \<exists>s. edge_source (data c) i = Some s \<and> up c s then map_option wire_edge (edge_rec (data c) i) else None)"
    using edge_properties_output [OF assms(1), of "hs_iter ?ho es"] valid_order [OF assms(1)]
    by (cases "es = {||}") auto
  have res: "resolve_conditions nprops eprops kinds b (aj_literal_conditions st) ?outers =
      Ok (spec_conditions (data c) (up c) b (aj_literal_conditions st) ?outers)" if mem: "b \<in> set bs" for b
  proof (rule resolve_conditions_output [OF _ kinds(2) assms(4)])
    show "scoped N E b" using mem assms(2) by blast
  next
    fix p op outer n
    assume "(p, op, outer) \<in> set ?outers" "pr_alias outer \<notin> E" "fmlookup (b_nodes b) (pr_alias outer) = Some n"
    then show "map_option wire_node (fmlookup nprops n) =
        (if up c n then map_option wire_node (node_rec (data c) n) else None)"
      using mem by (intro nprops(2)) (auto simp: ns)
  next
    fix p op outer i
    assume "(p, op, outer) \<in> set ?outers" "pr_alias outer \<in> E" "fmlookup (b_edges b) (pr_alias outer) = Some i"
    then show "map_option wire_edge (fmlookup eprops i) =
        (if \<exists>s. edge_source (data c) i = Some s \<and> up c s then map_option wire_edge (edge_rec (data c) i) else None)"
      using mem by (intro eprops(2)) (auto simp: es)
  qed
  show ?thesis
    using grouping_loop [OF res, where groups = "[]" and st = st] nprops(1) eprops(1)
    by (simp add: resolve_and_group_by_condition_def sample(1) kinds(1) need)
qed

lemma anti_join_groups_loop:
  assumes "valid c" "aj_direction st = Outgoing" "aj_edge_type st \<noteq> Some []"
    and "\<forall>g \<in> set groups. small (length (snd g))"
    and "\<forall>b \<in> (\<Union>g \<in> set groups. set (snd g)). (\<exists>m. fmlookup (b_nodes b) (aj_from_alias st) = Some m) \<and>
      (\<exists>n. fmlookup (b_nodes b) (aj_to_alias st) = Some n)"
  shows "\<exists>ys. fold_res (anti_join_group (dp_hash (dep c)) (dp_order (dep c)) (executor c) st (dp_map (dep c)))
      [] groups = Ok ys \<and> set ys = grouped (no_edge c st) groups \<and> mset ys \<subseteq># sum_list (map (mset \<circ> snd) groups)"
proof -
  have "\<exists>ys. fold_res (anti_join_group (dp_hash (dep c)) (dp_order (dep c)) (executor c) st (dp_map (dep c)))
      [] groups = Ok ([] @ ys) \<and> set ys = (\<Union>g \<in> set groups. {b \<in> set (snd g). no_edge c st (fst g) b}) \<and>
      mset ys \<subseteq># sum_list (map (mset \<circ> snd) groups)"
  proof (rule fold_res_appends)
    fix acc g assume "g \<in> set groups"
    then show "\<exists>ys. anti_join_group (dp_hash (dep c)) (dp_order (dep c)) (executor c) st (dp_map (dep c)) acc g =
        Ok (acc @ ys) \<and> set ys = {b \<in> set (snd g). no_edge c st (fst g) b} \<and> mset ys \<subseteq># (mset \<circ> snd) g"
      using anti_join_group_output [OF assms(1-3), of "snd g" acc "fst g"] assms(4,5) by auto
  qed
  then show ?thesis by (simp add: grouped_def case_prod_beta)
qed

lemma execute_anti_join_output:
  assumes "valid c" "\<forall>b \<in> set bs. scoped N E b" "aj_direction st = Outgoing"
    and "aj_edge_type st \<noteq> Some []" "small (length bs)"
    and "aj_from_alias st \<in> N" "aj_to_alias st \<in> N"
    and "list_all (\<lambda>(_, _, outer). pr_alias outer \<in> N \<union> E) (aj_outer_conditions st)"
  shows "\<exists>cs. execute_anti_join (dp_hash (dep c)) (dp_order (dep c)) (executor c) st bs (dp_map (dep c)) = Ok cs \<and>
    set cs = {b \<in> set bs. spec_survives (data c) (up c) (dp_rfc (dep c)) st b} \<and> mset cs \<subseteq># mset bs"
proof (cases "bs = []")
  case True
  then show ?thesis by (simp add: execute_anti_join_def)
next
  case False
  have bound: "(\<exists>m. fmlookup (b_nodes b) (aj_from_alias st) = Some m) \<and>
      (\<exists>n. fmlookup (b_nodes b) (aj_to_alias st) = Some n)" if "b \<in> set bs" for b
    using that assms(2,6,7) scoped_node by blast
  have surv: "spec_survives (data c) (up c) (dp_rfc (dep c)) st b \<longleftrightarrow>
      (\<exists>conds. spec_conditions (data c) (up c) b (aj_literal_conditions st) (aj_outer_conditions st) = Some conds
        \<and> no_edge c st conds b)" if "b \<in> set bs" for b
    using bound [OF that]
    by (cases "spec_conditions (data c) (up c) b (aj_literal_conditions st) (aj_outer_conditions st)")
      (auto simp: spec_survives_def no_edge_def)
  obtain groups where groups: "(if aj_outer_conditions st = [] then Ok [(aj_literal_conditions st, bs)]
      else resolve_and_group_by_condition (dp_hash (dep c)) (dp_order (dep c)) (executor c) st bs (dp_map (dep c)))
      = Ok groups"
    "grouped (no_edge c st) groups = {b \<in> set bs. \<exists>conds. spec_conditions (data c) (up c) b
      (aj_literal_conditions st) (aj_outer_conditions st) = Some conds \<and> no_edge c st conds b}"
    "sum_list (map (mset \<circ> snd) groups) \<subseteq># mset bs"
    using resolve_and_group_output [OF assms(1,2) False assms(8)]
    by (cases "aj_outer_conditions st = []") auto
  have bucket: "mset (snd g) \<subseteq># mset bs" if "g \<in> set groups" for g
    by (rule subset_mset.order_trans [OF _ groups(3)])
      (use member_le_sum_mset [OF that, of "mset \<circ> snd"] in simp)
  have "\<forall>b \<in> (\<Union>g \<in> set groups. set (snd g)). (\<exists>m. fmlookup (b_nodes b) (aj_from_alias st) = Some m) \<and>
      (\<exists>n. fmlookup (b_nodes b) (aj_to_alias st) = Some n)"
    using bound set_mset_mono [OF bucket] by fastforce
  moreover have "\<forall>g \<in> set groups. small (length (snd g))"
    using size_mset_mono [OF bucket] by (auto intro: small_le [OF assms(5)])
  ultimately obtain ys where "fold_res (anti_join_group (dp_hash (dep c)) (dp_order (dep c)) (executor c) st
      (dp_map (dep c))) [] groups = Ok ys" "set ys = grouped (no_edge c st) groups" "mset ys \<subseteq># mset bs"
    using anti_join_groups_loop [OF assms(1,3,4)] subset_mset.order_trans [OF _ groups(3)] by blast
  with groups(1,2) surv False show ?thesis
    by (auto simp: execute_anti_join_def)
qed

section \<open>Plans\<close>

lemma execute_steps_output:
  assumes "valid c" "wf_steps N E steps" "\<forall>b \<in> set bs. scoped N E b" "distinct bs"
    and "small_steps small (data c) (up c) (dp_rfc (dep c)) (set bs) steps"
  shows "\<exists>cs. fold_res (execute_step (dp_hash (dep c)) (dp_order (dep c)) (dp_rfc (dep c)) (executor c)
      (dp_map (dep c))) bs steps = Ok cs \<and>
    set cs = foldl (spec_step (data c) (up c) (dp_rfc (dep c))) (set bs) steps"
  using assms(2-)
proof (induction steps arbitrary: N E bs)
  case (Cons st steps)
  show ?case
  proof (cases st)
    case (ExpandHop s)
    let ?N = "insert (eh_to_alias s) N" and ?E = "E \<union> set_option (eh_edge_alias s)"
    have wf: "eh_from_alias s \<in> N" "eh_edge_alias s \<noteq> None \<Longrightarrow> eh_hops s = \<lparr>hr_min = 1, hr_max = 1\<rparr>"
      "wf_steps ?N ?E steps" "eh_edge_type s \<noteq> Some []" "eh_edge_alias s \<noteq> Some []"
      using Cons.prems(1) by (auto simp: ExpandHop)
    have "\<forall>b \<in> set bs. \<exists>m. fmlookup (b_nodes b) (eh_from_alias s) = Some m"
      using Cons.prems(2) wf(1) scoped_node by blast
    then obtain es where es: "scatter_gather_hop (dp_hash (dep c)) (dp_order (dep c)) (executor c) (ExpandHop s)
        bs (dp_map (dep c)) = Ok es" "set es = (\<Union>b \<in> set bs. spec_hop (data c) (up c) s b)"
      "distinct es"
      using scatter_gather_hop_output [OF assms(1) _ wf(4,5,2)] by blast
    obtain fs where fs: "filter_frontier (dp_hash (dep c)) (dp_order (dep c)) (dp_rfc (dep c)) (executor c)
        (ExpandHop s) es (dp_map (dep c)) = Ok fs"
      "set fs = {b \<in> set es. spec_passes (data c) (up c) (dp_rfc (dep c)) s b}" "distinct fs"
      using filter_frontier_output [OF assms(1)] es(3) by blast
    have set_fs: "set fs = spec_expand (data c) (up c) (dp_rfc (dep c)) s (set bs)"
      unfolding fs(2) es(2) by (auto simp: spec_expand_def)
    then have "\<forall>b \<in> set fs. scoped ?N ?E b" using Cons.prems(2) scoped_expand by blast
    from Cons.IH [OF wf(3) this fs(3)] es(1) fs(1) set_fs Cons.prems(4) show ?thesis
      by (simp add: ExpandHop execute_step_def)
  next
    case (AntiJoin a)
    have wf: "aj_from_alias a \<in> N" "aj_to_alias a \<in> N" "aj_direction a = Outgoing"
      "list_all (\<lambda>(_, _, outer). pr_alias outer \<in> N \<union> E) (aj_outer_conditions a)" "wf_steps N E steps"
      "aj_edge_type a \<noteq> Some []"
      using Cons.prems(1) by (simp_all add: AntiJoin)
    have sm: "small (length bs)"
      using Cons.prems(3,4) by (simp add: AntiJoin distinct_card)
    obtain fs where fs: "execute_anti_join (dp_hash (dep c)) (dp_order (dep c)) (executor c) a bs
        (dp_map (dep c)) = Ok fs"
      "set fs = {b \<in> set bs. spec_survives (data c) (up c) (dp_rfc (dep c)) a b}"
      "mset fs \<subseteq># mset bs"
      using execute_anti_join_output [OF assms(1) Cons.prems(2) wf(3,6) sm wf(1,2,4)] by blast
    have dfs: "distinct fs"
      by (rule distinct_mset_le [OF fs(3) Cons.prems(3)])
    have "\<forall>b \<in> set fs. scoped N E b" using Cons.prems(2) fs(2) by blast
    from Cons.IH [OF wf(5) this dfs] fs Cons.prems(4) show ?thesis
      by (simp add: AntiJoin execute_step_def)
  qed (use Cons.prems in auto)
qed simp

text \<open>The executor returns the bindings the plan means on the reachable part of the graph.\<close>

lemma execute_output:
  assumes "valid c" "wf_plan (qp_steps q)"
    and "small_plan small (data c) (up c) (dp_rfc (dep c)) (qp_steps q)"
  shows "\<exists>bs. execute (dp_hash (dep c)) (dp_order (dep c)) (dp_rfc (dep c)) (executor c) q (dp_map (dep c)) = Ok bs \<and>
    set bs = spec_plan (data c) (up c) (dp_rfc (dep c)) (qp_steps q) \<and> distinct bs"
proof -
  obtain first steps where q: "qp_steps q = first # steps"
    using assms(2) by (cases "qp_steps q") auto
  have first: "is_resolve first" using assms(2) q by (cases first) (auto simp: is_resolve_def)
  obtain bs where bs: "broadcast_resolve (dp_order (dep c)) (executor c) first (dp_map (dep c)) = Ok bs"
    "set bs = spec_start (data c) (up c) first" "distinct bs"
    using broadcast_start [OF assms(1) first] by blast
  let ?N = "case first of ResolveStart a _ _ _ \<Rightarrow> {a} | ResolveAll a _ \<Rightarrow> {a} | _ \<Rightarrow> {}"
  have "wf_steps ?N {} steps" using assms(2) q by (cases first) auto
  moreover have "\<forall>b \<in> set bs. scoped ?N {} b" using bs(2) scoped_start by blast
  moreover have "small_steps small (data c) (up c) (dp_rfc (dep c)) (set bs) steps"
    using assms(3) bs(2) q by simp
  ultimately obtain cs where "fold_res (execute_step (dp_hash (dep c)) (dp_order (dep c)) (dp_rfc (dep c))
      (executor c) (dp_map (dep c))) bs steps = Ok cs"
    "set cs = foldl (spec_step (data c) (up c) (dp_rfc (dep c))) (set bs) steps"
    using execute_steps_output [OF assms(1) _ _ bs(3)] by blast
  then show ?thesis using first bs by (simp add: execute_def q)
qed

lemma execute_complete:
  assumes "valid c" "wf_plan (qp_steps q)" "fully_available (dep c)"
    and "small_plan small (data c) (\<lambda>_. True) (dp_rfc (dep c)) (qp_steps q)"
  shows "\<exists>bs. execute (dp_hash (dep c)) (dp_order (dep c)) (dp_rfc (dep c)) (executor c) q (dp_map (dep c)) = Ok bs \<and>
    set bs = spec_plan (data c) (\<lambda>_. True) (dp_rfc (dep c)) (qp_steps q) \<and> distinct bs"
proof -
  have "up c = (\<lambda>_. True)"
    using fully_available_reachable [OF valid_hasher [OF assms(1)] assms(3)] by auto
  with execute_output [OF assms(1,2)] assms(4) show ?thesis by simp
qed

lemma execute_sound:
  assumes "valid c" "wf_plan (qp_steps q)"
    and "small_plan small (data c) (up c) (dp_rfc (dep c)) (qp_steps q)"
  shows "\<exists>bs. execute (dp_hash (dep c)) (dp_order (dep c)) (dp_rfc (dep c)) (executor c) q (dp_map (dep c)) = Ok bs \<and>
    set bs \<subseteq> spec_plan (data c) (\<lambda>_. True) (dp_rfc (dep c)) (qp_steps q)"
  using execute_output [OF assms] spec_plan_mono [of "up c" "\<lambda>_. True"] by auto

end

end
