(* ===== verification/Partition_Serving.thy ===== *)
theory Partition_Serving
  imports Distributed_Execution
begin

text \<open>
  A partition's generation, built by \<open>graph-index\<close> and driven by \<open>graph-query\<close>'s
  \<open>SimpleLocalExecutor\<close>, honours the contract \<open>partition_cluster\<close>. The in-process
  \<open>PartitionRpc\<close> below is the one of \<open>distributed_executor.rs\<close>'s own end-to-end test
  (\<open>FakeRpc\<close>); the networked one is in theory \<open>Partition_Rpc\<close> and delegates to the same
  answers.
\<close>

section \<open>Answers of a generation\<close>

definition node_properties_of :: "IndexGeneration \<Rightarrow> NodeId list \<Rightarrow> (NodeId, NodeRecord) fmap" where
  "node_properties_of g ids =
     hm_collect (List.map_filter (\<lambda>i. map_option (\<lambda>r. (i, r)) (fmlookup (ig_node_records g) i)) ids)"

definition edge_properties_of :: "IndexGeneration \<Rightarrow> EdgeId list \<Rightarrow> (EdgeId, EdgeRecord) fmap" where
  "edge_properties_of g ids =
     hm_collect (List.map_filter (\<lambda>i. map_option (\<lambda>r. (i, r)) (fmlookup (ig_edge_records g) i)) ids)"

definition local_rpc ::
  "hash_order \<Rightarrow> (string \<Rightarrow> i64 option) \<Rightarrow> (ReplicaEndpoint \<Rightarrow> IndexGeneration) \<Rightarrow> PartitionRpc" where
  "local_rpc ho rfc gens =
     \<lparr>rpc_resolve_start = (\<lambda>replica step. resolve_start (gens replica) step),
      rpc_resolve_all = (\<lambda>replica step. resolve_all ho (gens replica) step),
      rpc_expand_hop = (\<lambda>replica step frontier. expand_hop ho (gens replica) step frontier),
      rpc_get_node_properties = (\<lambda>replica ids. Ok (node_properties_of (gens replica) ids)),
      rpc_get_edge_properties = (\<lambda>replica ids. Ok (edge_properties_of (gens replica) ids)),
      rpc_check_anti_join = (\<lambda>replica step conditions frontier.
        check_anti_join rfc (gens replica) step conditions frontier)\<rparr>"

lemma map_of_rev_keyed:
  "map_of (rev (List.map_filter (\<lambda>i. map_option (\<lambda>r. (i, r)) (f i)) ids)) i =
   (if i \<in> set ids then f i else None)"
proof (induction ids)
  case (Cons j ids)
  then show ?case
    by (cases "f j") (auto simp: List.map_filter_def map_add_def split: option.split)
qed (simp add: List.map_filter_def)

lemma fmlookup_node_properties_of:
  "fmlookup (node_properties_of g ids) i = (if i \<in> set ids then fmlookup (ig_node_records g) i else None)"
  by (simp add: node_properties_of_def map_of_rev_keyed)

lemma fmlookup_edge_properties_of:
  "fmlookup (edge_properties_of g ids) i = (if i \<in> set ids then fmlookup (ig_edge_records g) i else None)"
  by (simp add: edge_properties_of_def map_of_rev_keyed)

section \<open>A generation that serves a partition of a dataset\<close>

text \<open>\<open>build\<close> assembled the generation from the dataset's rows.\<close>

definition built_for :: "(u64 \<Rightarrow> u64) \<Rightarrow> u32 \<Rightarrow> Dataset \<Rightarrow> PartitionId \<Rightarrow> IndexGeneration \<Rightarrow> bool" where
  "built_for h np D p g \<longleftrightarrow>
     (\<exists>now snaps. assemble h (ds_schema D) np now p snaps (ds_nodes D) (ds_edges D) =
        (Ok g :: (RebuildError, IndexGeneration) res))"

definition homed :: "(u64 \<Rightarrow> u64) \<Rightarrow> u32 \<Rightarrow> PartitionId \<Rightarrow> NodeId \<Rightarrow> bool" where
  "homed h np p n \<longleftrightarrow> PartitionId (home_of h np n) = p"

lemma homed_raw: "homed h np p n \<longleftrightarrow> home_of h np n = partition_raw p"
  by (cases p) (simp add: homed_def)

text \<open>The adjacency the built topology answers.\<close>

definition built_adj ::
  "(u64 \<Rightarrow> u64) \<Rightarrow> u32 \<Rightarrow> Dataset \<Rightarrow> PartitionId \<Rightarrow> Direction \<Rightarrow> NodeId \<Rightarrow> AdjacencyEntry list" where
  "built_adj h np D p direction n =
     (if n \<in> local_ids h np p (ds_nodes D)
      then map (adjacency_entry h np p (local_ids h np p (ds_nodes D)) (direction = Outgoing))
             (edges_at (direction = Outgoing) n (ds_edges D))
      else [])"

lemma built_for_facts:
  assumes "np \<noteq> 0" "wf_dataset D" "built_for h np D p g"
  shows "adjacency (ig_topology g) direction (built_adj h np D p direction)"
    and "ig_properties g = build_property_index (ds_schema D) (local_nodes h np p (ds_nodes D))"
    and "ig_node_records g = hm_collect (map node_record_entry (local_nodes h np p (ds_nodes D)))"
    and "ig_edge_records g = hm_collect (map edge_record_entry (local_edges h np p (ds_edges D)))"
proof -
  obtain now snaps where asm: "assemble h (ds_schema D) np now p snaps (ds_nodes D) (ds_edges D) =
      (Ok g :: (RebuildError, IndexGeneration) res)"
    using assms(3) by (auto simp: built_for_def)
  have b: "index_bounds (ds_nodes D) (ds_edges D)" using assms(2) by (simp add: wf_dataset_def)
  obtain g' where g': "assemble h (ds_schema D) np now p snaps (ds_nodes D) (ds_edges D) =
      (Ok g' :: (RebuildError, IndexGeneration) res)"
    "\<And>n. out_neighbors (ig_topology g') n = (Ok (if n \<in> local_ids h np p (ds_nodes D)
          then map (adjacency_entry h np p (local_ids h np p (ds_nodes D)) True) (edges_at True n (ds_edges D))
          else []) :: (ExecutionError, _) res)"
    "\<And>n. in_neighbors (ig_topology g') n = (Ok (if n \<in> local_ids h np p (ds_nodes D)
          then map (adjacency_entry h np p (local_ids h np p (ds_nodes D)) False) (edges_at False n (ds_edges D))
          else []) :: (ExecutionError, _) res)"
    "ig_properties g' = build_property_index (ds_schema D) (local_nodes h np p (ds_nodes D))"
    "ig_node_records g' = hm_collect (map node_record_entry (local_nodes h np p (ds_nodes D)))"
    "ig_edge_records g' = hm_collect (map edge_record_entry (local_edges h np p (ds_edges D)))"
    by (rule assemble_Ok [OF assms(1) b, where schema = "ds_schema D" and now = now and part = p
        and snaps = snaps and h = h and ?'f = RebuildError and ?'e = ExecutionError])
      (rule that, assumption+)
  have "g' = g" using asm g'(1) by simp
  with g' show "adjacency (ig_topology g) direction (built_adj h np D p direction)"
    "ig_properties g = build_property_index (ds_schema D) (local_nodes h np p (ds_nodes D))"
    "ig_node_records g = hm_collect (map node_record_entry (local_nodes h np p (ds_nodes D)))"
    "ig_edge_records g = hm_collect (map edge_record_entry (local_edges h np p (ds_edges D)))"
    by (auto simp: adjacency_def directed_neighbors_def built_adj_def split: Direction.split)
qed

section \<open>The edges at a node\<close>

lemma wf_dataset_endpoints:
  "wf_dataset D \<Longrightarrow> (ty, row) \<in> set (ds_edges D) \<Longrightarrow> er_src row \<in> ds_ids D \<and> er_dst row \<in> ds_ids D"
  by (auto simp: wf_dataset_def list_all_iff)

lemma local_ids_ds: "n \<in> local_ids h np p (ds_nodes D) \<longleftrightarrow> n \<in> ds_ids D \<and> homed h np p n"
  by (simp add: local_ids_iff ds_ids_def homed_raw)

text \<open>
  In a well-formed dataset every entry leads somewhere: to a node of this partition, or to
  the partition of the far end.
\<close>

lemma adjacency_entry_target:
  assumes "wf_dataset D" "(ty, row) \<in> set (ds_edges D)"
  shows "entry_target (adjacency_entry h np p (local_ids h np p (ds_nodes D)) outgoing (ty, row)) =
    Some (edge_far outgoing row)"
  using wf_dataset_endpoints [OF assms]
  by (auto simp: adjacency_entry_def entry_target_def Let_def local_ids_ds homed_def edge_far_def)

lemma type_matches_entry [simp]:
  "type_matches want (adjacency_entry h np p L outgoing (ty, row)) = edge_type_is want ty"
  "ae_edge_id (adjacency_entry h np p L outgoing (ty, row)) = er_id row"
  by (simp_all add: type_matches_def edge_type_is_def adjacency_entry_def Let_def split: option.split)

lemma built_adj_at:
  assumes "wf_dataset D" "homed h np p m"
  shows "set (built_adj h np D p direction m) =
    adjacency_entry h np p (local_ids h np p (ds_nodes D)) (direction = Outgoing) `
      {e \<in> set (ds_edges D). edge_owner (direction = Outgoing) (snd e) = m}"
proof (cases "m \<in> ds_ids D")
  case True
  then show ?thesis using assms(2) by (simp add: built_adj_def local_ids_ds edges_at_def)
next
  case False
  then have "{e \<in> set (ds_edges D). edge_owner (direction = Outgoing) (snd e) = m} = {}"
    using wf_dataset_endpoints [OF assms(1)] by (auto simp: edge_owner_def)
  with False show ?thesis by (simp add: built_adj_def local_ids_ds)
qed

lemma set_links:
  "set (links D direction want m) = (\<lambda>(ty, row). (er_id row, edge_far (direction = Outgoing) row)) `
     {(ty, row). (ty, row) \<in> set (ds_edges D) \<and> edge_owner (direction = Outgoing) row = m \<and> edge_type_is want ty}"
  by (auto simp: links_def)

lemma UN_image_cong: "(\<And>x. x \<in> A \<Longrightarrow> F (f x) = G x) \<Longrightarrow> (\<Union>y \<in> f ` A. F y) = (\<Union>x \<in> A. G x)"
  by auto

text \<open>One hop over the built index is one hop over the graph.\<close>

lemma entry_outputs_single:
  assumes "wf_dataset D" "(ty, row) \<in> set (ds_edges D)"
  shows "entry_output s b (adjacency_entry h np p (local_ids h np p (ds_nodes D)) outgoing (ty, row)) \<union>
      (if eh_edge_alias s = None then (\<lambda>n. bind_node (eh_to_alias s) n b) `
         local_targets s (adjacency_entry h np p (local_ids h np p (ds_nodes D)) outgoing (ty, row)) else {}) =
    (if edge_type_is (eh_edge_type s) ty then {extend_binding s (er_id row) (edge_far outgoing row) b} else {})"
proof -
  let ?e = "adjacency_entry h np p (local_ids h np p (ds_nodes D)) outgoing (ty, row)"
  have t: "entry_target ?e = Some (edge_far outgoing row)" by (rule adjacency_entry_target [OF assms])
  have l: "ae_dst_local ?e = None \<or> ae_dst_local ?e = Some (edge_far outgoing row)"
    by (simp add: adjacency_entry_def Let_def)
  show ?thesis
    using t l by (cases "eh_edge_alias s")
      (auto simp: entry_output_def local_targets_def extend_binding_def)
qed

lemma step_output_single:
  assumes "wf_dataset D" "single_hop s" "fmlookup (b_nodes b) (eh_from_alias s) = Some m" "homed h np p m"
  shows "step_output s (built_adj h np D p (eh_direction s)) b = hop_once D s b"
proof -
  let ?adj = "built_adj h np D p (eh_direction s)" and ?out = "eh_direction s = Outgoing"
  have depths: "hop_depths (eh_hops s) = [1]" "unat (hr_min (eh_hops s)) = 1"
    using assms(2) by (simp_all add: single_hop_def hop_depths_def)
  have "step_output s ?adj b = (\<Union>e \<in> set (?adj m). entry_output s b e \<union>
      (if eh_edge_alias s = None then (\<lambda>n. bind_node (eh_to_alias s) n b) ` local_targets s e else {}))"
    by (auto simp: step_output_def assms(3) depths level_output_def accepted_output_def hop_set_def)
  also have "\<dots> = (\<Union>(ty, row) \<in> {e \<in> set (ds_edges D). edge_owner ?out (snd e) = m}.
      if edge_type_is (eh_edge_type s) ty then {extend_binding s (er_id row) (edge_far ?out row) b} else {})"
    unfolding built_adj_at [OF assms(1,4)]
  proof (rule UN_image_cong)
    fix e assume "e \<in> {e \<in> set (ds_edges D). edge_owner ?out (snd e) = m}"
    then obtain ty row where e: "e = (ty, row)" "(ty, row) \<in> set (ds_edges D)" by (cases e) auto
    show "entry_output s b (adjacency_entry h np p (local_ids h np p (ds_nodes D)) ?out e) \<union>
        (if eh_edge_alias s = None then (\<lambda>n. bind_node (eh_to_alias s) n b) `
          local_targets s (adjacency_entry h np p (local_ids h np p (ds_nodes D)) ?out e) else {}) =
        (case e of (ty, row) \<Rightarrow>
          if edge_type_is (eh_edge_type s) ty then {extend_binding s (er_id row) (edge_far ?out row) b} else {})"
      unfolding e(1) prod.case by (rule entry_outputs_single [OF assms(1) e(2)])
  qed
  also have "\<dots> = hop_once D s b"
    by (force simp: hop_once_def assms(3) set_links image_image split: if_splits)
  finally show ?thesis .
qed

section \<open>The answers of a built generation\<close>

lemma resolve_start_answer:
  assumes "np \<noteq> 0" "wf_dataset D" "built_for h np D p g"
  shows "\<exists>bs. resolve_start g (ResolveStart a l k v) = Ok bs \<and>
    set bs = binding_from_node a ` {n \<in> start_matches D l k v. homed h np p n}"
proof -
  have "n \<in> set (lookup_eq (ig_properties g) l k v) \<longleftrightarrow> n \<in> start_matches D l k v \<and> homed h np p n" for n
    unfolding built_for_facts(2) [OF assms] lookup_eq_build
    by (force simp: start_matches_def local_nodes_def homed_raw)
  then show ?thesis by (auto simp: resolve_start_def)
qed

lemma node_records_answer:
  assumes "np \<noteq> 0" "wf_dataset D" "built_for h np D p g"
  shows "fmlookup (ig_node_records g) n = (if homed h np p n then node_rec D n else None)"
proof -
  have d: "distinct (map (nr_id \<circ> snd) (ds_nodes D))" using assms(2) by (simp add: wf_dataset_def)
  have "distinct (map fst (map node_record_entry (ds_nodes D)))"
    using d by (simp add: node_record_entry_def o_def)
  then have rec: "node_rec D n = Some r \<longleftrightarrow> (\<exists>lbl row. (lbl, row) \<in> set (ds_nodes D) \<and> nr_id row = n \<and>
      r = \<lparr>nrec_label = lbl, nrec_properties = nr_properties row\<rparr>)" for r
    unfolding node_rec_def by (subst map_of_eq_Some_iff, simp, force simp: node_record_entry_def)
  have "fmlookup (ig_node_records g) n = Some r \<longleftrightarrow> homed h np p n \<and> node_rec D n = Some r" for r
    unfolding built_for_facts(3) [OF assms] node_record_lookup [OF d] rec by (auto simp: homed_raw)
  then show ?thesis by (metis not_Some_eq)
qed

lemma edge_records_answer:
  assumes "np \<noteq> 0" "wf_dataset D" "built_for h np D p g"
  shows "fmlookup (ig_edge_records g) i =
    (if \<exists>s. edge_source D i = Some s \<and> homed h np p s then edge_rec D i else None)"
proof -
  have d: "distinct (map (er_id \<circ> snd) (ds_edges D))" using assms(2) by (simp add: wf_dataset_def)
  have "distinct (map fst (map edge_record_entry (ds_edges D)))"
    "distinct (map fst (map (\<lambda>(_, row). (er_id row, er_src row)) (ds_edges D)))"
    using d by (simp_all add: edge_record_entry_def o_def case_prod_beta)
  then have rec: "edge_rec D i = Some r \<longleftrightarrow> (\<exists>ty row. (ty, row) \<in> set (ds_edges D) \<and> er_id row = i \<and>
      r = \<lparr>erec_edge_type = ty, erec_properties = er_properties row\<rparr>)"
    and src: "edge_source D i = Some s \<longleftrightarrow> (\<exists>ty row. (ty, row) \<in> set (ds_edges D) \<and> er_id row = i \<and> er_src row = s)"
    for r s
    unfolding edge_rec_def edge_source_def
    by (subst map_of_eq_Some_iff, simp, force simp: edge_record_entry_def)+
  have "fmlookup (ig_edge_records g) i = Some r \<longleftrightarrow>
      (\<exists>s. edge_source D i = Some s \<and> homed h np p s) \<and> edge_rec D i = Some r" for r
  proof -
    have same: "row = row'" if "(ty, row) \<in> set (ds_edges D)" "(ty', row') \<in> set (ds_edges D)"
      "er_id row = er_id row'" for ty ty' row row'
      using d that by (auto simp: distinct_map dest: inj_onD [where x = "(ty, row)" and y = "(ty', row')"])
    show ?thesis
      unfolding built_for_facts(4) [OF assms] edge_record_lookup [OF d] rec src homed_raw
      using same by blast
  qed
  then show ?thesis by (metis not_Some_eq)
qed

lemma resolve_all_answer:
  assumes "np \<noteq> 0" "wf_dataset D" "built_for h np D p g" "valid_hash_order ho"
  shows "\<exists>bs. resolve_all ho g (ResolveAll a l) = Ok bs \<and>
    set bs = binding_from_node a ` {n \<in> labelled D l. homed h np p n}"
proof -
  have d: "distinct (map fst (map node_record_entry (ds_nodes D)))"
    using assms(2) by (simp add: wf_dataset_def node_record_entry_def o_def)
  have "(\<exists>r. fmlookup (ig_node_records g) n = Some r \<and> label_name (nrec_label r) = l) \<longleftrightarrow>
      n \<in> labelled D l \<and> homed h np p n" for n
    unfolding node_records_answer [OF assms(1-3)] node_rec_def
    by (force simp: map_of_eq_Some_iff [OF d] node_record_entry_def labelled_def)
  then have "{n \<in> labelled D l. homed h np p n} =
      {n. \<exists>r. fmlookup (ig_node_records g) n = Some r \<and> label_name (nrec_label r) = l}" by auto
  then show ?thesis
    using assms(4) by (force simp: resolve_all_def)
qed

lemma expand_hop_answer:
  assumes "np \<noteq> 0" "wf_dataset D" "built_for h np D p g" "valid_hash_order ho" "single_hop s"
    and "\<forall>b \<in> set bs. \<exists>m. fmlookup (b_nodes b) (eh_from_alias s) = Some m \<and> homed h np p m"
  shows "\<exists>fr. expand_hop ho g (ExpandHop s) bs = Ok fr \<and>
    set (fr_local fr) \<union> snd ` set (fr_remote fr) = (\<Union>b \<in> set bs. hop_once D s b)"
proof -
  let ?adj = "built_adj h np D p (eh_direction s)"
  have bound: "\<forall>b \<in> set bs. fmlookup (b_nodes b) (eh_from_alias s) \<noteq> None" using assms(6) by auto
  have "seen_below 0 empty_hop_state" by (simp add: seen_below_def empty_hop_state_def)
  then obtain st where st: "fold_res (expand_binding ho (ig_topology g) s) empty_hop_state (enumerate 0 bs) = Ok st"
    "emitted st = emitted empty_hop_state \<union> (\<Union>b \<in> set bs. step_output s ?adj b)"
    using expand_bindings [OF built_for_facts(1) [OF assms(1-3)] assms(4) bound] by blast
  have "(\<Union>b \<in> set bs. step_output s ?adj b) = (\<Union>b \<in> set bs. hop_once D s b)"
    using step_output_single [OF assms(2,5)] assms(6) by (intro SUP_cong) auto
  moreover have "eh_filters s = []" using assms(5) by (simp add: single_hop_def)
  ultimately show ?thesis
    using st by (simp add: expand_hop_def apply_filters_def emitted_def empty_hop_state_def)
qed

lemma anti_join_answer:
  assumes "np \<noteq> 0" "wf_dataset D" "built_for h np D p g" "aj_direction st = Outgoing"
    and "\<forall>b \<in> set bs. (\<exists>m. fmlookup (b_nodes b) (aj_from_alias st) = Some m \<and> homed h np p m) \<and>
      (\<exists>n. fmlookup (b_nodes b) (aj_to_alias st) = Some n)"
  shows "check_anti_join rfc g st conds bs = Ok (filter (\<lambda>b. \<not> edge_exists D rfc (aj_edge_type st)
      (the (fmlookup (b_nodes b) (aj_from_alias st))) (the (fmlookup (b_nodes b) (aj_to_alias st))) conds) bs)"
proof -
  have adj: "directed_neighbors (ig_topology g) Outgoing m = Ok (built_adj h np D p Outgoing m)" for m
    using built_for_facts(1) [OF assms(1-3), of Outgoing] by (simp add: adjacency_def)
  have rec: "fmlookup (ig_edge_records g) (er_id row) =
      Some \<lparr>erec_edge_type = ty, erec_properties = er_properties row\<rparr>"
    if "(ty, row) \<in> set (ds_edges D)" "homed h np p (er_src row)" for ty row
    using that assms(2) unfolding built_for_facts(4) [OF assms(1-3)]
    by (subst edge_record_lookup) (auto simp: wf_dataset_def homed_raw)
  have cand: "list_ex (anti_join_candidate rfc g st conds n) (built_adj h np D p Outgoing m) \<longleftrightarrow>
      edge_exists D rfc (aj_edge_type st) m n conds" if m: "homed h np p m" for m n
  proof -
    have one: "anti_join_candidate rfc g st conds n
        (adjacency_entry h np p (local_ids h np p (ds_nodes D)) True (ty, row)) \<longleftrightarrow>
        er_dst row = n \<and> edge_type_is (aj_edge_type st) ty \<and>
        list_all (evaluate_filter rfc (er_properties row)) conds"
      if e: "(ty, row) \<in> set (ds_edges D)" "er_src row = m" for ty row
    proof -
      let ?e = "adjacency_entry h np p (local_ids h np p (ds_nodes D)) True (ty, row)"
      have "entry_target ?e = Some (er_dst row)"
        using adjacency_entry_target [OF assms(2) e(1), of h np p True] by (simp add: edge_far_def)
      then have "(ae_dst_local ?e = Some n \<or> map_option rr_node (ae_dst_remote ?e) = Some n) \<longleftrightarrow> er_dst row = n"
        by (auto simp: entry_target_def adjacency_entry_def Let_def split: if_splits)
      then show ?thesis
        using rec [OF e(1)] m e(2) by (auto simp: anti_join_candidate_def)
    qed
    have "list_ex (anti_join_candidate rfc g st conds n) (built_adj h np D p Outgoing m) \<longleftrightarrow>
        (\<exists>e \<in> {e \<in> set (ds_edges D). edge_owner True (snd e) = m}.
          anti_join_candidate rfc g st conds n (adjacency_entry h np p (local_ids h np p (ds_nodes D)) True e))"
      by (simp add: list_ex_iff built_adj_at [OF assms(2) m])
    then show ?thesis
      using one by (fastforce simp: edge_exists_def list_ex_iff edge_owner_def)
  qed
  show ?thesis
    unfolding check_anti_join_def
    by (rule retain_res_Ok_all) (use assms(5) in \<open>auto simp: assms(4) adj cand\<close>)
qed

section \<open>The in-process cluster\<close>

record InProcess =
  ip_dep :: Deployment
  ip_gens :: "ReplicaEndpoint \<Rightarrow> IndexGeneration"

text \<open>Every replica routed to for a partition holds the generation built for it.\<close>

definition cluster_ok :: "Deployment \<Rightarrow> (ReplicaEndpoint \<Rightarrow> IndexGeneration) \<Rightarrow> bool" where
  "cluster_ok d gens \<longleftrightarrow>
     ph_n_partitions (dp_hasher d) \<noteq> 0 \<and> valid_hash_order (dp_order d) \<and> wf_dataset (dp_data d) \<and>
     (\<forall>p r. pick_replica (dp_map d) p = Some r \<longrightarrow>
        built_for (dp_hash d) (ph_n_partitions (dp_hasher d)) (dp_data d) p (gens r))"

definition in_process_ok :: "InProcess \<Rightarrow> bool" where
  "in_process_ok c \<longleftrightarrow> cluster_ok (ip_dep c) (ip_gens c)"

definition in_process_rpc :: "InProcess \<Rightarrow> PartitionRpc" where
  "in_process_rpc c = local_rpc (dp_order (ip_dep c)) (dp_rfc (ip_dep c)) (ip_gens c)"

lemma homed_home: "homed (dp_hash d) (ph_n_partitions (dp_hasher d)) p n \<longleftrightarrow> home d n = p"
  by (simp add: homed_def home_def)

lemmas cluster_answers =
  resolve_start_answer resolve_all_answer expand_hop_answer anti_join_answer
  node_records_answer edge_records_answer

interpretation in_process: partition_cluster in_process_rpc ip_dep in_process_ok "\<lambda>_. True"
proof
  fix c :: InProcess and p r a l k v
  assume ok: "in_process_ok c" and r: "pick_replica (dp_map (ip_dep c)) p = Some r"
  have b: "ph_n_partitions (dp_hasher (ip_dep c)) \<noteq> 0" "wf_dataset (dp_data (ip_dep c))"
    "built_for (dp_hash (ip_dep c)) (ph_n_partitions (dp_hasher (ip_dep c))) (dp_data (ip_dep c)) p (ip_gens c r)"
    "valid_hash_order (dp_order (ip_dep c))"
    using ok r by (auto simp: in_process_ok_def cluster_ok_def)
  show "\<exists>bs. rpc_resolve_start (in_process_rpc c) r (ResolveStart a l k v) = Ok bs \<and>
      set bs = binding_from_node a ` {n \<in> start_matches (dp_data (ip_dep c)) l k v. home (ip_dep c) n = p}"
    using resolve_start_answer [OF b(1-3)] by (simp add: in_process_rpc_def local_rpc_def homed_home)
  show "\<exists>bs. rpc_resolve_all (in_process_rpc c) r (ResolveAll a l) = Ok bs \<and>
      set bs = binding_from_node a ` {n \<in> labelled (dp_data (ip_dep c)) l. home (ip_dep c) n = p}"
    using resolve_all_answer [OF b] by (simp add: in_process_rpc_def local_rpc_def homed_home)
  show "\<exists>m. rpc_get_node_properties (in_process_rpc c) r ns = Ok m \<and>
      (\<forall>n. map_option wire_node (fmlookup m n) =
        (if n \<in> set ns \<and> home (ip_dep c) n = p then map_option wire_node (node_rec (dp_data (ip_dep c)) n) else None))"
    for ns
    by (simp add: in_process_rpc_def local_rpc_def fmlookup_node_properties_of
        node_records_answer [OF b(1-3)] homed_home)
  show "\<exists>m. rpc_get_edge_properties (in_process_rpc c) r es = Ok m \<and>
      (\<forall>i. map_option wire_edge (fmlookup m i) = (if i \<in> set es \<and>
           map_option (home (ip_dep c)) (edge_source (dp_data (ip_dep c)) i) = Some p
         then map_option wire_edge (edge_rec (dp_data (ip_dep c)) i) else None))" for es
    by (auto simp: in_process_rpc_def local_rpc_def fmlookup_edge_properties_of
        edge_records_answer [OF b(1-3)] homed_home)
  show "\<exists>fr. rpc_expand_hop (in_process_rpc c) r (ExpandHop s) bs = Ok fr \<and>
      set (fr_local fr) \<union> snd ` set (fr_remote fr) = (\<Union>b \<in> set bs. hop_once (dp_data (ip_dep c)) s b)"
    if "single_hop s" "\<forall>b \<in> set bs. at_partition (ip_dep c) p (eh_from_alias s) b" for s bs
    using expand_hop_answer [OF b that(1)] that(2)
    by (simp add: in_process_rpc_def local_rpc_def at_partition_def homed_home)
  show "rpc_check_anti_join (in_process_rpc c) r st conds bs =
      Ok (filter (\<lambda>b. \<not> edge_exists (dp_data (ip_dep c)) (dp_rfc (ip_dep c)) (aj_edge_type st)
        (the (fmlookup (b_nodes b) (aj_from_alias st))) (the (fmlookup (b_nodes b) (aj_to_alias st))) conds) bs)"
    if "aj_direction st = Outgoing" "\<forall>b \<in> set bs. at_partition (ip_dep c) p (aj_from_alias st) b \<and>
      (\<exists>n. fmlookup (b_nodes b) (aj_to_alias st) = Some n)" for st conds bs
    using anti_join_answer [OF b(1-3) that(1), of bs] that(2)
    by (simp add: in_process_rpc_def local_rpc_def at_partition_def homed_home)
qed (auto simp: in_process_ok_def cluster_ok_def)

end
