(* ===== verification/Built_Index.thy ===== *)
theory Built_Index
  imports Partition_Serving
begin

text \<open>
  What a built generation answers, read on the dataset it was built from: its adjacency, its
  property index, which partition holds a node; and what \<open>build\<close> scanned: rows that
  conform to the schema.
\<close>

section \<open>Adjacency\<close>

text \<open>The entry of an edge, in a dataset whose edges join nodes of it.\<close>

definition routed_entry ::
  "(u64 \<Rightarrow> u64) \<Rightarrow> u32 \<Rightarrow> PartitionId \<Rightarrow> EdgeType \<Rightarrow> EdgeId \<Rightarrow> NodeId \<Rightarrow> AdjacencyEntry" where
  "routed_entry h np p ty i far =
     \<lparr>ae_edge_id = i, ae_edge_type = ty,
      ae_dst_local = (if homed h np p far then Some far else None),
      ae_dst_remote = (if homed h np p far then None
        else Some \<lparr>rr_partition = PartitionId (home_of h np far), rr_node = far\<rparr>)\<rparr>"

lemma adjacency_entry_routed:
  assumes "wf_dataset D" "e \<in> set (ds_edges D)"
  shows "adjacency_entry h np p (local_ids h np p (ds_nodes D)) outgoing e =
    routed_entry h np p (fst e) (er_id (snd e)) (edge_far outgoing (snd e))"
proof -
  obtain ty row where e: "e = (ty, row)" by (cases e)
  have "edge_far outgoing row \<in> ds_ids D"
    using wf_dataset_endpoints [OF assms(1)] assms(2) e by (auto simp: edge_far_def)
  then show ?thesis
    by (auto simp: adjacency_entry_def routed_entry_def Let_def local_ids_ds homed_def e)
qed

lemma built_adj_routed:
  assumes "wf_dataset D"
  shows "built_adj h np D p direction n =
    (if n \<in> ds_ids D \<and> homed h np p n
     then map (\<lambda>(ty, row). routed_entry h np p ty (er_id row) (edge_far (direction = Outgoing) row))
            (filter (\<lambda>(_, row). edge_owner (direction = Outgoing) row = n) (ds_edges D))
     else [])"
proof -
  have sel: "edges_at outgoing n es = filter (\<lambda>(_, row). edge_owner outgoing row = n) es" for outgoing es
    by (auto simp: edges_at_def intro!: filter_cong)
  show ?thesis
    by (auto simp: built_adj_def local_ids_ds sel adjacency_entry_routed [OF assms] case_prod_beta)
qed

lemma contains_built:
  assumes "np \<noteq> 0" "wf_dataset D" "built_for h np D p g"
  shows "contains_node (ig_topology g) n \<longleftrightarrow> n \<in> ds_ids D \<and> homed h np p n"
proof -
  obtain now snaps where asm: "assemble h (ds_schema D) np now p snaps (ds_nodes D) (ds_edges D) =
      (Ok g :: (RebuildError, IndexGeneration) res)"
    using assms(3) by (auto simp: built_for_def)
  have b: "index_bounds (ds_nodes D) (ds_edges D)" using assms(2) by (simp add: wf_dataset_def)
  obtain g' where g': "assemble h (ds_schema D) np now p snaps (ds_nodes D) (ds_edges D) =
      (Ok g' :: (RebuildError, IndexGeneration) res)"
    "ti_id_to_local (ig_topology g') = local_index (map (nr_id \<circ> snd) (local_nodes h np p (ds_nodes D)))"
    by (rule assemble_Ok [OF assms(1) b, where schema = "ds_schema D" and now = now and part = p
        and snaps = snaps and h = h and ?'f = RebuildError and ?'e = ExecutionError])
      (rule that, assumption+)
  have "g' = g" using asm g'(1) by simp
  with contains_node_assemble [OF g'(2)] show ?thesis by (simp add: local_ids_ds)
qed

lemma home_unique:
  assumes "np \<noteq> 0"
  shows "\<exists>!p. p < np \<and> homed h np (PartitionId p) n"
  using home_of_less [OF assms] by (auto simp: homed_def)

section \<open>The property index\<close>

lemma lookup_eq_built:
  assumes "np \<noteq> 0" "wf_dataset D" "built_for h np D p g"
  shows "n \<in> set (lookup_eq (ig_properties g) l k v) \<longleftrightarrow>
    n \<in> start_matches D l k v \<and> homed h np p n"
  by (auto simp: built_for_facts(2) [OF assms] lookup_eq_build start_matches_def local_nodes_def
      homed_raw image_iff split: if_splits)

section \<open>What build scans\<close>

definition row_conforms :: "Schema \<Rightarrow> Label \<times> NodeRow \<Rightarrow> bool" where
  "row_conforms schema lr \<longleftrightarrow>
     (\<exists>nd. node_def schema (fst lr) = Some nd \<and>
        properties_conform (nd_properties nd) (nr_properties (snd lr)))"

definition edge_conforms :: "Schema \<Rightarrow> EdgeType \<times> EdgeRow \<Rightarrow> bool" where
  "edge_conforms schema tr \<longleftrightarrow>
     (\<exists>ed. edge_def schema (fst tr) = Some ed \<and>
        properties_conform (ed_properties ed) (er_properties (snd tr)))"

lemma batch_to_node_rows_conform:
  "Ok row \<in> set (batch_to_node_rows A batch nd) \<Longrightarrow> properties_conform (nd_properties nd) (nr_properties row)"
  by (auto simp: batch_to_node_rows_def res_bind_Ok_iff image_iff eq_commute [of "Ok row"]
      intro: read_properties_conform split: res.splits option.splits)

lemma batch_to_edge_rows_conform:
  "Ok row \<in> set (batch_to_edge_rows A batch ed) \<Longrightarrow> properties_conform (ed_properties ed) (er_properties row)"
  by (auto simp: batch_to_edge_rows_def res_bind_Ok_iff image_iff eq_commute [of "Ok row"]
      intro: read_properties_conform split: res.splits option.splits)

lemma catalog_scan_nodes_conform:
  assumes "catalog_scan_nodes A C schema lbl snapshot = Ok stream" "Ok row \<in> set stream"
  shows "row_conforms schema (lbl, row)"
proof -
  from assms(1) obtain nd where "node_def schema lbl = Some nd"
    "\<exists>batches. stream = concat (map (\<lambda>batch. batch_to_node_rows A batch nd) batches)"
    by (auto simp: catalog_scan_nodes_def Let_def res_bind_Ok_iff ok_or_Ok_iff)
  with assms(2) show ?thesis by (auto simp: row_conforms_def dest: batch_to_node_rows_conform)
qed

lemma catalog_scan_edges_conform:
  assumes "catalog_scan_edges A C schema ty snapshot = Ok stream" "Ok row \<in> set stream"
  shows "edge_conforms schema (ty, row)"
proof -
  from assms(1) obtain ed where "edge_def schema ty = Some ed"
    "\<exists>batches. stream = concat (map (\<lambda>batch. batch_to_edge_rows A batch ed) batches)"
    by (auto simp: catalog_scan_edges_def Let_def res_bind_Ok_iff ok_or_Ok_iff)
  with assms(2) show ?thesis by (auto simp: edge_conforms_def dest: batch_to_edge_rows_conform)
qed

lemma collect_id_set: "collect_res (\<lambda>r. r) xs = Ok ys \<Longrightarrow> y \<in> set ys \<Longrightarrow> Ok y \<in> set xs"
  by (induction xs arbitrary: ys) (auto simp: res_bind_Ok_iff res_map_Ok_iff)

text \<open>
  A successful build assembles rows that conform to the schema, read at the snapshots it
  records.
\<close>

lemma build_scans:
  assumes reader: "ib_reader B = IcebergCatalogReader A C"
    and ok: "build h now B p labels = Ok g"
  obtains nodes edges snaps
  where "assemble h (ib_schema B) (ib_n_partitions B) now p snaps nodes edges = (Ok g :: (RebuildError, _) res)"
    and "\<forall>lr \<in> set nodes. fst lr \<in> set labels \<and> row_conforms (ib_schema B) lr"
    and "\<forall>tr \<in> set edges. edge_conforms (ib_schema B) tr"
proof -
  from ok obtain snaps nodes snaps' edges
    where n: "fold_res (scan_label B) (fmempty, []) labels = Ok (snaps, nodes)"
      and e: "fold_res (scan_edge_type B) (snaps, []) (map snd (sorted_list_of_fmap (sch_edges (ib_schema B)))) =
        Ok (snaps', edges)"
      and asm: "assemble h (ib_schema B) (ib_n_partitions B) now p snaps' nodes edges = (Ok g :: (RebuildError, _) res)"
    unfolding build_def res_bind_Ok_iff map_err_Ok_iff split_paired_Ex prod.case by blast
  have "\<forall>lr \<in> set (snd (snaps, nodes)). fst lr \<in> set labels \<and> row_conforms (ib_schema B) lr"
    using n
  proof (rule fold_res_invariant)
    fix s s' :: "(string, SnapshotId) fmap \<times> (Label \<times> NodeRow) list" and lbl
    assume lbl: "lbl \<in> set labels" and step: "scan_label B s lbl = Ok s'"
      and inv: "\<forall>lr \<in> set (snd s). fst lr \<in> set labels \<and> row_conforms (ib_schema B) lr"
    from step obtain snapshot stream rows
      where scan: "catalog_scan_nodes A C (ib_schema B) lbl snapshot = Ok stream"
        and rows: "collect_res (\<lambda>row. row) stream = Ok rows"
        and s': "snd s' = snd s @ map (\<lambda>row. (lbl, row)) rows"
      by (auto simp: scan_label_def Let_def res_bind_Ok_iff reader IcebergCatalogReader_def)
    show "\<forall>lr \<in> set (snd s'). fst lr \<in> set labels \<and> row_conforms (ib_schema B) lr"
      using inv lbl catalog_scan_nodes_conform [OF scan] collect_id_set [OF rows] by (auto simp: s')
  qed simp
  moreover have "\<forall>tr \<in> set (snd (snaps', edges)). edge_conforms (ib_schema B) tr"
    using e
  proof (rule fold_res_invariant)
    fix s s' :: "(string, SnapshotId) fmap \<times> (EdgeType \<times> EdgeRow) list" and ed
    assume step: "scan_edge_type B s ed = Ok s'" and inv: "\<forall>tr \<in> set (snd s). edge_conforms (ib_schema B) tr"
    from step obtain snapshot stream rows
      where scan: "catalog_scan_edges A C (ib_schema B) (ed_edge_type ed) snapshot = Ok stream"
        and rows: "collect_res (\<lambda>row. row) stream = Ok rows"
        and s': "snd s' = snd s @ map (\<lambda>row. (ed_edge_type ed, row)) rows"
      by (auto simp: scan_edge_type_def Let_def res_bind_Ok_iff reader IcebergCatalogReader_def)
    show "\<forall>tr \<in> set (snd s'). edge_conforms (ib_schema B) tr"
      using inv catalog_scan_edges_conform [OF scan] collect_id_set [OF rows] by (auto simp: s')
  qed simp
  ultimately show thesis using that [OF asm] by simp
qed

lemma assemble_records:
  assumes "assemble h schema np now p snaps nodes edges = (Ok g :: ('e, _) res)" "np \<noteq> 0"
  shows "ig_node_records g = hm_collect (map node_record_entry (local_nodes h np p nodes))"
    and "ig_edge_records g = hm_collect (map edge_record_entry (local_edges h np p edges))"
proof -
  have "retain_res (\<lambda>(_, row). owned_by h np p (nr_id row)) nodes = (Ok (local_nodes h np p nodes) :: ('e, _) res)"
    "retain_res (\<lambda>(_, row). owned_by h np p (er_src row)) edges = (Ok (local_edges h np p edges) :: ('e, _) res)"
    unfolding local_nodes_def local_edges_def
    by (rule retain_res_Ok_all; auto simp: owned_by_def assms(2))+
  then show "ig_node_records g = hm_collect (map node_record_entry (local_nodes h np p nodes))"
    "ig_edge_records g = hm_collect (map edge_record_entry (local_edges h np p edges))"
    using assms(1) by (auto simp: assemble_def res_bind_Ok_iff)
qed

lemma build_records:
  assumes "ib_reader B = IcebergCatalogReader A C" "ib_n_partitions B \<noteq> 0" "build h now B p labels = Ok g"
  shows "fmlookup (ig_node_records g) n = Some r \<Longrightarrow>
      homed h (ib_n_partitions B) p n \<and> nrec_label r \<in> set labels \<and>
      row_conforms (ib_schema B) (nrec_label r, \<lparr>nr_id = n, nr_properties = nrec_properties r\<rparr>)"
    and "fmlookup (ig_edge_records g) i = Some e \<Longrightarrow>
      (\<exists>ed. edge_def (ib_schema B) (erec_edge_type e) = Some ed \<and>
        properties_conform (ed_properties ed) (erec_properties e))"
proof -
  obtain nodes edges snaps
    where asm: "assemble h (ib_schema B) (ib_n_partitions B) now p snaps nodes edges = (Ok g :: (RebuildError, _) res)"
      and nodes: "\<forall>lr \<in> set nodes. fst lr \<in> set labels \<and> row_conforms (ib_schema B) lr"
      and edges: "\<forall>tr \<in> set edges. edge_conforms (ib_schema B) tr"
    by (rule build_scans [OF assms(1,3)])
  show "homed h (ib_n_partitions B) p n \<and> nrec_label r \<in> set labels \<and>
      row_conforms (ib_schema B) (nrec_label r, \<lparr>nr_id = n, nr_properties = nrec_properties r\<rparr>)"
    if "fmlookup (ig_node_records g) n = Some r"
  proof -
    from that have "(n, r) \<in> set (map node_record_entry (local_nodes h (ib_n_partitions B) p nodes))"
      unfolding assemble_records(1) [OF asm assms(2)] fmlookup_hm_collect by (rule map_of_rev_SomeD)
    then obtain lr where lr: "lr \<in> set (local_nodes h (ib_n_partitions B) p nodes)"
      "(n, r) = node_record_entry lr"
      unfolding set_map by (rule imageE) blast
    then show ?thesis
      using nodes by (fastforce simp: node_record_entry_def local_nodes_def homed_raw row_conforms_def)
  qed
  show "\<exists>ed. edge_def (ib_schema B) (erec_edge_type e) = Some ed \<and>
      properties_conform (ed_properties ed) (erec_properties e)"
    if "fmlookup (ig_edge_records g) i = Some e"
  proof -
    from that have "(i, e) \<in> set (map edge_record_entry (local_edges h (ib_n_partitions B) p edges))"
      unfolding assemble_records(2) [OF asm assms(2)] fmlookup_hm_collect by (rule map_of_rev_SomeD)
    then obtain tr where "tr \<in> set (local_edges h (ib_n_partitions B) p edges)"
      "(i, e) = edge_record_entry tr"
      unfolding set_map by (rule imageE) blast
    then show ?thesis
      using edges by (fastforce simp: edge_record_entry_def local_edges_def edge_conforms_def)
  qed
qed

end
