(* ===== verification/Wire.thy ===== *)
theory Wire
  imports Query_Plan
begin

text \<open>
  Crate \<open>graph-proto\<close> (\<open>graph.proto\<close>): the messages of the two gRPC services as the
  generated Rust types have them, and the status a call fails with. A \<open>oneof\<close> or message
  field that may be absent is an option, an enum field is its \<open>i32\<close> number.
\<close>

section \<open>Statuses\<close>

type_synonym i32 = "32 word"

datatype StatusCode = InvalidArgument | Internal | Unavailable | DeadlineExceeded | Unknown

record Status =
  st_code :: StatusCode
  st_message :: string

definition invalid_argument :: "string \<Rightarrow> Status" where
  "invalid_argument m = \<lparr>st_code = InvalidArgument, st_message = m\<rparr>"

definition internal :: "string \<Rightarrow> Status" where
  "internal m = \<lparr>st_code = Internal, st_message = m\<rparr>"

definition unavailable :: "string \<Rightarrow> Status" where
  "unavailable m = \<lparr>st_code = Unavailable, st_message = m\<rparr>"

text \<open>\<open>Display\<close> of an \<open>ExecutionError\<close>.\<close>

fun show_execution_error :: "ExecutionError \<Rightarrow> string" where
  "show_execution_error NoIndex = ''index generation unavailable''"
| "show_execution_error (UnknownAlias a) = ''plan step referenced unknown alias: '' @ a"
| "show_execution_error (Rpc m) = ''partition RPC failed: '' @ m"

section \<open>Values\<close>

datatype Kind =
    Int64Value i64
  | Float64Value f64
  | BoolValue bool
  | StringValue string
  | TimestampValue i64
  | BytesValue "u8 list"

record ProtoValue =
  pv_kind :: "Kind option"

datatype ProtoComparisonOp = ProtoEq | ProtoNe | ProtoLt | ProtoLte | ProtoGt | ProtoGte

text \<open>The enum's numbers: \<open>as i32\<close>, and the generated \<open>TryFrom<i32>\<close>.\<close>

fun proto_op_number :: "ProtoComparisonOp \<Rightarrow> i32" where
  "proto_op_number ProtoEq = 0"
| "proto_op_number ProtoNe = 1"
| "proto_op_number ProtoLt = 2"
| "proto_op_number ProtoLte = 3"
| "proto_op_number ProtoGt = 4"
| "proto_op_number ProtoGte = 5"

definition proto_op_try_from :: "i32 \<Rightarrow> ProtoComparisonOp option" where
  "proto_op_try_from n =
     (if n = 0 then Some ProtoEq else if n = 1 then Some ProtoNe else if n = 2 then Some ProtoLt
      else if n = 3 then Some ProtoLte else if n = 4 then Some ProtoGt
      else if n = 5 then Some ProtoGte else None)"

lemma proto_op_try_from_number [simp]: "proto_op_try_from (proto_op_number op) = Some op"
  by (cases op) (simp_all add: proto_op_try_from_def)

record ProtoPropertyFilter =
  ppf_property :: string
  ppf_op :: i32
  ppf_value :: "ProtoValue option"

record ProtoBinding =
  pb_node_ids_by_alias :: "(string, u64) fmap"
  pb_edge_ids_by_alias :: "(string, u64) fmap"

section \<open>Requests and responses\<close>

record ResolveStartRequest =
  rsr_alias :: string
  rsr_label_or_type :: string
  rsr_property :: string
  rsr_key :: "ProtoValue option"

record ResolveAllRequest =
  rar_alias :: string
  rar_label :: string

record ExpandHopRequest =
  ehr_frontier :: "ProtoBinding list"
  ehr_from_alias :: string
  ehr_to_alias :: string
  ehr_to_label :: string
  ehr_edge_type :: string
  ehr_incoming :: bool
  ehr_hop_min :: u32
  ehr_hop_max :: u32
  ehr_filters :: "ProtoPropertyFilter list"
  ehr_edge_alias :: string

record CheckAntiJoinRequest =
  cjr_frontier :: "ProtoBinding list"
  cjr_from_alias :: string
  cjr_to_alias :: string
  cjr_edge_alias :: string
  cjr_edge_type :: string
  cjr_incoming :: bool
  cjr_conditions :: "ProtoPropertyFilter list"

record CheckAntiJoinResponse =
  cjs_surviving_indices :: "u32 list"

record NodeProperties =
  npr_label :: string
  npr_fields :: "(string, ProtoValue) fmap"

record EdgeProperties =
  epr_edge_type :: string
  epr_fields :: "(string, ProtoValue) fmap"

record IndexStatusResponse =
  isr_pinned_snapshot_by_table :: "(string, i64) fmap"
  isr_last_rebuilt_unix_ms :: i64
  isr_node_count :: u64
  isr_edge_count :: u64

datatype ServingStatus = StatusUnknown | Serving | NotServing

record HealthCheckResponse =
  hcr_status :: ServingStatus

record QueryResult =
  qr_projection :: "(string, ProtoValue) fmap"
  qr_properties :: "(string, NodeProperties) fmap"
  qr_edge_properties :: "(string, EdgeProperties) fmap"

record SchemaResponse =
  scr_schema_idl :: string
  scr_version :: string

section \<open>Maps whose values are converted\<close>

text \<open>\<open>iter().filter_map(|(k, v)| f(v).map(|w| (k.clone(), w))).collect()\<close>.\<close>

definition fm_filter_map :: "('v \<Rightarrow> 'w option) \<Rightarrow> ('k, 'v) fmap \<Rightarrow> ('k, 'w) fmap" where
  "fm_filter_map f m =
     fmmap (\<lambda>v. the (f v)) (fmfilter (\<lambda>k. case fmlookup m k of Some v \<Rightarrow> f v \<noteq> None | None \<Rightarrow> False) m)"

lemma fmlookup_fm_filter_map [simp]:
  "fmlookup (fm_filter_map f m) k = Option.bind (fmlookup m k) f"
  by (cases "fmlookup m k") (auto simp: fm_filter_map_def)

text \<open>An absent name travels as the empty string.\<close>

definition unwrap_or_default :: "string option \<Rightarrow> string" where
  "unwrap_or_default x = (case x of Some s \<Rightarrow> s | None \<Rightarrow> [])"

definition then_some :: "string \<Rightarrow> string option" where
  "then_some s = (if s = [] then None else Some s)"

lemma then_some_unwrap: "x \<noteq> Some [] \<Longrightarrow> then_some (unwrap_or_default x) = x"
  by (cases x) (auto simp: then_some_def unwrap_or_default_def)

end
