(* ===== verification/Partition_Node.thy ===== *)
theory Partition_Node
  imports Wire Local_Executor
begin

text \<open>
  Binary \<open>graph-partition-node\<close>, \<open>service.rs\<close>: the handlers of \<open>PartitionService\<close>. Each
  marshals its request, runs \<open>SimpleLocalExecutor\<close> on the generation it acquired, and
  marshals the answer. A stream is the list of the items it yields; the latency metric of
  \<open>expand_hop\<close> is left out.
\<close>

record PartitionServiceImpl =
  psi_generation :: IndexGeneration
  psi_partition :: PartitionId

section \<open>Conversions\<close>

fun property_value_to_proto :: "PropertyValue \<Rightarrow> ProtoValue option" where
  "property_value_to_proto (VInt64 v) = Some \<lparr>pv_kind = Some (Int64Value v)\<rparr>"
| "property_value_to_proto (VFloat64 v) = Some \<lparr>pv_kind = Some (Float64Value v)\<rparr>"
| "property_value_to_proto (VBool v) = Some \<lparr>pv_kind = Some (BoolValue v)\<rparr>"
| "property_value_to_proto (VString v) = Some \<lparr>pv_kind = Some (StringValue v)\<rparr>"
| "property_value_to_proto (VTimestamp v) = Some \<lparr>pv_kind = Some (TimestampValue v)\<rparr>"
| "property_value_to_proto (VBytes v) = Some \<lparr>pv_kind = Some (BytesValue v)\<rparr>"
| "property_value_to_proto _ = None"

definition node_record_to_proto :: "NodeRecord \<Rightarrow> NodeProperties" where
  "node_record_to_proto r =
     \<lparr>npr_label = label_name (nrec_label r),
      npr_fields = fm_filter_map property_value_to_proto (nrec_properties r)\<rparr>"

definition edge_record_to_proto :: "EdgeRecord \<Rightarrow> EdgeProperties" where
  "edge_record_to_proto r =
     \<lparr>epr_edge_type = edge_type_name (erec_edge_type r),
      epr_fields = fm_filter_map property_value_to_proto (erec_properties r)\<rparr>"

definition binding_to_proto :: "Binding \<Rightarrow> ProtoBinding" where
  "binding_to_proto b =
     \<lparr>pb_node_ids_by_alias = fmmap node_raw (b_nodes b),
      pb_edge_ids_by_alias = fmmap edge_raw (b_edges b)\<rparr>"

definition proto_binding_to_binding :: "ProtoBinding \<Rightarrow> Binding" where
  "proto_binding_to_binding p =
     \<lparr>b_nodes = fmmap NodeId (pb_node_ids_by_alias p), b_edges = fmmap EdgeId (pb_edge_ids_by_alias p)\<rparr>"

definition bindings_to_stream :: "Binding list \<Rightarrow> (Status, ProtoBinding) res list" where
  "bindings_to_stream bs = map (\<lambda>b. Ok (binding_to_proto b)) bs"

definition proto_value_to_property_key :: "ProtoValue \<Rightarrow> (Status, PropertyKey) res" where
  "proto_value_to_property_key value =
     (case pv_kind value of
        Some (Int64Value v) \<Rightarrow> Ok (KInt64 v)
      | Some (BoolValue v) \<Rightarrow> Ok (KBool v)
      | Some (StringValue v) \<Rightarrow> Ok (KString v)
      | Some (TimestampValue v) \<Rightarrow> Ok (KTimestamp v)
      | Some _ \<Rightarrow> Err (invalid_argument ''PropertyIndex has no key variant for float/bytes values'')
      | None \<Rightarrow> Err (invalid_argument ''missing Value.kind''))"

definition proto_value_to_literal :: "ProtoValue \<Rightarrow> (Status, Literal) res" where
  "proto_value_to_literal value =
     (case pv_kind value of
        Some (Int64Value v) \<Rightarrow> Ok (LInt64 v)
      | Some (Float64Value v) \<Rightarrow> Ok (LFloat64 v)
      | Some (BoolValue v) \<Rightarrow> Ok (LBool v)
      | Some (StringValue v) \<Rightarrow> Ok (LString v)
      | Some _ \<Rightarrow> Err (invalid_argument ''WHERE filters don't support timestamp/bytes literals in v1'')
      | None \<Rightarrow> Err (invalid_argument ''missing Value.kind''))"

fun proto_op_to_op :: "ProtoComparisonOp \<Rightarrow> ComparisonOp" where
  "proto_op_to_op ProtoEq = Eq"
| "proto_op_to_op ProtoNe = Ne"
| "proto_op_to_op ProtoLt = Lt"
| "proto_op_to_op ProtoLte = Lte"
| "proto_op_to_op ProtoGt = Gt"
| "proto_op_to_op ProtoGte = Gte"

definition proto_comparison_op_to_op :: "i32 \<Rightarrow> (Status, ComparisonOp) res" where
  "proto_comparison_op_to_op op =
     res_map proto_op_to_op (ok_or (invalid_argument ''unknown ComparisonOp'') (proto_op_try_from op))"

definition proto_filter_to_property_filter :: "ProtoPropertyFilter \<Rightarrow> (Status, PropertyFilter) res" where
  "proto_filter_to_property_filter p =
     res_bind (proto_comparison_op_to_op (ppf_op p)) (\<lambda>op.
     res_bind (ok_or (invalid_argument ''missing filter value'') (ppf_value p)) (\<lambda>v.
     res_bind (proto_value_to_literal v) (\<lambda>value.
     Ok \<lparr>pf_property = ppf_property p, pf_op = op, pf_value = value\<rparr>)))"

section \<open>Handlers\<close>

definition executed :: "(ExecutionError, 'a) res \<Rightarrow> (Status, 'a) res" where
  "executed r = map_err (\<lambda>e. internal (show_execution_error e)) r"

definition service_resolve_start ::
  "PartitionServiceImpl \<Rightarrow> ResolveStartRequest \<Rightarrow> (Status, (Status, ProtoBinding) res list) res" where
  "service_resolve_start svc req =
     res_bind (ok_or (invalid_argument ''missing key'') (rsr_key req)) (\<lambda>v.
     res_bind (proto_value_to_property_key v) (\<lambda>key.
     res_map bindings_to_stream (executed (resolve_start (psi_generation svc)
       (ResolveStart (rsr_alias req) (rsr_label_or_type req) (rsr_property req) key)))))"

definition service_resolve_all ::
  "hash_order \<Rightarrow> PartitionServiceImpl \<Rightarrow> ResolveAllRequest
   \<Rightarrow> (Status, (Status, ProtoBinding) res list) res" where
  "service_resolve_all ho svc req =
     res_map bindings_to_stream (executed (resolve_all ho (psi_generation svc)
       (ResolveAll (rar_alias req) (rar_label req))))"

definition direction_of :: "bool \<Rightarrow> Direction" where
  "direction_of incoming = (if incoming then Incoming else Outgoing)"

definition service_expand_hop ::
  "hash_order \<Rightarrow> PartitionServiceImpl \<Rightarrow> ExpandHopRequest
   \<Rightarrow> (Status, (Status, ProtoBinding) res list) res" where
  "service_expand_hop ho svc req =
     (let frontier = map proto_binding_to_binding (ehr_frontier req) in
      res_bind (collect_res proto_filter_to_property_filter (ehr_filters req)) (\<lambda>filters.
      let step = \<lparr>eh_from_alias = ehr_from_alias req, eh_to_alias = ehr_to_alias req,
                  eh_to_label = then_some (ehr_to_label req),
                  eh_edge_type = then_some (ehr_edge_type req),
                  eh_direction = direction_of (ehr_incoming req),
                  eh_hops = \<lparr>hr_min = ehr_hop_min req, hr_max = ehr_hop_max req\<rparr>,
                  eh_filters = filters, eh_edge_alias = then_some (ehr_edge_alias req)\<rparr> in
      res_map (\<lambda>result. bindings_to_stream (fr_local result @ map snd (fr_remote result)))
        (executed (expand_hop ho (psi_generation svc) (ExpandHop step) frontier))))"

definition service_check_anti_join ::
  "(string \<Rightarrow> i64 option) \<Rightarrow> PartitionServiceImpl \<Rightarrow> CheckAntiJoinRequest
   \<Rightarrow> (Status, CheckAntiJoinResponse) res" where
  "service_check_anti_join rfc svc req =
     (let frontier = map proto_binding_to_binding (cjr_frontier req) in
      res_bind (collect_res proto_filter_to_property_filter (cjr_conditions req)) (\<lambda>conditions.
      let step = \<lparr>aj_from_alias = cjr_from_alias req, aj_to_alias = cjr_to_alias req,
                  aj_direction = direction_of (cjr_incoming req),
                  aj_edge_alias = then_some (cjr_edge_alias req),
                  aj_edge_type = then_some (cjr_edge_type req),
                  aj_literal_conditions = [], aj_outer_conditions = []\<rparr> in
      res_map (\<lambda>survivors. \<lparr>cjs_surviving_indices =
          List.map_filter (\<lambda>(i, b). if b \<in> set survivors then Some (of_nat i) else None)
            (enumerate 0 frontier)\<rparr>)
        (executed (check_anti_join rfc (psi_generation svc) step conditions frontier))))"

definition service_get_index_status :: "PartitionServiceImpl \<Rightarrow> (Status, IndexStatusResponse) res" where
  "service_get_index_status svc =
     (let meta = ig_meta (psi_generation svc) in
      Ok \<lparr>isr_pinned_snapshot_by_table = fmmap snapshot_raw (gm_snapshot_by_table meta),
          isr_last_rebuilt_unix_ms = gm_built_at_unix_ms meta,
          isr_node_count = gm_node_count meta, isr_edge_count = gm_edge_count meta\<rparr>)"

definition service_get_node_properties ::
  "PartitionServiceImpl \<Rightarrow> u64 list \<Rightarrow> (Status, (u64, NodeProperties) fmap) res" where
  "service_get_node_properties svc ids =
     Ok (hm_collect (List.map_filter (\<lambda>i. map_option (\<lambda>r. (i, node_record_to_proto r))
       (fmlookup (ig_node_records (psi_generation svc)) (NodeId i))) ids))"

definition service_get_edge_properties ::
  "PartitionServiceImpl \<Rightarrow> u64 list \<Rightarrow> (Status, (u64, EdgeProperties) fmap) res" where
  "service_get_edge_properties svc ids =
     Ok (hm_collect (List.map_filter (\<lambda>i. map_option (\<lambda>r. (i, edge_record_to_proto r))
       (fmlookup (ig_edge_records (psi_generation svc)) (EdgeId i))) ids))"

definition service_health_check :: "PartitionServiceImpl \<Rightarrow> (Status, HealthCheckResponse) res" where
  "service_health_check svc = Ok \<lparr>hcr_status = Serving\<rparr>"

section \<open>The surviving positions\<close>

lemma proto_binding_roundtrip [simp]: "proto_binding_to_binding (binding_to_proto b) = b"
  by (simp add: proto_binding_to_binding_def binding_to_proto_def fmap.map_comp fmap.map_ident comp_def)

lemma map_filter_cong:
  "(\<And>x. x \<in> set xs \<Longrightarrow> f x = g x) \<Longrightarrow> List.map_filter f xs = List.map_filter g xs"
  by (induction xs) (auto simp: List.map_filter_simps split: option.split)

text \<open>
  Survivors are mapped back to positions by equality, which is exact because survival is
  a property of the binding alone, even if the frontier repeats one.
\<close>

lemma surviving_positions:
  assumes "length (pre @ bs) \<le> 2 ^ 32"
  shows "List.map_filter (\<lambda>i. if unat i < length (pre @ bs) then Some ((pre @ bs) ! unat i) else None)
      (List.map_filter (\<lambda>(i, b). if b \<in> set (filter P bs) then Some (of_nat i :: u32) else None)
        (enumerate (length pre) bs)) = filter P bs"
  using assms
proof (induction bs arbitrary: pre)
  case (Cons b bs)
  have lt: "length pre < 2 ^ 32" using Cons.prems by simp
  then have at: "unat (of_nat (length pre) :: u32) = length pre" by (simp add: unat_of_nat)
  have ih: "List.map_filter (\<lambda>i. if unat i < length (pre @ b # bs) then Some ((pre @ b # bs) ! unat i) else None)
      (List.map_filter (\<lambda>(i, b). if b \<in> set (filter P bs) then Some (of_nat i :: u32) else None)
        (enumerate (length (pre @ [b])) bs)) = filter P bs"
    using Cons.IH [of "pre @ [b]", unfolded append_assoc append_Cons append_Nil] Cons.prems
    by blast
  have same: "List.map_filter (\<lambda>(i, x). if x \<in> set (filter P (b # bs)) then Some (of_nat i :: u32) else None)
        (enumerate (length (pre @ [b])) bs) =
      List.map_filter (\<lambda>(i, x). if x \<in> set (filter P bs) then Some (of_nat i :: u32) else None)
        (enumerate (length (pre @ [b])) bs)"
    by (rule map_filter_cong) (auto simp: in_set_enumerate_eq)
  show ?case
    using ih same at by (auto simp: List.map_filter_simps)
qed (simp add: List.map_filter_simps)

end
