(* ===== verification/Partition_Rpc.thy ===== *)
theory Partition_Rpc
  imports Partition_Node Distributed_Executor
begin

text \<open>
  Binary \<open>graph-coordinator\<close>, \<open>grpc_partition_rpc.rs\<close>: the networked \<open>PartitionRpc\<close>. Its
  cache of clients is explicit state; the methods return their result with the cache they
  leave. The network is a parameter: \<open>nw_connect\<close> says which server answers at an
  address (or why none does), a reply is the handler's result, and a handler that panics is seen as
  the status \<open>nw_aborted\<close>.
\<close>

record Network =
  nw_connect :: "SocketAddr \<Rightarrow> (string, PartitionServiceImpl) res"
  nw_show_status :: "Status \<Rightarrow> string"
  nw_aborted :: Status

type_synonym ClientCache = "(SocketAddr, PartitionServiceImpl) fmap"

definition rpc_client ::
  "Network \<Rightarrow> ClientCache \<Rightarrow> ReplicaEndpoint \<Rightarrow> (ExecutionError, PartitionServiceImpl) res \<times> ClientCache" where
  "rpc_client N clients replica =
     (case fmlookup clients (re_address replica) of
        Some client \<Rightarrow> (Ok client, clients)
      | None \<Rightarrow>
          (case nw_connect N (re_address replica) of
             Ok client \<Rightarrow> (Ok client, fmupd (re_address replica) client clients)
           | Err e \<Rightarrow> (Err (Rpc (''failed to connect to replica '' @ re_address replica @ '': '' @ e)), clients)
           | Panic m \<Rightarrow> (Panic m, clients)))"

text \<open>\<open>map_err(|e| ExecutionError::Rpc(e.to_string()))\<close> on what a call returns.\<close>

fun replied :: "Network \<Rightarrow> (Status, 'a) res \<Rightarrow> (ExecutionError, 'a) res" where
  "replied N (Ok a) = Ok a"
| "replied N (Err st) = Err (Rpc (nw_show_status N st))"
| "replied N (Panic m) = Err (Rpc (nw_show_status N (nw_aborted N)))"

definition stream_collect ::
  "Network \<Rightarrow> (Status, ProtoBinding) res list \<Rightarrow> (ExecutionError, ProtoBinding list) res" where
  "stream_collect N stream = collect_res (replied N) stream"

section \<open>Conversions\<close>

fun property_key_to_proto :: "PropertyKey \<Rightarrow> ProtoValue" where
  "property_key_to_proto (KInt64 v) = \<lparr>pv_kind = Some (Int64Value v)\<rparr>"
| "property_key_to_proto (KBool v) = \<lparr>pv_kind = Some (BoolValue v)\<rparr>"
| "property_key_to_proto (KString v) = \<lparr>pv_kind = Some (StringValue v)\<rparr>"
| "property_key_to_proto (KTimestamp v) = \<lparr>pv_kind = Some (TimestampValue v)\<rparr>"

fun literal_to_proto :: "Literal \<Rightarrow> ProtoValue" where
  "literal_to_proto (LInt64 v) = \<lparr>pv_kind = Some (Int64Value v)\<rparr>"
| "literal_to_proto (LFloat64 v) = \<lparr>pv_kind = Some (Float64Value v)\<rparr>"
| "literal_to_proto (LBool v) = \<lparr>pv_kind = Some (BoolValue v)\<rparr>"
| "literal_to_proto (LString v) = \<lparr>pv_kind = Some (StringValue v)\<rparr>"

fun comparison_op_to_proto :: "ComparisonOp \<Rightarrow> ProtoComparisonOp" where
  "comparison_op_to_proto Eq = ProtoEq"
| "comparison_op_to_proto Ne = ProtoNe"
| "comparison_op_to_proto Lt = ProtoLt"
| "comparison_op_to_proto Lte = ProtoLte"
| "comparison_op_to_proto Gt = ProtoGt"
| "comparison_op_to_proto Gte = ProtoGte"

definition property_filter_to_proto :: "PropertyFilter \<Rightarrow> ProtoPropertyFilter" where
  "property_filter_to_proto f =
     \<lparr>ppf_property = pf_property f, ppf_op = proto_op_number (comparison_op_to_proto (pf_op f)),
      ppf_value = Some (literal_to_proto (pf_value f))\<rparr>"

definition proto_value_to_property_value :: "ProtoValue \<Rightarrow> PropertyValue option" where
  "proto_value_to_property_value value =
     (case pv_kind value of
        Some (Int64Value v) \<Rightarrow> Some (VInt64 v)
      | Some (Float64Value v) \<Rightarrow> Some (VFloat64 v)
      | Some (BoolValue v) \<Rightarrow> Some (VBool v)
      | Some (StringValue v) \<Rightarrow> Some (VString v)
      | Some (TimestampValue v) \<Rightarrow> Some (VTimestamp v)
      | Some (BytesValue v) \<Rightarrow> Some (VBytes v)
      | None \<Rightarrow> None)"

definition proto_node_properties_to_record :: "NodeProperties \<Rightarrow> NodeRecord" where
  "proto_node_properties_to_record p =
     \<lparr>nrec_label = Label (npr_label p), nrec_properties = fm_filter_map proto_value_to_property_value (npr_fields p)\<rparr>"

definition proto_edge_properties_to_record :: "EdgeProperties \<Rightarrow> EdgeRecord" where
  "proto_edge_properties_to_record p =
     \<lparr>erec_edge_type = EdgeType (epr_edge_type p),
      erec_properties = fm_filter_map proto_value_to_property_value (epr_fields p)\<rparr>"

text \<open>The coordinator's own copies of the binding conversions.\<close>

definition coord_binding_to_proto :: "Binding \<Rightarrow> ProtoBinding" where
  "coord_binding_to_proto b =
     \<lparr>pb_node_ids_by_alias = fmmap node_raw (b_nodes b), pb_edge_ids_by_alias = fmmap edge_raw (b_edges b)\<rparr>"

definition coord_proto_binding_to_binding :: "ProtoBinding \<Rightarrow> Binding" where
  "coord_proto_binding_to_binding p =
     \<lparr>b_nodes = fmmap NodeId (pb_node_ids_by_alias p), b_edges = fmmap EdgeId (pb_edge_ids_by_alias p)\<rparr>"

section \<open>The methods\<close>

text \<open>Each method gets a client, makes one call, and converts the reply.\<close>

definition with_client ::
  "Network \<Rightarrow> ClientCache \<Rightarrow> ReplicaEndpoint \<Rightarrow> (PartitionServiceImpl \<Rightarrow> (ExecutionError, 'a) res)
   \<Rightarrow> (ExecutionError, 'a) res \<times> ClientCache" where
  "with_client N clients replica use =
     (case rpc_client N clients replica of (client, clients') \<Rightarrow> (res_bind client use, clients'))"

definition bindings_of_reply ::
  "Network \<Rightarrow> (Status, (Status, ProtoBinding) res list) res \<Rightarrow> (ExecutionError, Binding list) res" where
  "bindings_of_reply N reply =
     res_bind (replied N reply) (\<lambda>stream.
     res_map (map coord_proto_binding_to_binding) (stream_collect N stream))"

definition grpc_resolve_start ::
  "Network \<Rightarrow> ClientCache \<Rightarrow> ReplicaEndpoint \<Rightarrow> PlanStep \<Rightarrow> (ExecutionError, Binding list) res \<times> ClientCache" where
  "grpc_resolve_start N clients replica step =
     (case step of
        ResolveStart alias label_or_type property key \<Rightarrow>
          with_client N clients replica (\<lambda>client.
            bindings_of_reply N (service_resolve_start client
              \<lparr>rsr_alias = alias, rsr_label_or_type = label_or_type, rsr_property = property,
               rsr_key = Some (property_key_to_proto key)\<rparr>))
      | _ \<Rightarrow> (Err (Rpc ''resolve_start called with a non-ResolveStart step''), clients))"

definition grpc_resolve_all ::
  "hash_order \<Rightarrow> Network \<Rightarrow> ClientCache \<Rightarrow> ReplicaEndpoint \<Rightarrow> PlanStep
   \<Rightarrow> (ExecutionError, Binding list) res \<times> ClientCache" where
  "grpc_resolve_all ho N clients replica step =
     (case step of
        ResolveAll alias label \<Rightarrow>
          with_client N clients replica (\<lambda>client.
            bindings_of_reply N (service_resolve_all ho client \<lparr>rar_alias = alias, rar_label = label\<rparr>))
      | _ \<Rightarrow> (Err (Rpc ''resolve_all called with a non-ResolveAll step''), clients))"

definition grpc_expand_hop ::
  "hash_order \<Rightarrow> Network \<Rightarrow> ClientCache \<Rightarrow> ReplicaEndpoint \<Rightarrow> PlanStep \<Rightarrow> Binding list
   \<Rightarrow> (ExecutionError, Frontier) res \<times> ClientCache" where
  "grpc_expand_hop ho N clients replica step frontier =
     (case step of
        ExpandHop s \<Rightarrow>
          with_client N clients replica (\<lambda>client.
            res_map (\<lambda>bs. \<lparr>fr_local = bs, fr_remote = []\<rparr>)
              (bindings_of_reply N (service_expand_hop ho client
                \<lparr>ehr_frontier = map coord_binding_to_proto frontier,
                 ehr_from_alias = eh_from_alias s, ehr_to_alias = eh_to_alias s,
                 ehr_to_label = unwrap_or_default (eh_to_label s),
                 ehr_edge_type = unwrap_or_default (eh_edge_type s),
                 ehr_incoming = (eh_direction s = Incoming),
                 ehr_hop_min = hr_min (eh_hops s), ehr_hop_max = hr_max (eh_hops s),
                 ehr_filters = map property_filter_to_proto (eh_filters s),
                 ehr_edge_alias = unwrap_or_default (eh_edge_alias s)\<rparr>)))
      | _ \<Rightarrow> (Err (Rpc ''expand_hop called with a non-ExpandHop step''), clients))"

definition grpc_check_anti_join ::
  "(string \<Rightarrow> i64 option) \<Rightarrow> Network \<Rightarrow> ClientCache \<Rightarrow> ReplicaEndpoint \<Rightarrow> AntiJoinStep
   \<Rightarrow> PropertyFilter list \<Rightarrow> Binding list \<Rightarrow> (ExecutionError, Binding list) res \<times> ClientCache" where
  "grpc_check_anti_join rfc N clients replica step conditions frontier =
     with_client N clients replica (\<lambda>client.
       res_map (\<lambda>response. List.map_filter
           (\<lambda>i. if unat i < length frontier then Some (frontier ! unat i) else None)
           (cjs_surviving_indices response))
         (replied N (service_check_anti_join rfc client
           \<lparr>cjr_frontier = map coord_binding_to_proto frontier,
            cjr_from_alias = aj_from_alias step, cjr_to_alias = aj_to_alias step,
            cjr_edge_alias = unwrap_or_default (aj_edge_alias step),
            cjr_edge_type = unwrap_or_default (aj_edge_type step),
            cjr_incoming = (aj_direction step = Incoming),
            cjr_conditions = map property_filter_to_proto conditions\<rparr>)))"

text \<open>Re-keying a response map, whose keys are distinct.\<close>

definition grpc_get_node_properties ::
  "Network \<Rightarrow> ClientCache \<Rightarrow> ReplicaEndpoint \<Rightarrow> NodeId list
   \<Rightarrow> (ExecutionError, (NodeId, NodeRecord) fmap) res \<times> ClientCache" where
  "grpc_get_node_properties N clients replica ids =
     with_client N clients replica (\<lambda>client.
       res_map (\<lambda>response. hm_collect (map (\<lambda>(i, props). (NodeId i, proto_node_properties_to_record props))
           (sorted_list_of_fmap response)))
         (replied N (service_get_node_properties client (map node_raw ids))))"

definition grpc_get_edge_properties ::
  "Network \<Rightarrow> ClientCache \<Rightarrow> ReplicaEndpoint \<Rightarrow> EdgeId list
   \<Rightarrow> (ExecutionError, (EdgeId, EdgeRecord) fmap) res \<times> ClientCache" where
  "grpc_get_edge_properties N clients replica ids =
     with_client N clients replica (\<lambda>client.
       res_map (\<lambda>response. hm_collect (map (\<lambda>(i, props). (EdgeId i, proto_edge_properties_to_record props))
           (sorted_list_of_fmap response)))
         (replied N (service_get_edge_properties client (map edge_raw ids))))"

text \<open>The trait object the executor calls, over the cache it starts with.\<close>

definition grpc_rpc ::
  "hash_order \<Rightarrow> (string \<Rightarrow> i64 option) \<Rightarrow> Network \<Rightarrow> ClientCache \<Rightarrow> PartitionRpc" where
  "grpc_rpc ho rfc N clients =
     \<lparr>rpc_resolve_start = (\<lambda>replica step. fst (grpc_resolve_start N clients replica step)),
      rpc_resolve_all = (\<lambda>replica step. fst (grpc_resolve_all ho N clients replica step)),
      rpc_expand_hop = (\<lambda>replica step frontier. fst (grpc_expand_hop ho N clients replica step frontier)),
      rpc_get_node_properties = (\<lambda>replica ids. fst (grpc_get_node_properties N clients replica ids)),
      rpc_get_edge_properties = (\<lambda>replica ids. fst (grpc_get_edge_properties N clients replica ids)),
      rpc_check_anti_join = (\<lambda>replica step conditions frontier.
        fst (grpc_check_anti_join rfc N clients replica step conditions frontier))\<rparr>"

end
