(* ===== verification/Networked_Serving.thy ===== *)
theory Networked_Serving
  imports Partition_Serving Partition_Rpc
begin

text \<open>
  The networked \<open>PartitionRpc\<close> honours the contract \<open>partition_cluster\<close>: what the
  coordinator marshals, the partition node unmarshals to the same step, and its answer comes
  back as the local executor gave it, except for lists and nulls in property records.
  Positions of an anti-join are 32-bit, so \<open>small\<close> bounds the frontier by \<open>2 ^ 32\<close>.
\<close>

section \<open>Round trips of the conversions\<close>

named_theorems wire_simps \<open>what was marshalled is unmarshalled\<close>

lemma coord_binding_roundtrip [wire_simps]:
  "coord_proto_binding_to_binding (binding_to_proto b) = b"
  "proto_binding_to_binding (coord_binding_to_proto b) = b"
  by (simp_all add: coord_proto_binding_to_binding_def coord_binding_to_proto_def
      proto_binding_to_binding_def binding_to_proto_def fmap.map_comp fmap.map_ident comp_def)

lemma proto_op_roundtrip [wire_simps]:
  "proto_comparison_op_to_op (proto_op_number (comparison_op_to_proto op)) = Ok op"
  by (cases op) (simp_all add: proto_comparison_op_to_op_def proto_op_try_from_def)

lemma literal_roundtrip [wire_simps]: "proto_value_to_literal (literal_to_proto l) = Ok l"
  by (cases l) (simp_all add: proto_value_to_literal_def)

lemma filter_roundtrip [wire_simps]:
  "proto_filter_to_property_filter (property_filter_to_proto f) = Ok f"
  by (simp add: proto_filter_to_property_filter_def property_filter_to_proto_def wire_simps)

lemma filters_roundtrip [wire_simps]:
  "collect_res proto_filter_to_property_filter (map property_filter_to_proto fs) = Ok fs"
  by (induction fs) (simp_all add: wire_simps)

lemma key_roundtrip [wire_simps]: "proto_value_to_property_key (property_key_to_proto k) = Ok k"
  by (cases k) (simp_all add: proto_value_to_property_key_def)

lemma value_roundtrip [wire_simps]:
  "Option.bind (property_value_to_proto v) proto_value_to_property_value = (if on_wire v then Some v else None)"
  by (cases v) (simp_all add: proto_value_to_property_value_def)

lemma fields_roundtrip [wire_simps]:
  "fm_filter_map proto_value_to_property_value (fm_filter_map property_value_to_proto m) = wire_fields m"
  by (rule fmap_ext) (simp add: wire_simps split: option.split)

lemma node_record_roundtrip [wire_simps]:
  "proto_node_properties_to_record (node_record_to_proto r) = wire_node r"
  by (simp add: proto_node_properties_to_record_def node_record_to_proto_def wire_node_def wire_simps)

lemma edge_record_roundtrip [wire_simps]:
  "proto_edge_properties_to_record (edge_record_to_proto r) = wire_edge r"
  by (simp add: proto_edge_properties_to_record_def edge_record_to_proto_def wire_edge_def wire_simps)

lemma reply_roundtrip [wire_simps]:
  "bindings_of_reply N (Ok (bindings_to_stream bs)) = Ok bs"
proof -
  have "stream_collect N (bindings_to_stream bs) = Ok (map binding_to_proto bs)"
    by (induction bs) (simp_all add: stream_collect_def bindings_to_stream_def)
  then show ?thesis by (simp add: bindings_of_reply_def wire_simps comp_def)
qed

lemma direction_roundtrip [wire_simps]: "direction_of (d = Incoming) = d"
  by (cases d) (simp_all add: direction_of_def)

lemma executed_Ok [wire_simps]: "executed (Ok a) = Ok a"
  by (simp add: executed_def)

section \<open>What the methods return\<close>

lemma with_client_Ok:
  "fst (rpc_client N clients r) = Ok svc \<Longrightarrow> fst (with_client N clients r use) = use svc"
  by (auto simp: with_client_def split: prod.split)

lemma grpc_resolve_start_reply:
  assumes "fst (rpc_client N clients r) = Ok svc" "resolve_start (psi_generation svc) (ResolveStart a l p k) = Ok bs"
  shows "fst (grpc_resolve_start N clients r (ResolveStart a l p k)) = Ok bs"
  using assms(2) by (simp add: grpc_resolve_start_def with_client_Ok [OF assms(1)]
      service_resolve_start_def wire_simps)

lemma grpc_resolve_all_reply:
  assumes "fst (rpc_client N clients r) = Ok svc" "resolve_all ho (psi_generation svc) (ResolveAll a l) = Ok bs"
  shows "fst (grpc_resolve_all ho N clients r (ResolveAll a l)) = Ok bs"
  using assms(2) by (simp add: grpc_resolve_all_def with_client_Ok [OF assms(1)]
      service_resolve_all_def wire_simps)

lemma grpc_expand_hop_reply:
  assumes "fst (rpc_client N clients r) = Ok svc" "eh_edge_type s \<noteq> Some []" "eh_edge_alias s \<noteq> Some []"
    and "expand_hop ho (psi_generation svc)
      (ExpandHop (s\<lparr>eh_to_label := then_some (unwrap_or_default (eh_to_label s))\<rparr>)) bs = Ok fr"
  shows "fst (grpc_expand_hop ho N clients r (ExpandHop s) bs) =
    Ok \<lparr>fr_local = fr_local fr @ map snd (fr_remote fr), fr_remote = []\<rparr>"
proof -
  have eq: "\<lparr>eh_from_alias = eh_from_alias s, eh_to_alias = eh_to_alias s,
      eh_to_label = then_some (unwrap_or_default (eh_to_label s)), eh_edge_type = eh_edge_type s,
      eh_direction = eh_direction s,
      eh_hops = \<lparr>hr_min = hr_min (eh_hops s), hr_max = hr_max (eh_hops s)\<rparr>,
      eh_filters = eh_filters s, eh_edge_alias = eh_edge_alias s\<rparr> =
    s\<lparr>eh_to_label := then_some (unwrap_or_default (eh_to_label s))\<rparr>"
    by simp
  then show ?thesis
    using assms(4)
    by (simp add: grpc_expand_hop_def with_client_Ok [OF assms(1)] service_expand_hop_def wire_simps
        then_some_unwrap [OF assms(2)] then_some_unwrap [OF assms(3)] comp_def Let_def eq)
qed

lemma check_anti_join_routing:
  "aj_from_alias s = aj_from_alias t \<Longrightarrow> aj_to_alias s = aj_to_alias t \<Longrightarrow>
   aj_direction s = aj_direction t \<Longrightarrow> aj_edge_type s = aj_edge_type t \<Longrightarrow>
   check_anti_join rfc g s conds bs = check_anti_join rfc g t conds bs"
  by (simp add: check_anti_join_def anti_join_candidate_def [abs_def])

lemma grpc_check_anti_join_reply:
  assumes "fst (rpc_client N clients r) = Ok svc" "aj_edge_type s \<noteq> Some []"
    and "check_anti_join rfc (psi_generation svc) s conds bs = Ok (filter P bs)" "length bs \<le> 2 ^ 32"
  shows "fst (grpc_check_anti_join rfc N clients r s conds bs) = Ok (filter P bs)"
proof -
  let ?s = "\<lparr>aj_from_alias = aj_from_alias s, aj_to_alias = aj_to_alias s, aj_direction = aj_direction s,
    aj_edge_alias = then_some (unwrap_or_default (aj_edge_alias s)), aj_edge_type = aj_edge_type s,
    aj_literal_conditions = [], aj_outer_conditions = []\<rparr>"
  have run: "check_anti_join rfc (psi_generation svc) ?s conds bs = Ok (filter P bs)"
    using check_anti_join_routing [of ?s s] assms(3) by simp
  show ?thesis
    using surviving_positions [of "[]" bs P, unfolded append_Nil] assms(4) run
    by (simp add: grpc_check_anti_join_def with_client_Ok [OF assms(1)] service_check_anti_join_def
        wire_simps then_some_unwrap [OF assms(2)] comp_def Let_def)
qed

lemma fmlookup_rekeyed:
  assumes "\<And>a b. K a = K b \<Longrightarrow> a = b" "\<And>k. \<exists>a. k = K a"
  shows "fmlookup (hm_collect (map (\<lambda>(i, p). (K i, f p)) (sorted_list_of_fmap m))) (K a) =
    map_option f (fmlookup m a)"
proof -
  let ?kvs = "map (\<lambda>(i, p). (K i, f p)) (sorted_list_of_fmap m)"
  have "map fst ?kvs = map K (sorted_list_of_fset (fmdom m))"
    by (simp add: comp_def case_prod_beta map_fst_sorted_list_of_fmap [symmetric])
  then have "distinct (map fst ?kvs)" using assms(1) by (auto simp: distinct_map inj_on_def)
  then have "fmlookup (hm_collect ?kvs) (K a) = Some v \<longleftrightarrow> (\<exists>p. fmlookup m a = Some p \<and> v = f p)" for v
    unfolding hm_collect_Some_iff [OF \<open>distinct (map fst ?kvs)\<close>]
    using assms(1) by (auto simp: set_sorted_list_of_fmap)
  then show ?thesis
    by (cases "fmlookup m a"; cases "fmlookup (hm_collect ?kvs) (K a)")
      (auto simp del: fmlookup_hm_collect)
qed

lemma service_node_properties:
  "service_get_node_properties svc (map node_raw ids) = Ok m \<Longrightarrow>
   fmlookup m (node_raw n) =
     (if n \<in> set ids then map_option node_record_to_proto (fmlookup (ig_node_records (psi_generation svc)) n) else None)"
proof -
  let ?f = "\<lambda>i. map_option node_record_to_proto (fmlookup (ig_node_records (psi_generation svc)) (NodeId i))"
  have "(\<lambda>i. map_option (\<lambda>r. (i, node_record_to_proto r)) (fmlookup (ig_node_records (psi_generation svc)) (NodeId i))) =
      (\<lambda>i. map_option (\<lambda>r. (i, r)) (?f i))"
    by (rule ext) (simp add: option.map_comp comp_def)
  moreover assume "service_get_node_properties svc (map node_raw ids) = Ok m"
  ultimately have "fmlookup m (node_raw n) = (if node_raw n \<in> set (map node_raw ids) then ?f (node_raw n) else None)"
    unfolding service_get_node_properties_def using map_of_rev_keyed [of ?f "map node_raw ids" "node_raw n"]
    by (auto simp only: fmlookup_hm_collect res.inject)
  moreover have "node_raw n \<in> set (map node_raw ids) \<longleftrightarrow> n \<in> set ids"
    by (auto dest: NodeId.expand)
  ultimately show ?thesis by simp
qed

lemma service_edge_properties:
  "service_get_edge_properties svc (map edge_raw ids) = Ok m \<Longrightarrow>
   fmlookup m (edge_raw n) =
     (if n \<in> set ids then map_option edge_record_to_proto (fmlookup (ig_edge_records (psi_generation svc)) n) else None)"
proof -
  let ?f = "\<lambda>i. map_option edge_record_to_proto (fmlookup (ig_edge_records (psi_generation svc)) (EdgeId i))"
  have "(\<lambda>i. map_option (\<lambda>r. (i, edge_record_to_proto r)) (fmlookup (ig_edge_records (psi_generation svc)) (EdgeId i))) =
      (\<lambda>i. map_option (\<lambda>r. (i, r)) (?f i))"
    by (rule ext) (simp add: option.map_comp comp_def)
  moreover assume "service_get_edge_properties svc (map edge_raw ids) = Ok m"
  ultimately have "fmlookup m (edge_raw n) = (if edge_raw n \<in> set (map edge_raw ids) then ?f (edge_raw n) else None)"
    unfolding service_get_edge_properties_def using map_of_rev_keyed [of ?f "map edge_raw ids" "edge_raw n"]
    by (auto simp only: fmlookup_hm_collect res.inject)
  moreover have "edge_raw n \<in> set (map edge_raw ids) \<longleftrightarrow> n \<in> set ids"
    by (auto dest: EdgeId.expand)
  ultimately show ?thesis by simp
qed

lemma grpc_node_properties_reply:
  assumes "fst (rpc_client N clients r) = Ok svc"
  shows "\<exists>m. fst (grpc_get_node_properties N clients r ids) = Ok m \<and>
    (\<forall>n. fmlookup m n = (if n \<in> set ids then map_option wire_node (fmlookup (ig_node_records (psi_generation svc)) n) else None))"
proof -
  obtain m where m: "service_get_node_properties svc (map node_raw ids) = Ok m"
    by (simp add: service_get_node_properties_def)
  have "fmlookup (hm_collect (map (\<lambda>(i, p). (NodeId i, proto_node_properties_to_record p)) (sorted_list_of_fmap m))) n =
      (if n \<in> set ids then map_option wire_node (fmlookup (ig_node_records (psi_generation svc)) n) else None)" for n
    using fmlookup_rekeyed [of NodeId proto_node_properties_to_record m "node_raw n"] NodeId.nchotomy
      service_node_properties [OF m, of n]
    by (simp add: option.map_comp comp_def wire_simps)
  then show ?thesis
    by (simp add: grpc_get_node_properties_def with_client_Ok [OF assms] m)
qed

lemma grpc_edge_properties_reply:
  assumes "fst (rpc_client N clients r) = Ok svc"
  shows "\<exists>m. fst (grpc_get_edge_properties N clients r ids) = Ok m \<and>
    (\<forall>n. fmlookup m n = (if n \<in> set ids then map_option wire_edge (fmlookup (ig_edge_records (psi_generation svc)) n) else None))"
proof -
  obtain m where m: "service_get_edge_properties svc (map edge_raw ids) = Ok m"
    by (simp add: service_get_edge_properties_def)
  have "fmlookup (hm_collect (map (\<lambda>(i, p). (EdgeId i, proto_edge_properties_to_record p)) (sorted_list_of_fmap m))) n =
      (if n \<in> set ids then map_option wire_edge (fmlookup (ig_edge_records (psi_generation svc)) n) else None)" for n
    using fmlookup_rekeyed [of EdgeId proto_edge_properties_to_record m "edge_raw n"] EdgeId.nchotomy
      service_edge_properties [OF m, of n]
    by (simp add: option.map_comp comp_def wire_simps)
  then show ?thesis
    by (simp add: grpc_get_edge_properties_def with_client_Ok [OF assms] m)
qed

section \<open>The networked cluster\<close>

record Networked =
  nt_dep :: Deployment
  nt_network :: Network
  nt_clients :: ClientCache

text \<open>
  Every replica routed to for a partition answers, from a generation built for it.
\<close>

definition networked_ok :: "Networked \<Rightarrow> bool" where
  "networked_ok c \<longleftrightarrow>
     ph_n_partitions (dp_hasher (nt_dep c)) \<noteq> 0 \<and> valid_hash_order (dp_order (nt_dep c)) \<and>
     wf_dataset (dp_data (nt_dep c)) \<and>
     (\<forall>p r. pick_replica (dp_map (nt_dep c)) p = Some r \<longrightarrow>
        (\<exists>svc. fst (rpc_client (nt_network c) (nt_clients c) r) = Ok svc \<and>
           built_for (dp_hash (nt_dep c)) (ph_n_partitions (dp_hasher (nt_dep c))) (dp_data (nt_dep c)) p
             (psi_generation svc)))"

definition networked_rpc :: "Networked \<Rightarrow> PartitionRpc" where
  "networked_rpc c = grpc_rpc (dp_order (nt_dep c)) (dp_rfc (nt_dep c)) (nt_network c) (nt_clients c)"

lemma networked_rpc_sel [simp]:
  "rpc_resolve_start (networked_rpc c) r st = fst (grpc_resolve_start (nt_network c) (nt_clients c) r st)"
  "rpc_resolve_all (networked_rpc c) r st = fst (grpc_resolve_all (dp_order (nt_dep c)) (nt_network c) (nt_clients c) r st)"
  "rpc_expand_hop (networked_rpc c) r st bs =
     fst (grpc_expand_hop (dp_order (nt_dep c)) (nt_network c) (nt_clients c) r st bs)"
  "rpc_get_node_properties (networked_rpc c) r ns = fst (grpc_get_node_properties (nt_network c) (nt_clients c) r ns)"
  "rpc_get_edge_properties (networked_rpc c) r es = fst (grpc_get_edge_properties (nt_network c) (nt_clients c) r es)"
  "rpc_check_anti_join (networked_rpc c) r aj conds bs =
     fst (grpc_check_anti_join (dp_rfc (nt_dep c)) (nt_network c) (nt_clients c) r aj conds bs)"
  by (simp_all add: networked_rpc_def grpc_rpc_def)

lemma wire_node_idem [simp]: "wire_node (wire_node r) = wire_node r"
  by (auto simp: wire_node_def intro!: fmap_ext split: option.split)

lemma wire_edge_idem [simp]: "wire_edge (wire_edge r) = wire_edge r"
  by (auto simp: wire_edge_def intro!: fmap_ext split: option.split)

lemma hop_once_label: "hop_once D (s\<lparr>eh_to_label := l\<rparr>) b = hop_once D s b"
  by (auto simp: hop_once_def extend_binding_def split: option.split)

lemma single_hop_label: "single_hop (s\<lparr>eh_to_label := l\<rparr>) = single_hop s"
  by (simp add: single_hop_def)

interpretation networked: partition_cluster networked_rpc nt_dep networked_ok "\<lambda>n. n \<le> 2 ^ 32"
proof
  fix c :: Networked and p r
  let ?d = "nt_dep c" and ?N = "nt_network c" and ?cl = "nt_clients c"
  assume ok: "networked_ok c" and r: "pick_replica (dp_map (nt_dep c)) p = Some r"
  obtain svc where svc: "fst (rpc_client ?N ?cl r) = Ok svc"
    and built: "built_for (dp_hash ?d) (ph_n_partitions (dp_hasher ?d)) (dp_data ?d) p (psi_generation svc)"
    using ok r by (auto simp: networked_ok_def)
  have b: "ph_n_partitions (dp_hasher ?d) \<noteq> 0" "wf_dataset (dp_data ?d)"
    "built_for (dp_hash ?d) (ph_n_partitions (dp_hasher ?d)) (dp_data ?d) p (psi_generation svc)"
    "valid_hash_order (dp_order ?d)"
    using ok built by (auto simp: networked_ok_def)
  show "\<exists>bs. rpc_resolve_start (networked_rpc c) r (ResolveStart a l k v) = Ok bs \<and>
      set bs = binding_from_node a ` {n \<in> start_matches (dp_data ?d) l k v. home ?d n = p}" for a l k v
    using resolve_start_answer [OF b(1-3), of a l k v] grpc_resolve_start_reply [OF svc, of a l k v]
    by (auto simp: homed_home)
  show "\<exists>bs. rpc_resolve_all (networked_rpc c) r (ResolveAll a l) = Ok bs \<and>
      set bs = binding_from_node a ` {n \<in> labelled (dp_data ?d) l. home ?d n = p}" for a l
    using resolve_all_answer [OF b, of a l] grpc_resolve_all_reply [OF svc, of "dp_order ?d" a l]
    by (auto simp: homed_home)
  show "\<exists>m. rpc_get_node_properties (networked_rpc c) r ns = Ok m \<and>
      (\<forall>n. map_option wire_node (fmlookup m n) =
        (if n \<in> set ns \<and> home ?d n = p then map_option wire_node (node_rec (dp_data ?d) n) else None))" for ns
    using grpc_node_properties_reply [OF svc, of ns]
    by (auto simp: node_records_answer [OF b(1-3)] homed_home option.map_comp comp_def)
  show "\<exists>m. rpc_get_edge_properties (networked_rpc c) r es = Ok m \<and>
      (\<forall>i. map_option wire_edge (fmlookup m i) = (if i \<in> set es \<and>
           map_option (home ?d) (edge_source (dp_data ?d) i) = Some p
         then map_option wire_edge (edge_rec (dp_data ?d) i) else None))" for es
    using grpc_edge_properties_reply [OF svc, of es]
    by (auto simp: edge_records_answer [OF b(1-3)] homed_home option.map_comp comp_def)
  show "\<exists>fr. rpc_expand_hop (networked_rpc c) r (ExpandHop s) bs = Ok fr \<and>
      set (fr_local fr) \<union> snd ` set (fr_remote fr) = (\<Union>b \<in> set bs. hop_once (dp_data ?d) s b)"
    if s: "single_hop s" and at: "\<forall>b \<in> set bs. at_partition ?d p (eh_from_alias s) b" for s bs
  proof -
    let ?s = "s\<lparr>eh_to_label := then_some (unwrap_or_default (eh_to_label s))\<rparr>"
    have "\<forall>b \<in> set bs. \<exists>m. fmlookup (b_nodes b) (eh_from_alias ?s) = Some m \<and>
        homed (dp_hash ?d) (ph_n_partitions (dp_hasher ?d)) p m"
      using at by (simp add: at_partition_def homed_home)
    then obtain fr where fr: "expand_hop (dp_order ?d) (psi_generation svc) (ExpandHop ?s) bs = Ok fr"
      "set (fr_local fr) \<union> snd ` set (fr_remote fr) = (\<Union>b \<in> set bs. hop_once (dp_data ?d) ?s b)"
      using expand_hop_answer [OF b, of ?s bs] s by (auto simp: single_hop_label)
    then show ?thesis
      using grpc_expand_hop_reply [OF svc _ _ fr(1)] s by (simp add: single_hop_def hop_once_label)
  qed
  show "rpc_check_anti_join (networked_rpc c) r st conds bs =
      Ok (filter (\<lambda>b. \<not> edge_exists (dp_data ?d) (dp_rfc ?d) (aj_edge_type st)
        (the (fmlookup (b_nodes b) (aj_from_alias st))) (the (fmlookup (b_nodes b) (aj_to_alias st))) conds) bs)"
    if "aj_direction st = Outgoing" "aj_edge_type st \<noteq> Some []" "length bs \<le> 2 ^ 32"
      "\<forall>b \<in> set bs. at_partition ?d p (aj_from_alias st) b \<and>
        (\<exists>n. fmlookup (b_nodes b) (aj_to_alias st) = Some n)" for st conds bs
    using anti_join_answer [OF b(1-3) that(1), of bs] that
    by (auto simp: at_partition_def homed_home intro!: grpc_check_anti_join_reply [OF svc])
qed (auto simp: networked_ok_def)

section \<open>The cache of clients\<close>

text \<open>
  A cached client is the one a new connection would reach. Calls keep this so, and then the
  cache is invisible: every method answers the same from any cache.
\<close>

definition cache_ok :: "Network \<Rightarrow> ClientCache \<Rightarrow> bool" where
  "cache_ok N clients \<longleftrightarrow> fmpred (\<lambda>address client. nw_connect N address = Ok client) clients"

lemma rpc_client_cached:
  assumes "cache_ok N clients"
  shows "fst (rpc_client N clients r) = fst (rpc_client N fmempty r)"
    and "cache_ok N (snd (rpc_client N clients r))"
  using assms
  by (cases "fmlookup clients (re_address r)";
      auto simp: rpc_client_def cache_ok_def dest: fmpredD split: res.split)+

lemma with_client_cached:
  assumes "cache_ok N clients"
  shows "fst (with_client N clients r use) = fst (with_client N fmempty r use)"
    and "cache_ok N (snd (with_client N clients r use))"
  using rpc_client_cached [OF assms, of r] by (simp_all add: with_client_def case_prod_beta)

lemma grpc_method_cached:
  assumes "cache_ok N clients"
  shows "fst (grpc_resolve_start N clients r st) = fst (grpc_resolve_start N fmempty r st)"
    and "fst (grpc_resolve_all ho N clients r st) = fst (grpc_resolve_all ho N fmempty r st)"
    and "fst (grpc_expand_hop ho N clients r st bs) = fst (grpc_expand_hop ho N fmempty r st bs)"
    and "fst (grpc_get_node_properties N clients r ns) = fst (grpc_get_node_properties N fmempty r ns)"
    and "fst (grpc_get_edge_properties N clients r es) = fst (grpc_get_edge_properties N fmempty r es)"
    and "fst (grpc_check_anti_join rfc N clients r aj conds bs) =
      fst (grpc_check_anti_join rfc N fmempty r aj conds bs)"
  by (simp_all add: grpc_resolve_start_def grpc_resolve_all_def grpc_expand_hop_def
      grpc_get_node_properties_def grpc_get_edge_properties_def grpc_check_anti_join_def
      with_client_cached(1) [OF assms] split: PlanStep.split)

lemma grpc_method_keeps_cache:
  assumes "cache_ok N clients"
  shows "cache_ok N (snd (grpc_resolve_start N clients r st))"
    and "cache_ok N (snd (grpc_resolve_all ho N clients r st))"
    and "cache_ok N (snd (grpc_expand_hop ho N clients r st bs))"
    and "cache_ok N (snd (grpc_get_node_properties N clients r ns))"
    and "cache_ok N (snd (grpc_get_edge_properties N clients r es))"
    and "cache_ok N (snd (grpc_check_anti_join rfc N clients r aj conds bs))"
  by (simp_all add: grpc_resolve_start_def grpc_resolve_all_def grpc_expand_hop_def
      grpc_get_node_properties_def grpc_get_edge_properties_def grpc_check_anti_join_def
      with_client_cached(2) [OF assms] assms split: PlanStep.split)

lemma grpc_cached:
  assumes "cache_ok N clients"
  shows "grpc_rpc ho rfc N clients = grpc_rpc ho rfc N fmempty"
  by (simp add: grpc_rpc_def grpc_method_cached [OF assms])

end
