(* ===== verification/Dsl_Validator.thy ===== *)
theory Dsl_Validator
  imports Graph_Spec
begin

text \<open>
  \<open>graph-dsl/src/validator.rs\<close>: the static validation of a query against a schema. Each
  function returns the errors it pushes, in order. The lemmas say what a validated query has,
  and that the plan of a validated query is well scoped.
\<close>

section \<open>Scopes\<close>

record Scope =
  sc_bound_nodes :: "string set"
  sc_node_labels :: "(string, Label) fmap"
  sc_edge_types :: "(string, EdgeType) fmap"

definition empty_scope :: Scope where
  "empty_scope = \<lparr>sc_bound_nodes = {}, sc_node_labels = fmempty, sc_edge_types = fmempty\<rparr>"

definition bind_edge_type :: "EdgePattern \<Rightarrow> Scope \<Rightarrow> Scope" where
  "bind_edge_type edge scope =
     (case (ep_alias edge, ep_edge_type edge) of
        (Some alias, Some edge_type) \<Rightarrow> scope\<lparr>sc_edge_types := fmupd alias edge_type (sc_edge_types scope)\<rparr>
      | _ \<Rightarrow> scope)"

definition bind_pattern_node :: "NodePattern \<Rightarrow> Scope \<Rightarrow> Scope" where
  "bind_pattern_node node scope =
     (let scope' = scope\<lparr>sc_bound_nodes := insert (np_alias node) (sc_bound_nodes scope)\<rparr> in
      case np_label node of
        Some label \<Rightarrow> scope'\<lparr>sc_node_labels := fmupd (np_alias node) label (sc_node_labels scope')\<rparr>
      | None \<Rightarrow> scope')"

section \<open>Properties\<close>

fun operator_compatible :: "ScalarType \<Rightarrow> ComparisonOp \<Rightarrow> bool" where
  "operator_compatible ty op =
     (if op = Eq \<or> op = Ne
      then (case ty of TList _ \<Rightarrow> False | TVector _ \<Rightarrow> False | _ \<Rightarrow> True)
      else (case ty of TInt64 \<Rightarrow> True | TFloat64 \<Rightarrow> True | TTimestamp \<Rightarrow> True | _ \<Rightarrow> False))"

text \<open>The look-up both property checks share, over the declared properties.\<close>

definition validate_property ::
  "PropertyDef list \<Rightarrow> string \<Rightarrow> string \<Rightarrow> ComparisonOp \<Rightarrow> ValidationError list" where
  "validate_property properties owner property op =
     (case find (\<lambda>p. pd_name p = property) properties of
        Some prop \<Rightarrow> if operator_compatible (pd_ty prop) op then [] else [VIncompatibleOperator property]
      | None \<Rightarrow> [VUnknownProperty owner property])"

definition validate_node_property_filter :: "Label \<Rightarrow> PropertyFilter \<Rightarrow> Schema \<Rightarrow> ValidationError list" where
  "validate_node_property_filter label flt schema =
     (case node_def schema label of
        None \<Rightarrow> []
      | Some nd \<Rightarrow> validate_property (nd_properties nd) (label_name label) (pf_property flt) (pf_op flt))"

definition validate_edge_property ::
  "EdgeType \<Rightarrow> string \<Rightarrow> ComparisonOp \<Rightarrow> Schema \<Rightarrow> ValidationError list" where
  "validate_edge_property edge_type property op schema =
     (case edge_def schema edge_type of
        None \<Rightarrow> []
      | Some ed \<Rightarrow> validate_property (ed_properties ed) (edge_type_name edge_type) property op)"

definition validate_property_ref ::
  "Scope \<Rightarrow> Schema \<Rightarrow> string \<Rightarrow> string \<Rightarrow> ComparisonOp \<Rightarrow> ValidationError list" where
  "validate_property_ref scope schema alias property op =
     (case fmlookup (sc_node_labels scope) alias of
        Some label \<Rightarrow>
          validate_node_property_filter label \<lparr>pf_property = property, pf_op = op, pf_value = LBool False\<rparr> schema
      | None \<Rightarrow>
          (case fmlookup (sc_edge_types scope) alias of
             Some edge_type \<Rightarrow> validate_edge_property edge_type property op schema
           | None \<Rightarrow> [VUnknownAlias alias]))"

section \<open>Patterns\<close>

definition validate_node_pattern :: "NodePattern \<Rightarrow> Schema \<Rightarrow> ValidationError list" where
  "validate_node_pattern node schema =
     (case np_label node of
        None \<Rightarrow> []
      | Some label \<Rightarrow>
          (case node_def schema label of
             Some _ \<Rightarrow> concat (map (\<lambda>f. validate_node_property_filter label f schema) (np_property_filters node))
           | None \<Rightarrow> [VUnknownLabel (label_name label)]))"

definition validate_edge_pattern :: "EdgePattern \<Rightarrow> Schema \<Rightarrow> ValidationError list" where
  "validate_edge_pattern edge schema =
     (case ep_edge_type edge of
        Some edge_type \<Rightarrow> if edge_def schema edge_type = None then [VUnknownEdgeType (edge_type_name edge_type)] else []
      | None \<Rightarrow> []) @
     (case ep_alias edge of
        Some alias \<Rightarrow>
          if hr_min (ep_hops edge) \<noteq> 1 \<or> hr_max (ep_hops edge) \<noteq> 1
          then [VEdgeAliasOnVariableLengthHop alias (hr_min (ep_hops edge)) (hr_max (ep_hops edge))] else []
      | None \<Rightarrow> [])"

fun validate_step ::
  "Schema \<Rightarrow> ValidationError list \<times> Scope \<Rightarrow> PatternStep \<Rightarrow> ValidationError list \<times> Scope" where
  "validate_step schema (errors, scope) (StepNode node) =
     (errors @ validate_node_pattern node schema, bind_pattern_node node scope)"
| "validate_step schema (errors, scope) (StepEdge edge) =
     (errors @ validate_edge_pattern edge schema, bind_edge_type edge scope)"

section \<open>Conditions\<close>

definition validate_anchor :: "Scope \<Rightarrow> NodePattern \<Rightarrow> ValidationError list" where
  "validate_anchor outer anchor =
     (if np_alias anchor \<notin> sc_bound_nodes outer \<or> np_label anchor \<noteq> None \<or> np_property_filters anchor \<noteq> []
      then [VNotExistsAnchorNotPreBound (np_alias anchor)] else [])"

definition validate_alias :: "Scope \<Rightarrow> string \<Rightarrow> ValidationError list" where
  "validate_alias scope alias = (if alias \<notin> sc_bound_nodes scope then [VUnknownAlias alias] else [])"

fun validate_where_condition ::
    "WhereCondition \<Rightarrow> Schema \<Rightarrow> Scope \<Rightarrow> bool \<Rightarrow> ValidationError list"
  and validate_not_exists :: "ExistsSubquery \<Rightarrow> Schema \<Rightarrow> Scope \<Rightarrow> ValidationError list" where
  "validate_where_condition (WProperty alias flt) schema scope allow_not_exists =
     validate_property_ref scope schema alias (pf_property flt) (pf_op flt)"
| "validate_where_condition (WAliasComparison left op right) schema scope allow_not_exists =
     validate_alias scope left @ validate_alias scope right"
| "validate_where_condition (WPropertyComparison left op right) schema scope allow_not_exists =
     validate_property_ref scope schema (pr_alias left) (pr_property left) op @
     validate_property_ref scope schema (pr_alias right) (pr_property right) Eq"
| "validate_where_condition (WNotExists subquery) schema scope allow_not_exists =
     (if allow_not_exists then validate_not_exists subquery schema scope else [VNestedNotExists])"
| "validate_not_exists (ExistsSubquery pattern conditions) schema outer =
     (case pattern of
        [StepNode from_node, StepEdge edge, StepNode to_node] \<Rightarrow>
          validate_anchor outer from_node @ validate_anchor outer to_node @
          validate_edge_pattern edge schema @
          (if hr_min (ep_hops edge) \<noteq> 1 \<or> hr_max (ep_hops edge) \<noteq> 1
           then [VEdgeAliasOnVariableLengthHop
                   (case ep_alias edge of Some a \<Rightarrow> a | None \<Rightarrow> ''<unaliased>'')
                   (hr_min (ep_hops edge)) (hr_max (ep_hops edge))] else []) @
          (if ep_direction edge \<noteq> Outgoing then [VNotExistsMustBeOutgoing] else []) @
          concat (map (\<lambda>c. validate_where_condition c schema (bind_edge_type edge outer) False) conditions)
      | _ \<Rightarrow> [VNotExistsWrongShape (length pattern)])"

definition validate_return_item :: "ReturnItem \<Rightarrow> Schema \<Rightarrow> Scope \<Rightarrow> ValidationError list" where
  "validate_return_item item schema scope =
     (case ri_property item of
        None \<Rightarrow>
          if ri_alias item \<notin> sc_bound_nodes scope \<and> ri_alias item |\<notin>| fmdom (sc_edge_types scope)
          then [VUnknownAlias (ri_alias item)] else []
      | Some property \<Rightarrow> validate_property_ref scope schema (ri_alias item) property Eq)"

definition validate_order_by :: "OrderBy \<Rightarrow> Schema \<Rightarrow> Scope \<Rightarrow> ValidationError list" where
  "validate_order_by order_by schema scope =
     validate_property_ref scope schema (ob_alias order_by) (ob_property order_by) Eq"

definition validate :: "Query \<Rightarrow> Schema \<Rightarrow> (ValidationError list, unit) res" where
  "validate query schema =
     (let (errors, scope) = foldl (validate_step schema) ([], empty_scope) (q_pattern query);
          errors = errors
            @ concat (map (\<lambda>c. validate_where_condition c schema scope True) (q_where_conditions query))
            @ concat (map (\<lambda>item. validate_return_item item schema scope) (q_returns query))
            @ (case q_order_by query of Some order_by \<Rightarrow> validate_order_by order_by schema scope | None \<Rightarrow> [])
      in if errors = [] then Ok () else Err errors)"

section \<open>What a scope holds\<close>

lemma foldl_validate_step:
  "fst (foldl (validate_step schema) (errors, scope) steps) =
     errors @ concat (map (\<lambda>s. case s of StepNode n \<Rightarrow> validate_node_pattern n schema
       | StepEdge e \<Rightarrow> validate_edge_pattern e schema) steps)"
  "sc_bound_nodes (snd (foldl (validate_step schema) (errors, scope) steps)) =
     sc_bound_nodes scope \<union> set (node_aliases steps)"
  "fset (fmdom (sc_node_labels (snd (foldl (validate_step schema) (errors, scope) steps)))) \<subseteq>
     fset (fmdom (sc_node_labels scope)) \<union> set (node_aliases steps)"
  "fset (fmdom (sc_edge_types (snd (foldl (validate_step schema) (errors, scope) steps)))) \<subseteq>
     fset (fmdom (sc_edge_types scope)) \<union> set (edge_aliases steps)"
proof (induction steps arbitrary: errors scope)
  case (Cons s steps)
  {
    case 1
    show ?case by (cases s) (simp_all add: Cons.IH)
  next
    case 2
    show ?case
      by (cases s) (auto simp: Cons.IH bind_pattern_node_def bind_edge_type_def Let_def split: option.split)
  next
    case 3
    show ?case
      using Cons.IH(3) [of "fst (validate_step schema (errors, scope) s)" "snd (validate_step schema (errors, scope) s)"]
      by (cases s) (fastforce simp: bind_pattern_node_def bind_edge_type_def Let_def split: option.splits)+
  next
    case 4
    show ?case
      using Cons.IH(4) [of "fst (validate_step schema (errors, scope) s)" "snd (validate_step schema (errors, scope) s)"]
      by (cases s) (fastforce simp: bind_pattern_node_def bind_edge_type_def Let_def split: option.splits)+
  }
qed simp_all

lemma validated_property_ref:
  assumes "validate_property_ref scope schema alias property op = []"
  shows "alias |\<in>| fmdom (sc_node_labels scope) \<or> alias |\<in>| fmdom (sc_edge_types scope)"
  using assms by (auto simp: validate_property_ref_def fmlookup_dom_iff split: option.splits)

section \<open>Plans of validated queries are well scoped\<close>

text \<open>
  The protocol writes an absent name as the empty string; the grammar admits no empty
  identifier, and a schema declares no empty edge type. A \<open>NOT EXISTS\<close> that compares its own
  edge with itself passes validation but has no outer reference to resolve.
\<close>

definition no_empty_names :: "Query \<Rightarrow> Schema \<Rightarrow> bool" where
  "no_empty_names q schema \<longleftrightarrow>
     [] \<notin> set (edge_aliases (q_pattern q)) \<and> edge_def schema (EdgeType []) = None"

fun pattern_edge_alias :: "Pattern \<Rightarrow> string option" where
  "pattern_edge_alias [StepNode _, StepEdge edge, StepNode _] = ep_alias edge"
| "pattern_edge_alias _ = None"

definition compares_with_itself :: "ExistsSubquery \<Rightarrow> bool" where
  "compares_with_itself sq \<longleftrightarrow>
     list_ex (\<lambda>c. case c of
         WPropertyComparison left _ right \<Rightarrow>
           pattern_edge_alias (sub_pattern sq) = Some (pr_alias left) \<and> pr_alias right = pr_alias left
       | _ \<Rightarrow> False) (sub_where sq)"

definition edge_ok :: "EdgePattern \<Rightarrow> bool" where
  "edge_ok e \<longleftrightarrow> ep_edge_type e \<noteq> Some (EdgeType []) \<and> ep_alias e \<noteq> Some [] \<and>
     (ep_alias e \<noteq> None \<longrightarrow> ep_hops e = \<lparr>hr_min = 1, hr_max = 1\<rparr>)"

lemma validated_edge_ok:
  assumes "validate_edge_pattern e schema = []" "edge_def schema (EdgeType []) = None" "ep_alias e \<noteq> Some []"
  shows "edge_ok e"
  using assms by (cases "ep_hops e") (auto simp: validate_edge_pattern_def edge_ok_def split: option.splits if_splits)

lemma edge_type_name_Nil: "edge_type_name z = [] \<longleftrightarrow> z = EdgeType []"
  by (cases z) simp

lemma wf_plan_hops:
  "plan_hops conds a rest = (Ok hops :: ('e, PlanStep list) res) \<Longrightarrow> a \<in> N \<Longrightarrow> (\<And>e. StepEdge e \<in> set rest \<Longrightarrow> edge_ok e) \<Longrightarrow>
   wf_steps (N \<union> set (node_aliases rest)) (E \<union> set (edge_aliases rest)) antis \<Longrightarrow>
   wf_steps N E (hops @ antis)"
proof (induction conds a rest arbitrary: N E hops rule: plan_hops.induct)
  case (2 conds a edge to_node rest)
  from 2(2) obtain hs where hs: "plan_hops conds (np_alias to_node) rest = (Ok hs :: ('e, PlanStep list) res)"
    "hops = ExpandHop (expand_step conds a edge to_node) # hs"
    by (auto simp: res_map_Ok_iff)
  have ok: "edge_ok edge" using 2(4) [of edge] by simp
  have "wf_steps (insert (np_alias to_node) N) (E \<union> set_option (ep_alias edge)) (hs @ antis)"
  proof (rule 2(1) [OF hs(1)])
    show "edge_ok e" if "StepEdge e \<in> set rest" for e using 2(4) that by simp
    show "wf_steps (insert (np_alias to_node) N \<union> set (node_aliases rest))
        (E \<union> set_option (ep_alias edge) \<union> set (edge_aliases rest)) antis"
      using 2(5) by (cases "ep_alias edge") (simp_all add: insert_commute)
  qed simp
  then show ?case
    using 2(3) ok by (auto simp: hs(2) expand_step_def Let_def edge_ok_def edge_type_name_Nil)
qed simp_all

text \<open>The outer references of an anti-join are the other sides of the comparisons.\<close>

definition outer_of :: "string option \<Rightarrow> WhereCondition \<Rightarrow> (string \<times> ComparisonOp \<times> PropertyRef) set" where
  "outer_of inner c =
     (case c of
        WPropertyComparison left op right \<Rightarrow>
          if Some (pr_alias left) = inner then {(pr_property left, op, right)}
          else if Some (pr_alias right) = inner then {(pr_property right, flip_op op, left)} else {}
      | _ \<Rightarrow> {})"

lemma in_outer_of:
  "x \<in> outer_of inner c \<Longrightarrow> \<exists>left op right. c = WPropertyComparison left op right \<and>
     ((Some (pr_alias left) = inner \<and> snd (snd x) = right) \<or>
      (Some (pr_alias left) \<noteq> inner \<and> Some (pr_alias right) = inner \<and> snd (snd x) = left))"
  by (cases c) (auto simp: outer_of_def split: if_splits)

lemma anti_join_condition_step:
  "aj_from_alias (anti_join_condition inner st c) = aj_from_alias st"
  "aj_to_alias (anti_join_condition inner st c) = aj_to_alias st"
  "aj_direction (anti_join_condition inner st c) = aj_direction st"
  "aj_edge_type (anti_join_condition inner st c) = aj_edge_type st"
  "set (aj_outer_conditions (anti_join_condition inner st c)) = set (aj_outer_conditions st) \<union> outer_of inner c"
  by (simp_all add: anti_join_condition_def outer_of_def split: WhereCondition.split)

lemma anti_join_conditions:
  "aj_from_alias (foldl (anti_join_condition inner) st conds) = aj_from_alias st"
  "aj_to_alias (foldl (anti_join_condition inner) st conds) = aj_to_alias st"
  "aj_direction (foldl (anti_join_condition inner) st conds) = aj_direction st"
  "aj_edge_type (foldl (anti_join_condition inner) st conds) = aj_edge_type st"
  "set (aj_outer_conditions (foldl (anti_join_condition inner) st conds)) =
     set (aj_outer_conditions st) \<union> (\<Union>c \<in> set conds. outer_of inner c)"
  by (induction conds arbitrary: st) (simp_all add: anti_join_condition_step Un_assoc)

lemma wf_anti_join:
  assumes "compile_anti_join sq = Ok st" "validate_not_exists sq schema scope = []"
    and "edge_def schema (EdgeType []) = None" "\<not> compares_with_itself sq"
    and scope: "sc_bound_nodes scope = N" "fset (fmdom (sc_node_labels scope)) \<subseteq> N"
      "fset (fmdom (sc_edge_types scope)) \<subseteq> E"
    and rest: "wf_steps N E rest"
  shows "wf_steps N E (st # rest)"
proof -
  obtain pat conds where sq: "sq = ExistsSubquery pat conds" by (cases sq)
  from assms(1) obtain f e t where pat: "pat = [StepNode f, StepEdge e, StepNode t]"
    by (auto simp: compile_anti_join_def sq split: list.splits PatternStep.splits)
  define start where "start = \<lparr>aj_from_alias = np_alias f, aj_to_alias = np_alias t, aj_direction = ep_direction e,
     aj_edge_alias = ep_alias e, aj_edge_type = map_option edge_type_name (ep_edge_type e),
     aj_literal_conditions = [], aj_outer_conditions = []\<rparr>"
  define a where "a = foldl (anti_join_condition (ep_alias e)) start conds"
  have st: "st = AntiJoin a"
    using assms(1) by (simp add: compile_anti_join_def sq pat a_def start_def)
  have valid: "validate_anchor scope f = []" "validate_anchor scope t = []" "validate_edge_pattern e schema = []"
    "ep_direction e = Outgoing"
    "\<And>c. c \<in> set conds \<Longrightarrow> validate_where_condition c schema (bind_edge_type e scope) False = []"
    using assms(2) by (auto simp: sq pat split: if_splits)
  have fields: "aj_from_alias a = np_alias f" "aj_to_alias a = np_alias t" "aj_direction a = ep_direction e"
    "aj_edge_type a = map_option edge_type_name (ep_edge_type e)"
    "set (aj_outer_conditions a) = (\<Union>c \<in> set conds. outer_of (ep_alias e) c)"
    by (simp_all add: a_def anti_join_conditions start_def)
  have bound: "nm \<in> N \<union> E \<or> ep_alias e = Some nm"
    if "validate_property_ref (bind_edge_type e scope) schema nm property op = []" for nm property op
    using validated_property_ref [OF that] scope
    by (auto simp: bind_edge_type_def split: option.splits)
  have "pr_alias (snd (snd x)) \<in> N \<union> E" if x: "x \<in> set (aj_outer_conditions a)" for x
  proof -
    obtain left op right
      where c: "WPropertyComparison left op right \<in> set conds"
      and side: "(Some (pr_alias left) = ep_alias e \<and> snd (snd x) = right) \<or>
        (Some (pr_alias left) \<noteq> ep_alias e \<and> Some (pr_alias right) = ep_alias e \<and> snd (snd x) = left)"
      using x fields(5) in_outer_of [of x "ep_alias e"] by blast
    from valid(5) [OF c] have "pr_alias left \<in> N \<union> E \<or> ep_alias e = Some (pr_alias left)"
      "pr_alias right \<in> N \<union> E \<or> ep_alias e = Some (pr_alias right)"
      using bound by auto
    moreover have "\<not> (ep_alias e = Some (pr_alias left) \<and> pr_alias right = pr_alias left)"
      using assms(4) c by (auto simp: compares_with_itself_def sq pat list_ex_iff)
    ultimately show ?thesis using side by auto
  qed
  moreover have "ep_edge_type e \<noteq> Some (EdgeType [])"
    using valid(3) assms(3) by (auto simp: validate_edge_pattern_def split: if_splits)
  ultimately show ?thesis
    using valid(1,2,4) scope(1) rest
    by (auto simp: st fields(1-4) validate_anchor_def list_all_iff edge_type_name_Nil case_prod_beta split: if_splits)
qed

lemma validate_Ok:
  assumes "validate q schema = Ok ()"
  obtains scope where "sc_bound_nodes scope = set (node_aliases (q_pattern q))"
    "fset (fmdom (sc_node_labels scope)) \<subseteq> set (node_aliases (q_pattern q))"
    "fset (fmdom (sc_edge_types scope)) \<subseteq> set (edge_aliases (q_pattern q))"
    "\<And>e. StepEdge e \<in> set (q_pattern q) \<Longrightarrow> validate_edge_pattern e schema = []"
    "\<And>sq. WNotExists sq \<in> set (q_where_conditions q) \<Longrightarrow> validate_not_exists sq schema scope = []"
proof (rule that)
  let ?r = "foldl (validate_step schema) ([], empty_scope) (q_pattern q)"
  show "sc_bound_nodes (snd ?r) = set (node_aliases (q_pattern q))"
    "fset (fmdom (sc_node_labels (snd ?r))) \<subseteq> set (node_aliases (q_pattern q))"
    "fset (fmdom (sc_edge_types (snd ?r))) \<subseteq> set (edge_aliases (q_pattern q))"
    using foldl_validate_step(2-4) [of schema "[]" empty_scope "q_pattern q"]
    by (simp_all add: empty_scope_def)
  have errors: "fst ?r = []"
    "\<And>c. c \<in> set (q_where_conditions q) \<Longrightarrow> validate_where_condition c schema (snd ?r) True = []"
    using assms by (auto simp: validate_def Let_def case_prod_beta split: if_splits)
  show "validate_edge_pattern e schema = []" if "StepEdge e \<in> set (q_pattern q)" for e
    using errors(1) that unfolding foldl_validate_step(1) by force
  show "validate_not_exists sq schema (snd ?r) = []" if "WNotExists sq \<in> set (q_where_conditions q)" for sq
    using errors(2) [OF that] by simp
qed

lemma edge_aliases_Cons: "StepEdge e \<in> set p \<Longrightarrow> ep_alias e = Some a \<Longrightarrow> a \<in> set (edge_aliases p)"
  by (induction p rule: edge_aliases.induct) (auto split: option.split)

lemma wf_anti_joins:
  assumes "collect_res compile_anti_join sqs = (Ok antis :: ('e, PlanStep list) res)"
    and "\<forall>sq \<in> set sqs. validate_not_exists sq schema scope = [] \<and> \<not> compares_with_itself sq"
    and "edge_def schema (EdgeType []) = None" "sc_bound_nodes scope = N"
      "fset (fmdom (sc_node_labels scope)) \<subseteq> N" "fset (fmdom (sc_edge_types scope)) \<subseteq> E"
  shows "wf_steps N E antis"
  using assms(1,2)
proof (induction sqs arbitrary: antis)
  case (Cons sq sqs)
  from Cons.prems(1) obtain st rest where st: "compile_anti_join sq = (Ok st :: ('e, PlanStep) res)"
    and rest: "collect_res compile_anti_join sqs = (Ok rest :: ('e, PlanStep list) res)" "antis = st # rest"
    by (auto simp: res_bind_Ok_iff res_map_Ok_iff)
  have "wf_steps N E rest" using Cons.IH [OF rest(1)] Cons.prems(2) by simp
  then show ?case
    unfolding rest(2) using Cons.prems(2) by (intro wf_anti_join [OF st _ assms(3) _ assms(4-6)]) simp_all
qed simp

text \<open>What the planner makes of a validated query, the executor can run.\<close>

lemma validated_plan_wf:
  assumes "validate q schema = Ok ()" "plan q = (Ok p :: ('e, QueryPlan) res)" "no_empty_names q schema"
    and "\<forall>sq \<in> set (List.map_filter not_exists_of (q_where_conditions q)). \<not> compares_with_itself sq"
  shows "wf_plan (qp_steps p)"
proof -
  obtain scope where scope: "sc_bound_nodes scope = set (node_aliases (q_pattern q))"
    "fset (fmdom (sc_node_labels scope)) \<subseteq> set (node_aliases (q_pattern q))"
    "fset (fmdom (sc_edge_types scope)) \<subseteq> set (edge_aliases (q_pattern q))"
    and edges: "\<And>e. StepEdge e \<in> set (q_pattern q) \<Longrightarrow> validate_edge_pattern e schema = []"
    and subs: "\<And>sq. WNotExists sq \<in> set (q_where_conditions q) \<Longrightarrow> validate_not_exists sq schema scope = []"
    using validate_Ok [OF assms(1)] by metis
  from assms(2) obtain first rest where pat: "q_pattern q = StepNode first # rest"
    by (auto simp: plan_def split: list.splits PatternStep.splits)
  from assms(2) obtain start hops antis
    where start: "resolve_start_or_all_step first (where_filters (np_alias first) (q_where_conditions q)) =
      (Ok start :: ('e, PlanStep) res)"
    and hops: "plan_hops (q_where_conditions q) (np_alias first) rest = (Ok hops :: ('e, PlanStep list) res)"
    and antis: "collect_res compile_anti_join (List.map_filter not_exists_of (q_where_conditions q)) =
      (Ok antis :: ('e, PlanStep list) res)"
    and p: "qp_steps p = start # hops @ antis"
    by (auto simp: plan_def pat Let_def res_bind_Ok_iff)
  have ok: "edge_ok e" if "StepEdge e \<in> set rest" for e
    using validated_edge_ok [OF edges] edge_aliases_Cons [of e "q_pattern q"] that assms(3)
    by (auto simp: pat no_empty_names_def)
  have "\<forall>sq \<in> set (List.map_filter not_exists_of (q_where_conditions q)). validate_not_exists sq schema scope = []"
    using subs by (auto simp: List.map_filter_def not_exists_of_def split: WhereCondition.splits)
  then have "wf_steps (set (node_aliases (q_pattern q))) (set (edge_aliases (q_pattern q))) antis"
    using assms(3,4) by (intro wf_anti_joins [OF antis _ _ scope]) (auto simp: no_empty_names_def)
  then have "wf_steps {np_alias first} {} (hops @ antis)"
    by (intro wf_plan_hops [OF hops]) (simp_all add: pat ok)
  then show ?thesis
    using start unfolding p
    by (auto simp: resolve_start_or_all_step_def res_bind_Ok_iff res_map_Ok_iff split: option.splits if_splits)
qed

end
