(* ===== verification/Sample_Cluster.thy ===== *)
theory Sample_Cluster
  imports Built_Index Networked_Serving Dsl_Validator
begin

text \<open>
  The deployment of the end-to-end test of \<open>distributed_executor.rs\<close>: the chain
  Alice, Bob, Carol, Dave over \<open>KNOWS\<close>, split over partitions, with one replica each. The
  witnesses of the cross-component properties are evaluated on it.
\<close>

section \<open>The data\<close>

definition sample_schema :: Schema where
  "sample_schema =
     \<lparr>sch_version = ''graph_v1'',
      sch_nodes = fmupd (Label ''Person'')
        \<lparr>nd_label = Label ''Person'', nd_properties =
          [\<lparr>pd_name = ''name'', pd_ty = TString, pd_optional = False, pd_indexed = True\<rparr>,
           \<lparr>pd_name = ''birth_year'', pd_ty = TInt64, pd_optional = False, pd_indexed = True\<rparr>]\<rparr> fmempty,
      sch_edges = fmupd (EdgeType ''KNOWS'')
        \<lparr>ed_edge_type = EdgeType ''KNOWS'', ed_from = Label ''Person'', ed_to = Label ''Person'',
         ed_properties = []\<rparr> fmempty\<rparr>"

definition sample_node :: "u64 \<Rightarrow> string \<Rightarrow> i64 \<Rightarrow> Label \<times> NodeRow" where
  "sample_node i name year =
     (Label ''Person'', \<lparr>nr_id = NodeId i,
        nr_properties = fmupd ''birth_year'' (VInt64 year) (fmupd ''name'' (VString name) fmempty)\<rparr>)"

definition sample_edge :: "u64 \<Rightarrow> u64 \<Rightarrow> u64 \<Rightarrow> EdgeType \<times> EdgeRow" where
  "sample_edge i src dst =
     (EdgeType ''KNOWS'', \<lparr>er_id = EdgeId i, er_src = NodeId src, er_dst = NodeId dst,
        er_properties = fmempty\<rparr>)"

text \<open>Alice and Bob have even ids, Carol and Dave odd ones.\<close>

definition sample_data :: Dataset where
  "sample_data =
     \<lparr>ds_schema = sample_schema,
      ds_nodes = [sample_node 2 ''Alice'' 1970, sample_node 4 ''Bob'' 1990,
                  sample_node 1 ''Carol'' 1995, sample_node 3 ''Dave'' 2000],
      ds_edges = [sample_edge 100 2 4, sample_edge 101 4 1, sample_edge 102 1 3]\<rparr>"

lemma wf_sample_data: "wf_dataset sample_data"
  by (simp add: wf_dataset_def sample_data_def sample_node_def sample_edge_def ds_ids_def index_bounds_def)

section \<open>The deployments\<close>

definition sample_endpoint :: "u32 \<Rightarrow> ReplicaEndpoint" where
  "sample_endpoint p =
     \<lparr>re_replica = ReplicaId (''partition-'' @ show_nat (unat p)),
      re_address = ''127.0.0.1:'' @ show_nat (7001 + unat p), re_healthy = True\<rparr>"

definition sample_deployment :: "u32 \<Rightarrow> PartitionMap \<Rightarrow> Deployment" where
  "sample_deployment n m =
     \<lparr>dp_hash = (\<lambda>x. x), dp_order = insertion_order, dp_rfc = (\<lambda>_. None),
      dp_hasher = \<lparr>ph_n_partitions = n\<rparr>, dp_map = m, dp_data = sample_data\<rparr>"

definition one_partition :: PartitionMap where
  "one_partition = fmupd (PartitionId 0) [sample_endpoint 0] fmempty"

definition two_partitions :: PartitionMap where
  "two_partitions = fmupd (PartitionId 1) [sample_endpoint 1] one_partition"

text \<open>The generation a replica of partition \<open>p\<close> of \<open>n\<close> has built.\<close>

definition sample_generation :: "u32 \<Rightarrow> u32 \<Rightarrow> IndexGeneration" where
  "sample_generation n p =
     (case assemble (\<lambda>x. x) sample_schema n 0 (PartitionId p) fmempty
        (ds_nodes sample_data) (ds_edges sample_data) :: (RebuildError, IndexGeneration) res of Ok g \<Rightarrow> g)"

lemma built_sample_generation:
  assumes "n \<noteq> 0"
  shows "built_for (\<lambda>x. x) n sample_data (PartitionId p) (sample_generation n p)"
proof -
  have b: "index_bounds (ds_nodes sample_data) (ds_edges sample_data)"
    using wf_sample_data by (simp add: wf_dataset_def)
  obtain g where g: "assemble (\<lambda>x. x) sample_schema n 0 (PartitionId p) fmempty
      (ds_nodes sample_data) (ds_edges sample_data) = (Ok g :: (RebuildError, IndexGeneration) res)"
    by (rule assemble_Ok [OF assms b, where schema = sample_schema and now = 0 and part = "PartitionId p"
        and snaps = fmempty and h = "\<lambda>x. x" and ?'f = RebuildError and ?'e = ExecutionError])
      (rule that, assumption)
  have "ds_schema sample_data = sample_schema" by (simp add: sample_data_def)
  with g show ?thesis
    unfolding built_for_def by (intro exI [of _ 0] exI [of _ fmempty]) (simp add: sample_generation_def)
qed

definition sample_gens :: "u32 \<Rightarrow> ReplicaEndpoint \<Rightarrow> IndexGeneration" where
  "sample_gens n r = sample_generation n (if r = sample_endpoint 0 then 0 else 1)"

definition sample_cluster :: "u32 \<Rightarrow> PartitionMap \<Rightarrow> InProcess" where
  "sample_cluster n m = \<lparr>ip_dep = sample_deployment n m, ip_gens = sample_gens n\<rparr>"

lemma sample_endpoints_differ: "sample_endpoint 1 \<noteq> sample_endpoint 0"
  by (simp add: sample_endpoint_def show_nat.simps digit_char_def)

lemma pick_sample:
  "pick_replica one_partition p = (if p = PartitionId 0 then Some (sample_endpoint 0) else None)"
  "pick_replica two_partitions p = (if p = PartitionId 0 then Some (sample_endpoint 0)
     else if p = PartitionId 1 then Some (sample_endpoint 1) else None)"
  by (auto simp: pick_replica_def healthy_replicas_def one_partition_def two_partitions_def
      sample_endpoint_def)

lemma sample_cluster_sel [simp]:
  "ip_dep (sample_cluster n m) = sample_deployment n m" "ip_gens (sample_cluster n m) = sample_gens n"
  "dp_hash (sample_deployment n m) = (\<lambda>x. x)" "dp_order (sample_deployment n m) = insertion_order"
  "dp_rfc (sample_deployment n m) = (\<lambda>_. None)"
  "dp_hasher (sample_deployment n m) = \<lparr>ph_n_partitions = n\<rparr>" "dp_map (sample_deployment n m) = m"
  "dp_data (sample_deployment n m) = sample_data"
  by (simp_all add: sample_cluster_def sample_deployment_def)

text \<open>One partition, two partitions, and two partitions of which the second is down.\<close>

lemma sample_clusters_ok:
  "in_process_ok (sample_cluster 1 one_partition)"
  "in_process_ok (sample_cluster 2 two_partitions)"
  "in_process_ok (sample_cluster 2 one_partition)"
  by (auto simp: in_process_ok_def cluster_ok_def wf_sample_data pick_sample sample_gens_def
      sample_endpoints_differ built_sample_generation split: if_splits)

lemma less_two: "(p :: u32) < 2 \<longleftrightarrow> p = 0 \<or> p = 1"
proof
  assume "p < 2"
  then have "unat p < 2" by (simp add: word_less_nat_alt)
  then have "unat p = 0 \<or> unat p = 1" by auto
  then show "p = 0 \<or> p = 1" by (simp add: word_unat_eq_iff)
qed auto

lemma sample_fully_available:
  "fully_available (sample_deployment 1 one_partition)"
  "fully_available (sample_deployment 2 two_partitions)"
  by (auto simp: fully_available_def pick_sample less_two)

section \<open>A plan\<close>

text \<open>
  \<open>MATCH (p:Person {name: "Alice"})-[:KNOWS*1..3]->(friend:Person)
  WHERE friend.birth_year > 1990\<close>.
\<close>

definition friends_plan :: QueryPlan where
  "friends_plan =
     \<lparr>qp_steps =
        [ResolveStart ''p'' ''Person'' ''name'' (KString ''Alice''),
         ExpandHop \<lparr>eh_from_alias = ''p'', eh_to_alias = ''friend'', eh_to_label = Some ''Person'',
           eh_edge_type = Some ''KNOWS'', eh_direction = Outgoing, eh_hops = \<lparr>hr_min = 1, hr_max = 3\<rparr>,
           eh_filters = [\<lparr>pf_property = ''birth_year'', pf_op = Gt, pf_value = LInt64 1990\<rparr>],
           eh_edge_alias = None\<rparr>],
      qp_project = [\<lparr>ri_alias = ''friend'', ri_property = None\<rparr>]\<rparr>"

lemma wf_friends_plan: "wf_plan (qp_steps friends_plan)"
  by (simp add: friends_plan_def)

text \<open>What the plan means: Carol and Dave. Bob was born in 1990.\<close>

definition friend_binding :: "u64 \<Rightarrow> u64 \<Rightarrow> Binding" where
  "friend_binding p friend = bind_node ''friend'' (NodeId friend) (binding_from_node ''p'' (NodeId p))"

lemma sample_links:
  "links sample_data Outgoing (Some ''KNOWS'') (NodeId i) =
     (if i = 2 then [(EdgeId 100, NodeId 4)] else if i = 4 then [(EdgeId 101, NodeId 1)]
      else if i = 1 then [(EdgeId 102, NodeId 3)] else [])"
  by (simp add: links_def sample_data_def sample_edge_def edge_owner_def edge_far_def edge_type_is_def)

lemma friends_meaning:
  "spec_plan sample_data (\<lambda>_. True) (\<lambda>_. None) (qp_steps friends_plan) =
     {friend_binding 2 1, friend_binding 2 3}"
proof -
  have start: "start_matches sample_data ''Person'' ''name'' (KString ''Alice'') = {NodeId 2}"
    by (auto simp: start_matches_def indexed_property_def row_has_key_def node_def_def sample_data_def
        sample_schema_def sample_node_def)
  have depths: "hop_depths \<lparr>hr_min = 1, hr_max = 3\<rparr> = [1, 2, 3]"
    by (simp add: hop_depths_def upt_rec)
  let ?s = "\<lparr>eh_from_alias = ''p'', eh_to_alias = ''friend'', eh_to_label = Some ''Person'',
    eh_edge_type = Some ''KNOWS'', eh_direction = Outgoing, eh_hops = \<lparr>hr_min = 1, hr_max = 3\<rparr>,
    eh_filters = [\<lparr>pf_property = ''birth_year'', pf_op = Gt, pf_value = LInt64 1990\<rparr>], eh_edge_alias = None\<rparr>"
  have "walk_ends sample_data (\<lambda>_. True) ?s (Suc 0) (NodeId 2) = {NodeId 4}"
    "walk_ends sample_data (\<lambda>_. True) ?s (Suc (Suc 0)) (NodeId 2) = {NodeId 1}"
    "walk_ends sample_data (\<lambda>_. True) ?s (Suc (Suc (Suc 0))) (NodeId 2) = {NodeId 3}"
    by (simp_all add: sample_links)
  then have walks: "walk_ends sample_data (\<lambda>_. True) ?s 1 (NodeId 2) = {NodeId 4}"
    "walk_ends sample_data (\<lambda>_. True) ?s 2 (NodeId 2) = {NodeId 1}"
    "walk_ends sample_data (\<lambda>_. True) ?s 3 (NodeId 2) = {NodeId 3}"
    by (simp_all only: One_nat_def numeral_2_eq_2 numeral_3_eq_3)
  have hop: "spec_hop sample_data (\<lambda>_. True) ?s (binding_from_node ''p'' (NodeId 2)) =
      {friend_binding 2 4, friend_binding 2 1, friend_binding 2 3}"
    by (simp add: spec_hop_def depths walks sample_links friend_binding_def, blast)
  have pass: "spec_passes sample_data (\<lambda>_. True) (\<lambda>_. None) ?s (friend_binding 2 i) \<longleftrightarrow> i = 1 \<or> i = 3" for i
    by (simp add: spec_passes_def friend_binding_def node_rec_def sample_data_def sample_node_def
        node_record_entry_def evaluate_filter_def literal_matches_def literal_ordering_def)
  have "spec_plan sample_data (\<lambda>_. True) (\<lambda>_. None) (qp_steps friends_plan) =
      {b \<in> spec_hop sample_data (\<lambda>_. True) ?s (binding_from_node ''p'' (NodeId 2)).
        spec_passes sample_data (\<lambda>_. True) (\<lambda>_. None) ?s b}"
    by (simp add: friends_plan_def start spec_expand_def)
  also have "\<dots> = {friend_binding 2 1, friend_binding 2 3}"
    unfolding hop using pass [of 4] pass [of 1] pass [of 3] by auto
  finally show ?thesis .
qed

section \<open>The query\<close>

definition friends_query :: Query where
  "friends_query =
     \<lparr>q_pattern =
        [StepNode \<lparr>np_alias = ''p'', np_label = Some (Label ''Person''),
           np_property_filters = [\<lparr>pf_property = ''name'', pf_op = Eq, pf_value = LString ''Alice''\<rparr>]\<rparr>,
         StepEdge \<lparr>ep_alias = None, ep_edge_type = Some (EdgeType ''KNOWS''), ep_direction = Outgoing,
           ep_hops = \<lparr>hr_min = 1, hr_max = 3\<rparr>\<rparr>,
         StepNode \<lparr>np_alias = ''friend'', np_label = Some (Label ''Person''), np_property_filters = []\<rparr>],
      q_where_conditions =
        [WProperty ''friend'' \<lparr>pf_property = ''birth_year'', pf_op = Gt, pf_value = LInt64 1990\<rparr>],
      q_returns = [\<lparr>ri_alias = ''friend'', ri_property = None\<rparr>],
      q_order_by = None, q_limit = None\<rparr>"

lemma validate_friends_query: "validate friends_query sample_schema = Ok ()"
  by (simp add: validate_def friends_query_def sample_schema_def validate_node_pattern_def
      validate_edge_pattern_def bind_pattern_node_def bind_edge_type_def node_def_def edge_def_def
      validate_property_ref_def validate_node_property_filter_def validate_property_def
      validate_return_item_def empty_scope_def)

lemma plan_friends_query: "plan friends_query = Ok friends_plan"
  by (simp add: plan_def friends_query_def friends_plan_def resolve_start_or_all_step_def
      start_filter_def where_filters_def where_filter_on_def List.map_filter_simps not_exists_of_def
      expand_step_def)

section \<open>The deployment over the network\<close>

definition sample_network :: Network where
  "sample_network =
     \<lparr>nw_connect = (\<lambda>address.
        if address = re_address (sample_endpoint 0)
        then Ok \<lparr>psi_generation = sample_generation 2 0, psi_partition = PartitionId 0\<rparr>
        else if address = re_address (sample_endpoint 1)
        then Ok \<lparr>psi_generation = sample_generation 2 1, psi_partition = PartitionId 1\<rparr>
        else Err ''connection refused''),
      nw_show_status = st_message, nw_aborted = internal ''handler panicked''\<rparr>"

definition sample_networked :: Networked where
  "sample_networked =
     \<lparr>nt_dep = sample_deployment 2 two_partitions, nt_network = sample_network, nt_clients = fmempty\<rparr>"

lemma sample_addresses_differ: "re_address (sample_endpoint 1) \<noteq> re_address (sample_endpoint 0)"
  by (simp add: sample_endpoint_def show_nat.simps digit_char_def)

lemma sample_networked_sel [simp]:
  "nt_dep sample_networked = sample_deployment 2 two_partitions"
  "nt_network sample_networked = sample_network" "nt_clients sample_networked = fmempty"
  by (simp_all add: sample_networked_def)

lemma sample_networked_ok: "networked_ok sample_networked"
  using sample_addresses_differ
  by (auto simp: networked_ok_def wf_sample_data pick_sample rpc_client_def sample_network_def
      built_sample_generation split: if_splits)

section \<open>A catalog\<close>

text \<open>A column is its list of values; the catalog holds one person and no edge.\<close>

definition int64_slot :: "PropertyValue \<Rightarrow> i64" where
  "int64_slot v = (case v of VInt64 i \<Rightarrow> i | _ \<Rightarrow> 0)"

definition string_slot :: "PropertyValue \<Rightarrow> string" where
  "string_slot v = (case v of VString s \<Rightarrow> s | _ \<Rightarrow> [])"

definition sample_arrow :: "PropertyValue list arrow_ops" where
  "sample_arrow =
     \<lparr>arr_is_null = (\<lambda>a i. a ! i = VNull), arr_len = length,
      as_Int64Array = (\<lambda>a. if list_all (\<lambda>v. \<exists>i. v = VInt64 i) a then Some (\<lambda>i. int64_slot (a ! i)) else None),
      as_Float64Array = (\<lambda>_. None), as_BooleanArray = (\<lambda>_. None),
      as_StringArray = (\<lambda>a. if list_all (\<lambda>v. \<exists>s. v = VString s) a then Some (\<lambda>i. string_slot (a ! i)) else None),
      as_TimestampMicrosecondArray = (\<lambda>_. None), as_BinaryArray = (\<lambda>_. None), as_ListArray = (\<lambda>_. None)\<rparr>"

definition people_batch :: "PropertyValue list RecordBatch" where
  "people_batch =
     \<lparr>column_by_name = (\<lambda>c. if c = ''node_id'' then Some [VInt64 2] else if c = ''name'' then Some [VString ''Alice'']
        else if c = ''birth_year'' then Some [VInt64 1970] else None),
      num_rows = 1\<rparr>"

definition sample_catalog :: "PropertyValue list catalog_ops" where
  "sample_catalog =
     \<lparr>cat_load_table = (\<lambda>t. Ok t), cat_current_snapshot = (\<lambda>_. Some 7),
      cat_scan = (\<lambda>t _. Ok (if t = ''nodes_person'' then [Ok people_batch] else []))\<rparr>"

definition sample_builder :: IcebergIndexBuilder where
  "sample_builder =
     \<lparr>ib_reader = IcebergCatalogReader sample_arrow sample_catalog, ib_schema = sample_schema, ib_n_partitions = 1\<rparr>"

definition built_sample :: IndexGeneration where
  "built_sample = (case build (\<lambda>x. x) 0 sample_builder (PartitionId 0) [Label ''Person''] of Ok g \<Rightarrow> g)"

lemma sample_table_names:
  "node_table_name (Label ''Person'') = ''nodes_person''" "edge_table_name (EdgeType ''KNOWS'') = ''edges_knows''"
  by (simp_all add: node_table_name_def edge_table_name_def to_lowercase_def, code_simp+)

lemma sample_reader [simp]:
  "latest_snapshot (ib_reader sample_builder) t = Ok (SnapshotId 7)"
  "scan_nodes (ib_reader sample_builder) = catalog_scan_nodes sample_arrow sample_catalog"
  "scan_edges (ib_reader sample_builder) = catalog_scan_edges sample_arrow sample_catalog"
  "ib_schema sample_builder = sample_schema" "ib_n_partitions sample_builder = 1"
  by (simp_all add: sample_builder_def IcebergCatalogReader_def catalog_latest_snapshot_def load_table_def
      sample_catalog_def)

lemma people_rows: "batch_to_node_rows sample_arrow (Ok people_batch)
    (the (node_def sample_schema (Label ''Person''))) = [Ok (snd (sample_node 2 ''Alice'' 1970))]"
  by (simp add: batch_to_node_rows_def people_batch_def sample_schema_def node_def_def read_id_def
      read_properties_def read_property_value.simps sample_arrow_def int64_slot_def string_slot_def
      downcast_def sample_node_def hm_collect_def)

lemma scan_people: "scan_label sample_builder (fmempty, []) (Label ''Person'') =
    Ok (fmupd ''nodes_person'' (SnapshotId 7) fmempty, [sample_node 2 ''Alice'' 1970])"
proof -
  have "node_def sample_schema (Label ''Person'') \<noteq> None" by (simp add: sample_schema_def node_def_def)
  then obtain nd where nd: "node_def sample_schema (Label ''Person'') = Some nd" by blast
  show ?thesis
    using people_rows
    by (simp add: scan_label_def sample_table_names catalog_scan_nodes_def arrow_stream_def load_table_def
       sample_catalog_def nd sample_node_def)
qed

lemma scan_knows: "fold_res (scan_edge_type sample_builder) (s, [])
    (map snd (sorted_list_of_fmap (sch_edges sample_schema))) = Ok (fmupd ''edges_knows'' (SnapshotId 7) s, [])"
  by (simp add: sorted_list_of_fmap_def sorted_list_of_fset.rep_eq scan_edge_type_def sample_table_names catalog_scan_edges_def
     arrow_stream_def load_table_def sample_catalog_def sample_schema_def edge_def_def)

lemma build_sample:
  "build (\<lambda>x. x) 0 sample_builder (PartitionId 0) [Label ''Person''] = Ok built_sample"
  "fmlookup (ig_node_records built_sample) (NodeId 2) =
     Some \<lparr>nrec_label = Label ''Person'', nrec_properties = nr_properties (snd (sample_node 2 ''Alice'' 1970))\<rparr>"
proof -
  let ?s = "fmupd ''edges_knows'' (SnapshotId 7) (fmupd ''nodes_person'' (SnapshotId 7) fmempty)"
  have eq: "build (\<lambda>x. x) 0 sample_builder (PartitionId 0) [Label ''Person''] =
      assemble (\<lambda>x. x) sample_schema 1 0 (PartitionId 0) ?s [sample_node 2 ''Alice'' 1970] []"
    by (simp add: build_def scan_people scan_knows)
  obtain g where g: "assemble (\<lambda>x. x) sample_schema 1 0 (PartitionId 0) ?s [sample_node 2 ''Alice'' 1970] [] =
      (Ok g :: (RebuildError, IndexGeneration) res)"
    by (rule assemble_Ok [where np = 1 and schema = sample_schema and now = 0 and part = "PartitionId 0"
        and snaps = ?s and h = "\<lambda>x. x" and ?'f = RebuildError and ?'e = ExecutionError
        and nodes = "[sample_node 2 ''Alice'' 1970]" and edges = "[]"])
      (simp_all add: index_bounds_def)
  then show ok: "build (\<lambda>x. x) 0 sample_builder (PartitionId 0) [Label ''Person''] = Ok built_sample"
    by (simp add: built_sample_def eq)
  show "fmlookup (ig_node_records built_sample) (NodeId 2) =
     Some \<lparr>nrec_label = Label ''Person'', nrec_properties = nr_properties (snd (sample_node 2 ''Alice'' 1970))\<rparr>"
    using assemble_records(1) [OF ok [unfolded eq]]
    by (simp add: local_nodes_def sample_node_def node_record_entry_def)
qed

lemma sample_data_schema [simp]: "ds_schema sample_data = sample_schema"
  by (simp add: sample_data_def)

lemma small_friends_plan: "small_plan P D up rfc (qp_steps friends_plan)"
  by (simp add: friends_plan_def)

lemma friends_query_names:
  "no_empty_names friends_query sample_schema"
  "WNotExists sq \<in> set (q_where_conditions friends_query) \<longrightarrow> \<not> compares_with_itself sq"
  by (simp_all add: no_empty_names_def friends_query_def sample_schema_def edge_def_def)

section \<open>A pod\<close>

definition sample_pod :: Pod where
  "sample_pod =
     \<lparr>pod_name = Some ''partition-node-0'',
      pod_status = Some \<lparr>pst_pod_ip = Some ''10.0.0.7'', pst_conditions = Some [(''Ready'', ''True'')]\<rparr>,
      pod_annotations = Some (fmupd PARTITIONS_ANNOTATION ''0'' fmempty)\<rparr>"

lemma sample_pod_partitions: "pod_partitions sample_pod = [PartitionId 0]"
proof -
  have "split_on CHR '','' ''0'' = [''0'']" by simp
  moreover have "parse_u32 (trim ''0'') = Some 0"
    by (simp add: parse_u32_def trim_def is_space_def parse_unsigned_def is_ascii_digit_def digit_val_def)
  ultimately show ?thesis by (simp add: pod_partitions_def sample_pod_def List.map_filter_simps)
qed

lemma sample_pod_serves:
  "\<exists>m r. kubernetes_current_map Some 7000 (Ok [sample_pod]) = Ok m \<and> pick_replica m (PartitionId 0) = Some r"
proof -
  obtain r where r: "pod_to_replica_endpoint Some sample_pod 7000 = Some r"
    by (simp add: pod_to_replica_endpoint_def sample_pod_def)
  then have healthy: "re_healthy r" by (auto simp: pod_to_replica_endpoint_def sample_pod_def pod_is_ready_def)
  have "kubernetes_current_map Some 7000 (Ok [sample_pod]) = Ok (fmupd (PartitionId 0) [r] fmempty)"
    using r by (simp add: kubernetes_current_map_def add_pod_def sample_pod_partitions hm_push_def)
  moreover have "pick_replica (fmupd (PartitionId 0) [r] fmempty) (PartitionId 0) = Some r"
    using healthy by (simp add: pick_replica_def healthy_replicas_def)
  ultimately show ?thesis by blast
qed

section \<open>A dangling edge\<close>

text \<open>One node, and an edge to a node that no table holds.\<close>

definition dangling_data :: Dataset where
  "dangling_data =
     \<lparr>ds_schema = sample_schema, ds_nodes = [sample_node 1 ''Carol'' 1995],
      ds_edges = [sample_edge 102 1 4]\<rparr>"

definition dangling_generation :: "u32 \<Rightarrow> u32 \<Rightarrow> (RebuildError, IndexGeneration) res" where
  "dangling_generation n p =
     assemble (\<lambda>x. x) sample_schema n 0 (PartitionId p) fmempty (ds_nodes dangling_data) (ds_edges dangling_data)"

lemma dangling_neighbors:
  assumes "n \<noteq> 0" "home_of (\<lambda>x. x) n (NodeId 1) = p"
  shows "\<exists>g. dangling_generation n p = Ok g \<and>
    out_neighbors (ig_topology g) (NodeId 1) =
      (Ok [\<lparr>ae_edge_id = EdgeId 102, ae_edge_type = EdgeType ''KNOWS'', ae_dst_local = None,
        ae_dst_remote = (if home_of (\<lambda>x. x) n (NodeId 4) = p then None
          else Some \<lparr>rr_partition = PartitionId (home_of (\<lambda>x. x) n (NodeId 4)), rr_node = NodeId 4\<rparr>)\<rparr>] ::
        (ExecutionError, _) res)"
proof -
  have b: "index_bounds (ds_nodes dangling_data) (ds_edges dangling_data)"
    by (simp add: dangling_data_def index_bounds_def)
  obtain g where g: "assemble (\<lambda>x. x) sample_schema n 0 (PartitionId p) fmempty
      (ds_nodes dangling_data) (ds_edges dangling_data) = (Ok g :: (RebuildError, IndexGeneration) res)"
    "\<And>m. out_neighbors (ig_topology g) m = (Ok (if m \<in> local_ids (\<lambda>x. x) n (PartitionId p) (ds_nodes dangling_data)
          then map (adjacency_entry (\<lambda>x. x) n (PartitionId p)
            (local_ids (\<lambda>x. x) n (PartitionId p) (ds_nodes dangling_data)) True) (edges_at True m (ds_edges dangling_data))
          else []) :: (ExecutionError, _) res)"
    by (rule assemble_Ok [OF assms(1) b, where schema = sample_schema and now = 0 and part = "PartitionId p"
        and snaps = fmempty and h = "\<lambda>x. x" and ?'f = RebuildError and ?'e = ExecutionError])
      (rule that, assumption+)
  then show ?thesis
    using assms(2) unfolding dangling_generation_def
    by (intro exI [of _ g])
      (auto simp: local_ids_iff dangling_data_def sample_node_def sample_edge_def edges_at_def
        adjacency_entry_def edge_owner_def edge_far_def Let_def)
qed

end
