(* ===== verification/Rust_Floats.thy ===== *)
theory Rust_Floats
  imports Rust_Prelude "HOL-Library.Log_Nat"
begin

text \<open>
  \<open>str::parse::<f64>\<close>: the syntax the standard library accepts, and the correctly rounded
  (half to even) double of a decimal number, as its IEEE-754 bits.
\<close>

section \<open>Rounding\<close>

text \<open>\<open>num / den\<close> to the nearest natural, ties to even.\<close>

definition round_half_even :: "nat \<Rightarrow> nat \<Rightarrow> nat" where
  "round_half_even num den =
     (let q = num div den; r = num mod den in
      if 2 * r < den \<or> (2 * r = den \<and> even q) then q else q + 1)"

text \<open>The exponent \<open>e\<close> with \<open>2 ^ e \<le> num / den < 2 ^ (e + 1)\<close>, for positive arguments.\<close>

definition ratio_exponent :: "nat \<Rightarrow> nat \<Rightarrow> int" where
  "ratio_exponent num den =
     (let k = int (floorlog 2 num) - int (floorlog 2 den) in
      if den * 2 ^ nat k \<le> num * 2 ^ nat (- k) then k else k - 1)"

definition F64_INFINITY :: nat where
  "F64_INFINITY = 0x7FF0000000000000"

text \<open>
  The bits of the magnitude: a multiple of \<open>2 ^ q\<close>, with \<open>q\<close> the weight of the last place of
  53 significant bits, or of the subnormals.
\<close>

definition magnitude_bits :: "nat \<Rightarrow> nat \<Rightarrow> nat" where
  "magnitude_bits num den =
     (if num = 0 then 0
      else let q = max (ratio_exponent num den - 52) (- 1074);
               m = round_half_even (num * 2 ^ nat (- q)) (den * 2 ^ nat q)
           in min F64_INFINITY (nat (q + 1074) * 2 ^ 52 + m))"

definition f64_of_decimal :: "bool \<Rightarrow> nat \<Rightarrow> int \<Rightarrow> f64" where
  "f64_of_decimal negative digits exp10 =
     of_nat ((if negative then 2 ^ 63 else 0) +
       magnitude_bits (digits * 10 ^ nat exp10) (10 ^ nat (- exp10)))"

section \<open>Syntax\<close>

definition to_lower_ascii :: "char \<Rightarrow> char" where
  "to_lower_ascii c =
     (let n = of_char c :: nat in if 65 \<le> n \<and> n \<le> 90 then char_of (n + 32) else c)"

text \<open>An optional sign, and the rest.\<close>

fun split_sign :: "string \<Rightarrow> bool \<times> string" where
  "split_sign [] = (False, [])"
| "split_sign (c # cs) =
     (if c = CHR ''-'' then (True, cs) else if c = CHR ''+'' then (False, cs) else (False, c # cs))"

text \<open>\<open>e\<close> or \<open>E\<close>, an optional sign, digits; nothing is exponent 0.\<close>

definition parse_exponent :: "string \<Rightarrow> int option" where
  "parse_exponent s =
     (case s of
        [] \<Rightarrow> Some 0
      | c # cs \<Rightarrow>
          (case split_sign cs of
             (negative, ds) \<Rightarrow>
               if (c = CHR ''e'' \<or> c = CHR ''E'') \<and> ds \<noteq> [] \<and> list_all is_ascii_digit ds
               then Some (if negative then - int (digits_value 0 ds) else int (digits_value 0 ds))
               else None))"

definition parse_number :: "bool \<Rightarrow> string \<Rightarrow> f64 option" where
  "parse_number negative s =
     (let int_part = takeWhile is_ascii_digit s;
          rest = dropWhile is_ascii_digit s;
          (frac_part, rest) =
            (case rest of
               c # cs \<Rightarrow> if c = CHR ''.'' then (takeWhile is_ascii_digit cs, dropWhile is_ascii_digit cs)
                         else ([], rest)
             | [] \<Rightarrow> ([], []))
      in if int_part = [] \<and> frac_part = [] then None
         else map_option (\<lambda>e. f64_of_decimal negative (digits_value 0 (int_part @ frac_part))
                                (e - int (length frac_part)))
                (parse_exponent rest))"

definition parse_f64 :: "string \<Rightarrow> f64 option" where
  "parse_f64 s =
     (case split_sign s of
        (negative, body) \<Rightarrow>
          (let sign = (if negative then 2 ^ 63 else 0); word = map to_lower_ascii body in
           if word = ''inf'' \<or> word = ''infinity'' then Some (of_nat (sign + F64_INFINITY))
           else if word = ''nan'' then Some (of_nat (sign + 0x7FF8000000000000))
           else parse_number negative body))"

section \<open>What it yields\<close>

text \<open>A decimal number never rounds to a NaN.\<close>

lemma magnitude_bits_le: "magnitude_bits num den \<le> F64_INFINITY"
  by (simp add: magnitude_bits_def F64_INFINITY_def Let_def)

lemma f64_of_decimal_magnitude:
  "f64_magnitude (f64_of_decimal negative digits e) =
     magnitude_bits (digits * 10 ^ nat e) (10 ^ nat (- e))"
proof -
  let ?m = "magnitude_bits (digits * 10 ^ nat e) (10 ^ nat (- e))"
  have m: "?m < 2 ^ 63" using magnitude_bits_le [of "digits * 10 ^ nat e" "10 ^ nat (- e)"]
    by (simp add: F64_INFINITY_def)
  have "take_bit 63 (of_nat ((if negative then 2 ^ 63 else 0) + ?m) :: f64) = of_nat ?m"
  proof -
    have "take_bit 63 ((if negative then 2 ^ 63 else 0) + ?m) = ?m"
      using m by (auto simp: take_bit_eq_mod)
    then show ?thesis by (simp only: take_bit_of_nat)
  qed
  then show ?thesis
    using m by (simp add: f64_magnitude_def f64_of_decimal_def unat_of_nat del: of_nat_add)
qed

lemma f64_of_decimal_not_nan: "\<not> f64_is_nan (f64_of_decimal negative digits e)"
  using magnitude_bits_le by (simp add: f64_is_nan_def f64_of_decimal_magnitude F64_INFINITY_def not_less)

text \<open>The shape of the query grammar's float literals, which always parse.\<close>

definition is_float_literal :: "string \<Rightarrow> bool" where
  "is_float_literal s \<longleftrightarrow>
     (let ds = (case s of c # cs \<Rightarrow> if c = CHR ''-'' then cs else s | [] \<Rightarrow> []);
          frac = dropWhile is_ascii_digit ds in
      takeWhile is_ascii_digit ds \<noteq> [] \<and>
      (case frac of c # cs \<Rightarrow> c = CHR ''.'' \<and> cs \<noteq> [] \<and> list_all is_ascii_digit cs | [] \<Rightarrow> False))"

lemma digit_lower: "is_ascii_digit c \<Longrightarrow> to_lower_ascii c = c"
  by (simp add: is_ascii_digit_def to_lower_ascii_def Let_def)

lemma digit_first_not_word:
  assumes "is_ascii_digit c"
  shows "map to_lower_ascii (c # cs) \<noteq> ''inf''" "map to_lower_ascii (c # cs) \<noteq> ''infinity''"
    "map to_lower_ascii (c # cs) \<noteq> ''nan''"
  using assms by (auto simp: digit_lower) (simp_all add: is_ascii_digit_def)

lemma parse_number_digits:
  assumes "takeWhile is_ascii_digit s \<noteq> []" "dropWhile is_ascii_digit s = CHR ''.'' # ds"
    "list_all is_ascii_digit ds"
  shows "parse_number negative s =
    Some (f64_of_decimal negative (digits_value 0 (takeWhile is_ascii_digit s @ ds)) (- int (length ds)))"
proof -
  have d: "takeWhile is_ascii_digit ds = ds" "dropWhile is_ascii_digit ds = []"
    using assms(3) by (auto simp: list_all_iff takeWhile_eq_all_conv)
  then show ?thesis
    using assms(1,2) by (simp add: parse_number_def parse_exponent_def d)
qed

lemma float_literal_parses:
  assumes "is_float_literal s"
  shows "\<exists>x. parse_f64 s = Some x \<and> \<not> f64_is_nan x"
proof -
  define ds where "ds = (case s of c # cs \<Rightarrow> if c = CHR ''-'' then cs else s | [] \<Rightarrow> [])"
  obtain fs where fs: "takeWhile is_ascii_digit ds \<noteq> []" "dropWhile is_ascii_digit ds = CHR ''.'' # fs"
    "list_all is_ascii_digit fs"
    using assms by (auto simp: is_float_literal_def Let_def ds_def split: list.splits)
  then obtain c cs where c: "ds = c # cs" "is_ascii_digit c"
    by (cases ds) (auto split: if_splits)
  have sign: "\<exists>negative. split_sign s = (negative, ds)"
    using c digit_not_sign [OF c(2)] by (cases s) (auto simp: ds_def split: if_splits)
  then obtain negative where neg: "split_sign s = (negative, ds)" by blast
  have "parse_f64 s = parse_number negative ds"
    using digit_first_not_word [OF c(2), of cs] by (simp add: parse_f64_def neg c(1) del: list.map)
  with parse_number_digits [OF fs] show ?thesis by (auto simp: f64_of_decimal_not_nan)
qed

end
