(* ===== verification/Pest_Tree.thy ===== *)
theory Pest_Tree
  imports Rust_Floats
begin

text \<open>
  What the two parsers use of the third-party crate \<open>pest\<close>: the token tree a generated parser
  returns, and its iteration. The generated parsers themselves are parameters.
  \<open>outcome\<close> states how a walk of the tree ends: with a good result when the numbers in it fit
  their machine types, and with a panic otherwise.
\<close>

section \<open>Trees\<close>

datatype 'r Pair = Pair (as_rule: 'r) (as_str: string) (into_inner: "'r Pair list")

text \<open>\<open>e.location\<close> and \<open>e.to_string()\<close> of a \<open>pest::error::Error\<close>.\<close>

datatype InputLocation = Pos nat | Span nat nat

record PestError =
  pe_location :: InputLocation
  pe_message :: string

text \<open>\<open>inner.next().expect(msg)\<close>: the next pair, and the iterator after it.\<close>

definition next_pair :: "string \<Rightarrow> 'r Pair list \<Rightarrow> ('e, 'r Pair \<times> 'r Pair list) res" where
  "next_pair msg ps = (case ps of [] \<Rightarrow> Panic msg | p # rest \<Rightarrow> Ok (p, rest))"

lemma next_pair_simps [simp, res_simps]:
  "next_pair msg [] = Panic msg" "next_pair msg (p # ps) = Ok (p, ps)"
  by (simp_all add: next_pair_def)

lemma size_into_inner [termination_simp]: "p \<in> set (into_inner q) \<Longrightarrow> size p < size q"
  by (cases q) (auto simp: size_list_estimation less_Suc_eq_le size_list_estimation')

text \<open>\<open>&s[1..s.len() - 1]\<close>.\<close>

definition unquote :: "string \<Rightarrow> ('e, string) res" where
  "unquote s = (if length s < 2 then Panic ''slice index out of range'' else Ok (butlast (tl s)))"

section \<open>Shapes of token trees\<close>

definition opt :: "'r \<Rightarrow> 'r list set" where
  "opt r = {[], [r]}"

text \<open>\<open>first (sep second)*\<close>, the separator being silent: the alternation of two rules.\<close>

fun alternates :: "'r \<Rightarrow> 'r \<Rightarrow> 'r list \<Rightarrow> bool" where
  "alternates a b [r] = (r = a)"
| "alternates a b (r # s # rs) = (r = a \<and> s = b \<and> alternates a b rs)"
| "alternates a b [] = False"

definition is_number :: "string \<Rightarrow> bool" where
  "is_number s \<longleftrightarrow> s \<noteq> [] \<and> list_all is_ascii_digit s"

definition is_int_literal :: "string \<Rightarrow> bool" where
  "is_int_literal s \<longleftrightarrow> is_number (case s of c # cs \<Rightarrow> if c = CHR ''-'' then cs else s | [] \<Rightarrow> [])"

definition is_string_literal :: "string \<Rightarrow> bool" where
  "is_string_literal s \<longleftrightarrow> 2 \<le> length s \<and> hd s = CHR 0x22 \<and> last s = CHR 0x22"

section \<open>Outcomes of a walk\<close>

definition outcome :: "bool \<Rightarrow> ('a \<Rightarrow> bool) \<Rightarrow> ('e, 'a) res \<Rightarrow> bool" where
  "outcome fits good r \<longleftrightarrow> (if fits then \<exists>x. r = Ok x \<and> good x else is_panic r)"

lemma outcome_cases:
  "outcome a P r \<longleftrightarrow> (case r of Ok x \<Rightarrow> a \<and> P x | Panic m \<Rightarrow> \<not> a | Err e \<Rightarrow> False)"
  by (cases r) (auto simp: outcome_def)

lemma outcome_Ok [intro]: "good x \<Longrightarrow> outcome True good (Ok x)"
  by (simp add: outcome_def)

lemma outcome_bind:
  "outcome a P r \<Longrightarrow> (\<And>x. P x \<Longrightarrow> outcome b Q (f x)) \<Longrightarrow> outcome (a \<and> b) Q (res_bind r f)"
  by (cases r) (auto simp: outcome_def split: if_splits)

lemma outcome_map:
  "outcome a P r \<Longrightarrow> (\<And>x. P x \<Longrightarrow> Q (f x)) \<Longrightarrow> outcome a Q (res_map f r)"
  by (cases r) (auto simp: outcome_def split: if_splits)

lemma outcome_weaken: "outcome a P r \<Longrightarrow> (\<And>x. P x \<Longrightarrow> Q x) \<Longrightarrow> outcome a Q r"
  by (auto simp: outcome_def split: if_splits)

lemma outcome_collect:
  "(\<And>x. x \<in> set xs \<Longrightarrow> outcome (fits x) (P x) (f x)) \<Longrightarrow>
   outcome (list_all fits xs) (list_all2 P xs) (collect_res f xs)"
proof (induction xs)
  case (Cons x xs)
  then have "outcome (fits x) (P x) (f x)" "outcome (list_all fits xs) (list_all2 P xs) (collect_res f xs)"
    by auto
  then show ?case
    by (cases "f x"; cases "collect_res f xs") (auto simp: outcome_def split: if_splits)
qed (simp add: outcome_def)

lemma outcome_fold:
  "(\<And>u x. x \<in> set xs \<Longrightarrow> P u \<Longrightarrow> outcome (fits x) P (f u x)) \<Longrightarrow> P s \<Longrightarrow>
   outcome (list_all fits xs) P (fold_res f s xs)"
proof (induction xs arbitrary: s)
  case (Cons x xs)
  have "outcome (fits x \<and> list_all fits xs) P (res_bind (f s x) (\<lambda>u. fold_res f u xs))"
    by (rule outcome_bind [of "fits x" P]) (use Cons in auto)
  then show ?case by simp
qed (auto simp: outcome_def)

text \<open>Every number of the tree fits the machine type it is parsed into.\<close>

lemma parse_unsigned_number:
  "is_number s \<Longrightarrow> parse_unsigned bits s = (if digits_value 0 s < 2 ^ bits then Some (digits_value 0 s) else None)"
  by (auto simp: is_number_def parse_unsigned_def Let_def)

lemma outcome_expect: "outcome (x \<noteq> None) (\<lambda>y. x = Some y) (expect msg x)"
  by (cases x) (auto simp: outcome_def)

end
