(* ===== verification/Dsl_Parser.thy ===== *)
theory Dsl_Parser
  imports Pest_Tree Graph_Dsl
begin

text \<open>
  \<open>graph-dsl/src/parser.rs\<close>: the walk of the token tree of a query into its syntax tree. The
  pest-generated parser of \<open>dsl.pest\<close> is a parameter; \<open>conforms\<close> states which trees the rules
  of the grammar allow. The texts of the panics are abridged.
\<close>

section \<open>The rules of the grammar\<close>

datatype Rule =
    R_query | R_pattern | R_node_pattern | R_property_map | R_property_kv
  | R_edge_pattern | R_outgoing_edge | R_incoming_edge | R_edge_detail | R_edge_alias | R_hop_range
  | R_where_clause | R_where_condition | R_property_condition | R_property_property_comparison
  | R_alias_comparison | R_not_exists_clause | R_comparison_op
  | R_return_clause | R_return_item | R_order_by_clause | R_sort_direction | R_limit_clause
  | R_literal | R_string_literal | R_float_literal | R_int_literal | R_bool_literal
  | R_ident | R_number | R_EOI

section \<open>Literals, patterns\<close>

definition parse_literal :: "Rule Pair \<Rightarrow> ('e, Literal) res" where
  "parse_literal pair =
     res_bind (next_pair ''literal wraps exactly one alternative'' (into_inner pair)) (\<lambda>(inner, _).
       case as_rule inner of
         R_string_literal \<Rightarrow> res_map LString (unquote (as_str inner))
       | R_float_literal \<Rightarrow> res_map LFloat64 (expect ''float_literal only matches valid floats'' (parse_f64 (as_str inner)))
       | R_int_literal \<Rightarrow> res_map LInt64 (expect ''int_literal only matches valid integers'' (parse_i64 (as_str inner)))
       | R_bool_literal \<Rightarrow> Ok (LBool (as_str inner = ''true''))
       | _ \<Rightarrow> Panic ''literal only wraps string/float/int/bool_literal'')"

definition parse_property_map :: "Rule Pair \<Rightarrow> ('e, PropertyFilter list) res" where
  "parse_property_map pair =
     collect_res (\<lambda>kv.
       res_bind (next_pair ''property_kv starts with its key ident'' (into_inner kv)) (\<lambda>(property, inner).
       res_bind (next_pair ''property_kv has a literal value'' inner) (\<lambda>(l, _).
       res_map (\<lambda>value. \<lparr>pf_property = as_str property, pf_op = Eq, pf_value = value\<rparr>) (parse_literal l))))
       (into_inner pair)"

definition parse_node_pattern :: "Rule Pair \<Rightarrow> ('e, NodePattern) res" where
  "parse_node_pattern pair =
     res_bind (next_pair ''node_pattern starts with its alias ident'' (into_inner pair)) (\<lambda>(name, inner).
     fold_res (\<lambda>node p.
       case as_rule p of
         R_ident \<Rightarrow> Ok (node\<lparr>np_label := Some (Label (as_str p))\<rparr>)
       | R_property_map \<Rightarrow> res_map (\<lambda>fs. node\<lparr>np_property_filters := fs\<rparr>) (parse_property_map p)
       | _ \<Rightarrow> Panic ''node_pattern body only yields ident/property_map'')
       \<lparr>np_alias = as_str name, np_label = None, np_property_filters = []\<rparr> inner)"

definition parse_hop_range :: "Rule Pair \<Rightarrow> ('e, HopRange) res" where
  "parse_hop_range pair =
     res_bind (next_pair ''hop_range has a min number'' (into_inner pair)) (\<lambda>(lo, inner).
     res_bind (expect ''the number rule only matches ASCII digits'' (parse_u32 (as_str lo))) (\<lambda>min_hops.
     res_bind (next_pair ''hop_range has a max number'' inner) (\<lambda>(hi, _).
     res_bind (expect ''the number rule only matches ASCII digits'' (parse_u32 (as_str hi))) (\<lambda>max_hops.
     Ok \<lparr>hr_min = min_hops, hr_max = max_hops\<rparr>))))"

definition parse_edge_detail_part :: "EdgePattern \<Rightarrow> Rule Pair \<Rightarrow> ('e, EdgePattern) res" where
  "parse_edge_detail_part edge d =
     (case as_rule d of
        R_edge_alias \<Rightarrow> Ok (edge\<lparr>ep_alias := Some (as_str d)\<rparr>)
      | R_ident \<Rightarrow> Ok (edge\<lparr>ep_edge_type := Some (EdgeType (as_str d))\<rparr>)
      | R_hop_range \<Rightarrow> res_map (\<lambda>hops. edge\<lparr>ep_hops := hops\<rparr>) (parse_hop_range d)
      | _ \<Rightarrow> Panic ''edge_detail only yields edge_alias/ident/hop_range'')"

definition parse_edge_pattern :: "Rule Pair \<Rightarrow> ('e, EdgePattern) res" where
  "parse_edge_pattern pair =
     res_bind (next_pair ''edge_pattern wraps outgoing_edge/incoming_edge'' (into_inner pair)) (\<lambda>(directed, _).
     res_bind (case as_rule directed of
                 R_outgoing_edge \<Rightarrow> Ok Outgoing
               | R_incoming_edge \<Rightarrow> Ok Incoming
               | _ \<Rightarrow> Panic ''edge_pattern only wraps outgoing_edge/incoming_edge'') (\<lambda>direction.
     fold_res (\<lambda>edge detail.
       case as_rule detail of
         R_edge_detail \<Rightarrow> fold_res parse_edge_detail_part edge (into_inner detail)
       | _ \<Rightarrow> Panic ''outgoing_edge/incoming_edge only yield edge_detail'')
       \<lparr>ep_alias = None, ep_edge_type = None, ep_direction = direction, ep_hops = \<lparr>hr_min = 1, hr_max = 1\<rparr>\<rparr>
       (into_inner directed)))"

definition parse_pattern :: "Rule Pair \<Rightarrow> ('e, Pattern) res" where
  "parse_pattern pair =
     collect_res (\<lambda>p.
       case as_rule p of
         R_node_pattern \<Rightarrow> res_map StepNode (parse_node_pattern p)
       | R_edge_pattern \<Rightarrow> res_map StepEdge (parse_edge_pattern p)
       | _ \<Rightarrow> Panic ''pattern only yields node_pattern/edge_pattern'')
       (into_inner pair)"

section \<open>Conditions\<close>

definition parse_comparison_op :: "Rule Pair \<Rightarrow> ('e, ComparisonOp) res" where
  "parse_comparison_op pair =
     (let s = as_str pair in
      if s = ''='' then Ok Eq else if s = ''<>'' then Ok Ne else if s = ''<'' then Ok Lt
      else if s = ''<='' then Ok Lte else if s = ''>'' then Ok Gt else if s = ''>='' then Ok Gte
      else Panic ''grammar's comparison_op alternatives are exhaustive'')"

definition parse_property_property_comparison :: "Rule Pair \<Rightarrow> ('e, WhereCondition) res" where
  "parse_property_property_comparison pair =
     res_bind (next_pair ''the left alias ident'' (into_inner pair)) (\<lambda>(left_alias, inner).
     res_bind (next_pair ''a left property ident'' inner) (\<lambda>(left_property, inner).
     res_bind (next_pair ''a comparison_op'' inner) (\<lambda>(op_pair, inner).
     res_bind (parse_comparison_op op_pair) (\<lambda>op.
     res_bind (next_pair ''a right alias ident'' inner) (\<lambda>(right_alias, inner).
     res_bind (next_pair ''a right property ident'' inner) (\<lambda>(right_property, _).
     Ok (WPropertyComparison
           \<lparr>pr_alias = as_str left_alias, pr_property = as_str left_property\<rparr> op
           \<lparr>pr_alias = as_str right_alias, pr_property = as_str right_property\<rparr>)))))))"

definition parse_property_condition :: "Rule Pair \<Rightarrow> ('e, WhereCondition) res" where
  "parse_property_condition pair =
     res_bind (next_pair ''property_condition starts with its alias ident'' (into_inner pair)) (\<lambda>(name, inner).
     res_bind (next_pair ''a property ident'' inner) (\<lambda>(property, inner).
     res_bind (next_pair ''a comparison_op'' inner) (\<lambda>(op_pair, inner).
     res_bind (parse_comparison_op op_pair) (\<lambda>op.
     res_bind (next_pair ''a literal value'' inner) (\<lambda>(l, _).
     res_bind (parse_literal l) (\<lambda>value.
     Ok (WProperty (as_str name) \<lparr>pf_property = as_str property, pf_op = op, pf_value = value\<rparr>)))))))"

definition parse_alias_comparison :: "Rule Pair \<Rightarrow> ('e, WhereCondition) res" where
  "parse_alias_comparison pair =
     res_bind (next_pair ''alias_comparison starts with its left ident'' (into_inner pair)) (\<lambda>(left, inner).
     res_bind (next_pair ''a comparison_op'' inner) (\<lambda>(op_pair, inner).
     res_bind (parse_comparison_op op_pair) (\<lambda>op.
     res_bind (next_pair ''a right ident'' inner) (\<lambda>(right, _).
     Ok (WAliasComparison (as_str left) op (as_str right))))))"

text \<open>The conditions and the subqueries in them: \<open>parse_where_condition\<close> and
  \<open>parse_not_exists_clause\<close> recurse through the tree.\<close>

function (sequential) parse_where_condition :: "Rule Pair \<Rightarrow> ('e, WhereCondition) res"
  and parse_not_exists_clause :: "Rule Pair \<Rightarrow> ('e, WhereCondition) res"
  and parse_where_clause :: "Rule Pair \<Rightarrow> ('e, WhereCondition list) res" where
  "parse_where_condition (Pair r s []) = Panic ''where_condition wraps one alternative''"
| "parse_where_condition (Pair r s (inner # rest)) =
     (case as_rule inner of
        R_not_exists_clause \<Rightarrow> parse_not_exists_clause inner
      | R_property_property_comparison \<Rightarrow> parse_property_property_comparison inner
      | R_property_condition \<Rightarrow> parse_property_condition inner
      | R_alias_comparison \<Rightarrow> parse_alias_comparison inner
      | _ \<Rightarrow> Panic ''where_condition only wraps its four alternatives'')"
| "parse_not_exists_clause pair =
     res_bind (fold_res (\<lambda>acc p.
       case as_rule p of
         R_pattern \<Rightarrow> res_map (\<lambda>x. (Some x, snd acc)) (parse_pattern p)
       | R_where_clause \<Rightarrow> res_map (\<lambda>cs. (fst acc, cs)) (parse_where_clause p)
       | _ \<Rightarrow> Panic ''not_exists_clause only yields pattern/where_clause'')
       (None, []) (into_inner pair)) (\<lambda>(pattern, where_conditions).
     res_map (\<lambda>x. WNotExists (ExistsSubquery x where_conditions))
       (expect ''grammar requires a pattern after NOT EXISTS { MATCH'' pattern))"
| "parse_where_clause pair = collect_res parse_where_condition (into_inner pair)"
  by pat_completeness auto
termination
  by (relation "measure (\<lambda>x. case x of Inl p \<Rightarrow> 2 * size p | Inr (Inl p) \<Rightarrow> 2 * size p
      | Inr (Inr p) \<Rightarrow> 2 * size p)") (auto dest!: size_into_inner)

declare parse_where_condition.simps [simp del] parse_not_exists_clause.simps [simp del]
  parse_where_clause.simps [simp del]

section \<open>The other clauses\<close>

definition parse_return_item :: "Rule Pair \<Rightarrow> ('e, ReturnItem) res" where
  "parse_return_item pair =
     res_bind (next_pair ''return_item starts with its alias ident'' (into_inner pair)) (\<lambda>(name, inner).
     Ok \<lparr>ri_alias = as_str name,
         ri_property = (case inner of p # _ \<Rightarrow> Some (as_str p) | [] \<Rightarrow> None)\<rparr>)"

definition parse_return_clause :: "Rule Pair \<Rightarrow> ('e, ReturnItem list) res" where
  "parse_return_clause pair = collect_res parse_return_item (into_inner pair)"

definition parse_order_by_clause :: "Rule Pair \<Rightarrow> ('e, OrderBy) res" where
  "parse_order_by_clause pair =
     res_bind (next_pair ''order_by_clause starts with its alias ident'' (into_inner pair)) (\<lambda>(name, inner).
     res_bind (next_pair ''order_by_clause has a property ident'' inner) (\<lambda>(property, inner).
     res_bind (case inner of
                 d # _ \<Rightarrow>
                   if as_str d = ''ASC'' then Ok Asc else if as_str d = ''DESC'' then Ok Desc
                   else Panic ''sort_direction alternatives are exhaustive''
               | [] \<Rightarrow> Ok Asc) (\<lambda>direction.
     Ok \<lparr>ob_alias = as_str name, ob_property = as_str property, ob_direction = direction\<rparr>)))"

definition parse_limit_clause :: "Rule Pair \<Rightarrow> ('e, u64) res" where
  "parse_limit_clause pair =
     res_bind (next_pair ''limit_clause has a number'' (into_inner pair)) (\<lambda>(n, _).
     expect ''the number rule only matches ASCII digits'' (parse_u64 (as_str n)))"

text \<open>The five variables of \<open>parse\<close>, filled clause by clause.\<close>

record QueryParts =
  qp_pattern :: "Pattern option"
  qp_where_conditions :: "WhereCondition list"
  qp_returns :: "ReturnItem list"
  qp_order_by :: "OrderBy option"
  qp_limit :: "u64 option"

definition parse_query_part :: "QueryParts \<Rightarrow> Rule Pair \<Rightarrow> ('e, QueryParts) res" where
  "parse_query_part parts p =
     (case as_rule p of
        R_pattern \<Rightarrow> res_map (\<lambda>x. parts\<lparr>qp_pattern := Some x\<rparr>) (parse_pattern p)
      | R_where_clause \<Rightarrow> res_map (\<lambda>x. parts\<lparr>qp_where_conditions := x\<rparr>) (parse_where_clause p)
      | R_return_clause \<Rightarrow> res_map (\<lambda>x. parts\<lparr>qp_returns := x\<rparr>) (parse_return_clause p)
      | R_order_by_clause \<Rightarrow> res_map (\<lambda>x. parts\<lparr>qp_order_by := Some x\<rparr>) (parse_order_by_clause p)
      | R_limit_clause \<Rightarrow> res_map (\<lambda>x. parts\<lparr>qp_limit := Some x\<rparr>) (parse_limit_clause p)
      | R_EOI \<Rightarrow> Ok parts
      | _ \<Rightarrow> Panic ''query only yields its clauses'')"

definition syntax_error :: "PestError \<Rightarrow> DslError" where
  "syntax_error e =
     Syntax (case pe_location e of Pos p \<Rightarrow> p | Span start _ \<Rightarrow> start) (pe_message e)"

definition parse :: "(string \<Rightarrow> (PestError, Rule Pair list) res) \<Rightarrow> string \<Rightarrow> (DslError, Query) res" where
  "parse pest source =
     res_bind (map_err syntax_error (pest source)) (\<lambda>pairs.
     res_bind (next_pair ''query is the grammar's only top-level rule'' pairs) (\<lambda>(query_pair, _).
     res_bind (fold_res parse_query_part
         \<lparr>qp_pattern = None, qp_where_conditions = [], qp_returns = [], qp_order_by = None, qp_limit = None\<rparr>
         (into_inner query_pair)) (\<lambda>parts.
     res_bind (expect ''grammar requires a pattern after MATCH'' (qp_pattern parts)) (\<lambda>pattern.
     Ok \<lparr>q_pattern = pattern, q_where_conditions = qp_where_conditions parts, q_returns = qp_returns parts,
         q_order_by = qp_order_by parts, q_limit = qp_limit parts\<rparr>))))"

end
