(* ===== verification/Coordinator_Service.thy ===== *)
theory Coordinator_Service
  imports Partition_Rpc Dsl_Parser Dsl_Validator Planner
begin

text \<open>
  Binary \<open>graph-coordinator\<close>, \<open>service.rs\<close>: the handlers of \<open>GraphService\<close>. A query goes
  from its text through the parser, the validator, the planner, discovery and the executor to
  the rows of its answer. What \<open>Discovery::current_map\<close> answers during a call is a field of
  the state; the metrics are left out. Some parts of \<open>execute_query\<close> have a
  definition of their own, named after the variable they compute.
\<close>

record GraphServiceImpl =
  gs_schema :: Schema
  gs_schema_idl :: string
  gs_discovery :: "(DiscoveryError, PartitionMap) res"
  gs_executor :: ScatterGatherExecutor

section \<open>Messages\<close>

fun show_dsl_error :: "DslError \<Rightarrow> string" where
  "show_dsl_error (Syntax pos message) = ''syntax error at position '' @ show_nat pos @ '': '' @ message"

fun show_discovery_error :: "DiscoveryError \<Rightarrow> string" where
  "show_discovery_error (KubernetesApi m) = ''Kubernetes API error: '' @ m"

text \<open>The derived \<open>Debug\<close> of an error.\<close>

fun debug_validation_error :: "ValidationError \<Rightarrow> string" where
  "debug_validation_error (VUnknownLabel l) = ''UnknownLabel('' @ debug_str l @ '')''"
| "debug_validation_error (VUnknownEdgeType t) = ''UnknownEdgeType('' @ debug_str t @ '')''"
| "debug_validation_error (VUnknownProperty l p) =
     ''UnknownProperty { label: '' @ debug_str l @ '', property: '' @ debug_str p @ '' }''"
| "debug_validation_error (VIncompatibleOperator p) = ''IncompatibleOperator { property: '' @ debug_str p @ '' }''"
| "debug_validation_error (VUnknownAlias a) = ''UnknownAlias('' @ debug_str a @ '')''"
| "debug_validation_error (VEdgeAliasOnVariableLengthHop a lo hi) =
     ''EdgeAliasOnVariableLengthHop { alias: '' @ debug_str a @ '', min: '' @ show_nat (unat lo) @
     '', max: '' @ show_nat (unat hi) @ '' }''"
| "debug_validation_error (VNotExistsAnchorNotPreBound a) = ''NotExistsAnchorNotPreBound('' @ debug_str a @ '')''"
| "debug_validation_error (VNotExistsWrongShape n) = ''NotExistsWrongShape('' @ show_nat n @ '')''"
| "debug_validation_error VNestedNotExists = ''NestedNotExists''"
| "debug_validation_error VNotExistsMustBeOutgoing = ''NotExistsMustBeOutgoing''"

definition debug_errors :: "ValidationError list \<Rightarrow> string" where
  "debug_errors errors = ''['' @ join_with '', '' (map debug_validation_error errors) @ '']''"

section \<open>Conversions\<close>

fun coord_property_value_to_proto :: "PropertyValue \<Rightarrow> ProtoValue option" where
  "coord_property_value_to_proto (VInt64 v) = Some \<lparr>pv_kind = Some (Int64Value v)\<rparr>"
| "coord_property_value_to_proto (VFloat64 v) = Some \<lparr>pv_kind = Some (Float64Value v)\<rparr>"
| "coord_property_value_to_proto (VBool v) = Some \<lparr>pv_kind = Some (BoolValue v)\<rparr>"
| "coord_property_value_to_proto (VString v) = Some \<lparr>pv_kind = Some (StringValue v)\<rparr>"
| "coord_property_value_to_proto (VTimestamp v) = Some \<lparr>pv_kind = Some (TimestampValue v)\<rparr>"
| "coord_property_value_to_proto (VBytes v) = Some \<lparr>pv_kind = Some (BytesValue v)\<rparr>"
| "coord_property_value_to_proto (VList _) = None"
| "coord_property_value_to_proto VNull = None"

text \<open>\<open>id as i64\<close> keeps the bits, and words of one width are one type.\<close>

definition int64_value :: "u64 \<Rightarrow> ProtoValue" where
  "int64_value i = \<lparr>pv_kind = Some (Int64Value i)\<rparr>"

definition coord_node_record_to_proto :: "NodeRecord \<Rightarrow> NodeProperties" where
  "coord_node_record_to_proto r =
     \<lparr>npr_label = label_name (nrec_label r),
      npr_fields = fm_filter_map coord_property_value_to_proto (nrec_properties r)\<rparr>"

definition coord_edge_record_to_proto :: "EdgeRecord \<Rightarrow> EdgeProperties" where
  "coord_edge_record_to_proto r =
     \<lparr>epr_edge_type = edge_type_name (erec_edge_type r),
      epr_fields = fm_filter_map coord_property_value_to_proto (erec_properties r)\<rparr>"

section \<open>Which aliases are edges\<close>

fun find_map :: "('a \<Rightarrow> 'b option) \<Rightarrow> 'a list \<Rightarrow> 'b option" where
  "find_map f [] = None"
| "find_map f (x # xs) = (case f x of Some y \<Rightarrow> Some y | None \<Rightarrow> find_map f xs)"

definition alias_kind :: "Binding list \<Rightarrow> string \<Rightarrow> bool option" where
  "alias_kind bindings alias =
     find_map (\<lambda>b. if alias |\<in>| fmdom (b_edges b) then Some True
                   else if alias |\<in>| fmdom (b_nodes b) then Some False else None) bindings"

definition alias_is_edge :: "ReturnItem list \<Rightarrow> OrderBy option \<Rightarrow> Binding list \<Rightarrow> (string, bool) fmap" where
  "alias_is_edge project order_by bindings =
     foldl (\<lambda>kinds alias.
       if alias |\<in>| fmdom kinds then kinds
       else case alias_kind bindings alias of
         Some is_edge \<Rightarrow> fmupd alias is_edge kinds
       | None \<Rightarrow> kinds) fmempty
       (map ri_alias project @ (case order_by of Some o1 \<Rightarrow> [ob_alias o1] | None \<Rightarrow> []))"

definition is_edge_alias :: "(string, bool) fmap \<Rightarrow> string \<Rightarrow> bool" where
  "is_edge_alias kinds alias = (case fmlookup kinds alias of Some is_edge \<Rightarrow> is_edge | None \<Rightarrow> False)"

section \<open>Hydration\<close>

definition resolve_node_id :: "ReturnItem \<Rightarrow> (string, bool) fmap \<Rightarrow> Binding \<Rightarrow> NodeId option" where
  "resolve_node_id item kinds binding =
     (if is_edge_alias kinds (ri_alias item) then None else fmlookup (b_nodes binding) (ri_alias item))"

definition resolve_edge_id :: "ReturnItem \<Rightarrow> (string, bool) fmap \<Rightarrow> Binding \<Rightarrow> EdgeId option" where
  "resolve_edge_id item kinds binding =
     (if \<not> is_edge_alias kinds (ri_alias item) then None else fmlookup (b_edges binding) (ri_alias item))"

definition needed_node_ids ::
  "ReturnItem list \<Rightarrow> OrderBy option \<Rightarrow> (string, bool) fmap \<Rightarrow> Binding list \<Rightarrow> NodeId fset" where
  "needed_node_ids project order_by kinds bindings =
     fset_of_list (concat (map (\<lambda>b. List.map_filter (\<lambda>item. resolve_node_id item kinds b) project) bindings)) |\<union>|
     (case order_by of
        None \<Rightarrow> {||}
      | Some o1 \<Rightarrow>
          if is_edge_alias kinds (ob_alias o1) then {||}
          else fset_of_list (List.map_filter (\<lambda>b. fmlookup (b_nodes b) (ob_alias o1)) bindings))"

definition needed_edge_ids ::
  "ReturnItem list \<Rightarrow> OrderBy option \<Rightarrow> (string, bool) fmap \<Rightarrow> Binding list \<Rightarrow> EdgeId fset" where
  "needed_edge_ids project order_by kinds bindings =
     fset_of_list (concat (map (\<lambda>b. List.map_filter (\<lambda>item. resolve_edge_id item kinds b) project) bindings)) |\<union>|
     (case order_by of
        None \<Rightarrow> {||}
      | Some o1 \<Rightarrow>
          if is_edge_alias kinds (ob_alias o1)
          then fset_of_list (List.map_filter (\<lambda>b. fmlookup (b_edges b) (ob_alias o1)) bindings)
          else {||})"

section \<open>Sorting\<close>

definition compare_property_values :: "PropertyValue \<Rightarrow> PropertyValue \<Rightarrow> ordering" where
  "compare_property_values a b =
     (case (a, b) of
        (VNull, VNull) \<Rightarrow> Equal
      | (VNull, _) \<Rightarrow> Greater
      | (_, VNull) \<Rightarrow> Less
      | (VInt64 a, VInt64 b) \<Rightarrow> i64_cmp a b
      | (VFloat64 a, VFloat64 b) \<Rightarrow> (case f64_partial_cmp a b of Some o1 \<Rightarrow> o1 | None \<Rightarrow> Equal)
      | (VBool a, VBool b) \<Rightarrow> cmp_ord a b
      | (VString a, VString b) \<Rightarrow> cmp_ord a b
      | (VTimestamp a, VTimestamp b) \<Rightarrow> i64_cmp a b
      | (VBytes a, VBytes b) \<Rightarrow> cmp_ord a b
      | _ \<Rightarrow> Equal)"

definition sort_key ::
  "OrderBy \<Rightarrow> bool \<Rightarrow> (NodeId, NodeRecord) fmap \<Rightarrow> (EdgeId, EdgeRecord) fmap \<Rightarrow> Binding \<Rightarrow> PropertyValue option" where
  "sort_key order_by is_edge node_properties edge_properties binding =
     (if is_edge
      then Option.bind (fmlookup (b_edges binding) (ob_alias order_by)) (\<lambda>i.
           Option.bind (fmlookup edge_properties i) (\<lambda>record.
           fmlookup (erec_properties record) (ob_property order_by)))
      else Option.bind (fmlookup (b_nodes binding) (ob_alias order_by)) (\<lambda>i.
           Option.bind (fmlookup node_properties i) (\<lambda>record.
           fmlookup (nrec_properties record) (ob_property order_by))))"

definition key_ordering :: "PropertyValue option \<Rightarrow> PropertyValue option \<Rightarrow> ordering" where
  "key_ordering a b =
     (case (a, b) of
        (Some a, Some b) \<Rightarrow> compare_property_values a b
      | (Some _, None) \<Rightarrow> Less
      | (None, Some _) \<Rightarrow> Greater
      | (None, None) \<Rightarrow> Equal)"

definition directed :: "SortDirection \<Rightarrow> ordering \<Rightarrow> ordering" where
  "directed direction o1 = (case direction of Asc \<Rightarrow> o1 | Desc \<Rightarrow> ordering_reverse o1)"

definition sort_bindings_by_property ::
  "Binding list \<Rightarrow> OrderBy \<Rightarrow> (string, bool) fmap \<Rightarrow> (NodeId, NodeRecord) fmap \<Rightarrow> (EdgeId, EdgeRecord) fmap
   \<Rightarrow> Binding list" where
  "sort_bindings_by_property bindings order_by kinds node_properties edge_properties =
     (let key = sort_key order_by (is_edge_alias kinds (ob_alias order_by)) node_properties edge_properties in
      sort_by (\<lambda>a b. directed (ob_direction order_by) (key_ordering (key a) (key b))) bindings)"

section \<open>Projection\<close>

definition project_item ::
  "(string, bool) fmap \<Rightarrow> (NodeId, NodeRecord) fmap \<Rightarrow> (EdgeId, EdgeRecord) fmap \<Rightarrow> Binding
   \<Rightarrow> QueryResult \<Rightarrow> ReturnItem \<Rightarrow> QueryResult" where
  "project_item kinds node_properties edge_properties binding row item =
     (let alias = ri_alias item; is_edge = is_edge_alias kinds alias in
      case ri_property item of
        None \<Rightarrow>
          if is_edge
          then (case fmlookup (b_edges binding) alias of
                  None \<Rightarrow> row
                | Some i \<Rightarrow>
                    (let row = row\<lparr>qr_projection := fmupd alias (int64_value (edge_raw i)) (qr_projection row)\<rparr> in
                     case fmlookup edge_properties i of
                       None \<Rightarrow> row
                     | Some record \<Rightarrow>
                         row\<lparr>qr_edge_properties := fmupd alias (coord_edge_record_to_proto record) (qr_edge_properties row)\<rparr>))
          else (case fmlookup (b_nodes binding) alias of
                  None \<Rightarrow> row
                | Some i \<Rightarrow>
                    (let row = row\<lparr>qr_projection := fmupd alias (int64_value (node_raw i)) (qr_projection row)\<rparr> in
                     case fmlookup node_properties i of
                       None \<Rightarrow> row
                     | Some record \<Rightarrow>
                         row\<lparr>qr_properties := fmupd alias (coord_node_record_to_proto record) (qr_properties row)\<rparr>))
      | Some property \<Rightarrow>
          (let value =
             (if is_edge
              then Option.bind (fmlookup (b_edges binding) alias) (\<lambda>i.
                   Option.bind (fmlookup edge_properties i) (\<lambda>record. fmlookup (erec_properties record) property))
              else Option.bind (fmlookup (b_nodes binding) alias) (\<lambda>i.
                   Option.bind (fmlookup node_properties i) (\<lambda>record. fmlookup (nrec_properties record) property)))
           in case Option.bind value coord_property_value_to_proto of
                None \<Rightarrow> row
              | Some v \<Rightarrow> row\<lparr>qr_projection := fmupd (alias @ ''.'' @ property) v (qr_projection row)\<rparr>))"

definition project_binding ::
  "ReturnItem list \<Rightarrow> (string, bool) fmap \<Rightarrow> (NodeId, NodeRecord) fmap \<Rightarrow> (EdgeId, EdgeRecord) fmap \<Rightarrow> Binding
   \<Rightarrow> QueryResult" where
  "project_binding project kinds node_properties edge_properties binding =
     foldl (project_item kinds node_properties edge_properties binding)
       \<lparr>qr_projection = fmempty, qr_properties = fmempty, qr_edge_properties = fmempty\<rparr> project"

section \<open>The handlers\<close>

text \<open>From the gathered bindings to the stream of rows.\<close>

definition answer_bindings ::
  "(u64 \<Rightarrow> u64) \<Rightarrow> hash_order \<Rightarrow> ScatterGatherExecutor \<Rightarrow> Query \<Rightarrow> ReturnItem list \<Rightarrow> PartitionMap
   \<Rightarrow> Binding list \<Rightarrow> (Status, QueryResult list) res" where
  "answer_bindings h ho E query project partitions bindings =
     (let kinds = alias_is_edge project (q_order_by query) bindings;
          node_ids = hs_iter ho (needed_node_ids project (q_order_by query) kinds bindings);
          edge_ids = hs_iter ho (needed_edge_ids project (q_order_by query) kinds bindings) in
      res_bind (if node_ids = [] then Ok fmempty
                else map_err (\<lambda>e. internal (show_execution_error e)) (get_node_properties h ho E node_ids partitions))
        (\<lambda>node_properties.
      res_bind (if edge_ids = [] then Ok fmempty
                else map_err (\<lambda>e. internal (show_execution_error e)) (get_edge_properties ho E edge_ids partitions))
        (\<lambda>edge_properties.
      let bindings = (case q_order_by query of
            Some order_by \<Rightarrow> sort_bindings_by_property bindings order_by kinds node_properties edge_properties
          | None \<Rightarrow> bindings);
          bindings = (case q_limit query of Some limit \<Rightarrow> take (unat limit) bindings | None \<Rightarrow> bindings)
      in Ok (map (project_binding project kinds node_properties edge_properties) bindings))))"

definition execute_query ::
  "(u64 \<Rightarrow> u64) \<Rightarrow> hash_order \<Rightarrow> (string \<Rightarrow> i64 option) \<Rightarrow> (string \<Rightarrow> (PestError, Rule Pair list) res)
   \<Rightarrow> GraphServiceImpl \<Rightarrow> string \<Rightarrow> (Status, QueryResult list) res" where
  "execute_query h ho rfc pest S dsl =
     res_bind (map_err (\<lambda>e. invalid_argument (''syntax error: '' @ show_dsl_error e)) (parse pest dsl)) (\<lambda>query.
     res_bind (map_err (\<lambda>errors. invalid_argument (''query failed validation: '' @ debug_errors errors))
                 (validate query (gs_schema S))) (\<lambda>_.
     res_bind (plan query) (\<lambda>p.
     res_bind (map_err (\<lambda>e. unavailable (''cluster discovery failed: '' @ show_discovery_error e)) (gs_discovery S))
       (\<lambda>partitions.
     res_bind (map_err (\<lambda>e. internal (show_execution_error e)) (execute h ho rfc (gs_executor S) p partitions))
       (\<lambda>bindings.
     answer_bindings h ho (gs_executor S) query (qp_project p) partitions bindings)))))"

definition get_schema :: "GraphServiceImpl \<Rightarrow> (Status, SchemaResponse) res" where
  "get_schema S = Ok \<lparr>scr_schema_idl = gs_schema_idl S, scr_version = sch_version (gs_schema S)\<rparr>"

text \<open>
  A connection is made for the one call, past the cache of the executor's clients;
  \<open>from_shared\<close> accepts every socket address.
\<close>

definition get_index_status :: "Network \<Rightarrow> GraphServiceImpl \<Rightarrow> (Status, IndexStatusResponse) res" where
  "get_index_status N S =
     res_bind (map_err (\<lambda>e. unavailable (''cluster discovery failed: '' @ show_discovery_error e)) (gs_discovery S))
       (\<lambda>partitions.
     res_bind (ok_or (unavailable ''no partitions currently discovered'')
                 (case sorted_list_of_fset (fmdom partitions) of p # _ \<Rightarrow> Some p | [] \<Rightarrow> None)) (\<lambda>p.
     res_bind (ok_or (unavailable (''no healthy replica for partition '' @ show_nat (unat (partition_raw p))))
                 (pick_replica partitions p)) (\<lambda>replica.
     res_bind (map_err unavailable (nw_connect N (re_address replica))) (\<lambda>client.
     case service_get_index_status client of Panic _ \<Rightarrow> Err (nw_aborted N) | r \<Rightarrow> r))))"

definition health_check :: "GraphServiceImpl \<Rightarrow> (Status, HealthCheckResponse) res" where
  "health_check S = Ok \<lparr>hcr_status = Serving\<rparr>"

end
