(* ===== verification/Dsl_Grammar.thy ===== *)
theory Dsl_Grammar
  imports Dsl_Parser
begin

text \<open>
  \<open>dsl.pest\<close>: the shape of the token trees its rules allow, and what the parser makes of a tree
  of that shape. A walk never fails on the tree: it ends with a well-formed query, or panics,
  and it panics exactly when a number of the text does not fit its machine type.
\<close>

section \<open>Shapes\<close>

definition is_ident :: "string \<Rightarrow> bool" where
  "is_ident s \<longleftrightarrow> s \<noteq> []"

fun shape :: "Rule \<Rightarrow> string \<Rightarrow> Rule list \<Rightarrow> bool" where
  "shape R_query s rs =
     (\<exists>w \<in> opt R_where_clause. \<exists>b \<in> opt R_order_by_clause. \<exists>l \<in> opt R_limit_clause.
        rs = R_pattern # w @ R_return_clause # b @ l @ [R_EOI])"
| "shape R_pattern s rs = alternates R_node_pattern R_edge_pattern rs"
| "shape R_node_pattern s rs = (\<exists>l \<in> opt R_ident. \<exists>m \<in> opt R_property_map. rs = R_ident # l @ m)"
| "shape R_property_map s rs = list_all (\<lambda>r. r = R_property_kv) rs"
| "shape R_property_kv s rs = (rs = [R_ident, R_literal])"
| "shape R_edge_pattern s rs = (rs = [R_outgoing_edge] \<or> rs = [R_incoming_edge])"
| "shape R_outgoing_edge s rs = (rs \<in> opt R_edge_detail)"
| "shape R_incoming_edge s rs = (rs \<in> opt R_edge_detail)"
| "shape R_edge_detail s rs =
     (\<exists>a \<in> opt R_edge_alias. \<exists>t \<in> opt R_ident. \<exists>h \<in> opt R_hop_range. rs = a @ t @ h)"
| "shape R_edge_alias s rs = (rs = [] \<and> is_ident s)"
| "shape R_hop_range s rs = (rs = [R_number, R_number])"
| "shape R_where_clause s rs = (rs \<noteq> [] \<and> list_all (\<lambda>r. r = R_where_condition) rs)"
| "shape R_where_condition s rs =
     (\<exists>r \<in> {R_not_exists_clause, R_property_property_comparison, R_property_condition, R_alias_comparison}.
        rs = [r])"
| "shape R_property_condition s rs = (rs = [R_ident, R_ident, R_comparison_op, R_literal])"
| "shape R_property_property_comparison s rs = (rs = [R_ident, R_ident, R_comparison_op, R_ident, R_ident])"
| "shape R_alias_comparison s rs = (rs = [R_ident, R_comparison_op, R_ident])"
| "shape R_not_exists_clause s rs = (\<exists>w \<in> opt R_where_clause. rs = R_pattern # w)"
| "shape R_comparison_op s rs =
     (rs = [] \<and> s \<in> {''<='', ''>='', ''<>'', ''='', ''<'', ''>''})"
| "shape R_return_clause s rs = (rs \<noteq> [] \<and> list_all (\<lambda>r. r = R_return_item) rs)"
| "shape R_return_item s rs = (\<exists>p \<in> opt R_ident. rs = R_ident # p)"
| "shape R_order_by_clause s rs = (\<exists>d \<in> opt R_sort_direction. rs = R_ident # R_ident # d)"
| "shape R_sort_direction s rs = (rs = [] \<and> s \<in> {''ASC'', ''DESC''})"
| "shape R_limit_clause s rs = (rs = [R_number])"
| "shape R_literal s rs =
     (\<exists>r \<in> {R_string_literal, R_float_literal, R_int_literal, R_bool_literal}. rs = [r])"
| "shape R_string_literal s rs = (rs = [] \<and> is_string_literal s)"
| "shape R_float_literal s rs = (rs = [] \<and> is_float_literal s)"
| "shape R_int_literal s rs = (rs = [] \<and> is_int_literal s)"
| "shape R_bool_literal s rs = (rs = [] \<and> s \<in> {''true'', ''false''})"
| "shape R_ident s rs = (rs = [] \<and> is_ident s)"
| "shape R_number s rs = (rs = [] \<and> is_number s)"
| "shape R_EOI s rs = (rs = [])"

fun conforms :: "Rule Pair \<Rightarrow> bool" where
  "conforms (Pair r s inner) = (shape r s (map as_rule inner) \<and> list_all conforms inner)"

text \<open>The numbers in a tree that are parsed into a \<open>u32\<close>, a \<open>u64\<close> or an \<open>i64\<close> fit it.\<close>

fun numbers_fit :: "Rule Pair \<Rightarrow> bool" where
  "numbers_fit (Pair r s inner) =
     ((if r = R_hop_range then list_all (\<lambda>p. parse_u32 (as_str p) \<noteq> None) inner
       else if r = R_limit_clause then list_all (\<lambda>p. parse_u64 (as_str p) \<noteq> None) inner
       else if r = R_int_literal then parse_i64 s \<noteq> None else True) \<and>
      list_all numbers_fit inner)"

text \<open>What the generated parser promises: one tree of the start rule, of the grammar's shape.\<close>

definition pest_conforms :: "(string \<Rightarrow> (PestError, Rule Pair list) res) \<Rightarrow> bool" where
  "pest_conforms pest \<longleftrightarrow>
     (\<forall>source. case pest source of
        Ok ps \<Rightarrow> (\<exists>p. ps = [p] \<and> as_rule p = R_query \<and> conforms p)
      | Err _ \<Rightarrow> True
      | Panic _ \<Rightarrow> False)"

section \<open>Well-formed results\<close>

fun named_step :: "PatternStep \<Rightarrow> bool" where
  "named_step (StepNode n) \<longleftrightarrow> np_alias n \<noteq> [] \<and> np_label n \<noteq> Some (Label [])"
| "named_step (StepEdge e) \<longleftrightarrow> ep_alias e \<noteq> Some [] \<and> ep_edge_type e \<noteq> Some (EdgeType [])"

definition good_pattern :: "Pattern \<Rightarrow> bool" where
  "good_pattern p \<longleftrightarrow> wf_pattern p \<and> list_all named_step p"

fun good_condition :: "WhereCondition \<Rightarrow> bool" where
  "good_condition (WNotExists (ExistsSubquery pattern conditions)) =
     (good_pattern pattern \<and> list_all good_condition conditions)"
| "good_condition _ = True"

definition good_query :: "Query \<Rightarrow> bool" where
  "good_query q \<longleftrightarrow> good_pattern (q_pattern q) \<and> list_all good_condition (q_where_conditions q) \<and>
     q_returns q \<noteq> []"

section \<open>Walks\<close>

lemmas pair_map_simps = map_eq_Cons_conv opt_def

lemma parse_literal_outcome:
  assumes "conforms p" "as_rule p = R_literal"
  shows "outcome (numbers_fit p) (\<lambda>_. True) (parse_literal p)"
proof -
  obtain s inner where p: "p = Pair R_literal s inner" using assms(2) by (cases p) auto
  then obtain q where q: "inner = [q]" "conforms q"
    "as_rule q \<in> {R_string_literal, R_float_literal, R_int_literal, R_bool_literal}"
    using assms(1) by (auto simp: pair_map_simps)
  obtain r t js where qq: "q = Pair r t js" by (cases q)
  show ?thesis
    using q(2,3) float_literal_parses [of t]
    by (auto simp: p q(1) qq parse_literal_def unquote_def outcome_cases expect_def is_string_literal_def
        split: option.splits)
qed

lemma conforms_rule:
  assumes "conforms p" "as_rule p = r"
  obtains s inner where "p = Pair r s inner" "shape r s (map as_rule inner)" "\<forall>q \<in> set inner. conforms q"
  using assms by (cases p) (auto simp: list_all_iff)

lemma conforms_name: "conforms p \<Longrightarrow> as_rule p = R_ident \<or> as_rule p = R_edge_alias \<Longrightarrow> as_str p \<noteq> []"
  by (cases p) (auto simp: is_ident_def)

lemma conforms_leaf:
  "conforms p \<Longrightarrow>
   as_rule p \<in> {R_ident, R_edge_alias, R_comparison_op, R_sort_direction, R_EOI, R_number} \<Longrightarrow> numbers_fit p"
  by (cases p) auto

lemma parse_property_map_outcome:
  assumes "conforms p" "as_rule p = R_property_map"
  shows "outcome (numbers_fit p) (\<lambda>_. True) (parse_property_map p :: ('e, _) res)"
proof -
  obtain s inner where p: "p = Pair R_property_map s inner"
    and kvs: "\<forall>kv \<in> set inner. as_rule kv = R_property_kv" "\<forall>kv \<in> set inner. conforms kv"
    using assms by (elim conforms_rule) (auto simp: list_all_iff)
  have "outcome (numbers_fit kv) (\<lambda>_. True)
      (res_bind (next_pair ''property_kv starts with its key ident'' (into_inner kv)) (\<lambda>(property, inner).
       res_bind (next_pair ''property_kv has a literal value'' inner) (\<lambda>(l, _).
       res_map (\<lambda>value. \<lparr>pf_property = as_str property, pf_op = Eq, pf_value = value\<rparr>) (parse_literal l))) ::
       ('e, PropertyFilter) res)"
    if kv: "kv \<in> set inner" for kv
  proof -
    obtain t js where j: "kv = Pair R_property_kv t js" "map as_rule js = [R_ident, R_literal]" "\<forall>q \<in> set js. conforms q"
      by (rule conforms_rule [of kv R_property_kv]) (use kvs kv in auto)
    then obtain a l where al: "js = [a, l]" "as_rule a = R_ident" "as_rule l = R_literal"
      by (auto simp: pair_map_simps)
    moreover have "outcome (numbers_fit l) (\<lambda>_. True) (parse_literal l :: ('e, _) res)"
      by (rule parse_literal_outcome) (use j(3) al in auto)
    ultimately show ?thesis
      using conforms_leaf [of a] j(3)
      by (cases "parse_literal l :: ('e, Literal) res") (auto simp: j(1) outcome_cases)
  qed
  from outcome_collect [of inner numbers_fit, OF this] show ?thesis
    unfolding parse_property_map_def by (auto simp: p intro: outcome_weaken)
qed

lemma parse_node_pattern_outcome:
  assumes "conforms p" "as_rule p = R_node_pattern"
  shows "outcome (numbers_fit p) (\<lambda>n. named_step (StepNode n)) (parse_node_pattern p)"
proof -
  obtain s inner where p: "p = Pair R_node_pattern s inner" and sub: "\<forall>q \<in> set inner. conforms q"
    and rs: "\<exists>l \<in> opt R_ident. \<exists>m \<in> opt R_property_map. map as_rule inner = R_ident # l @ m"
    using assms by (elim conforms_rule) auto
  then obtain a rest where inner: "inner = a # rest" "as_rule a = R_ident"
    and parts: "\<forall>q \<in> set rest. as_rule q = R_ident \<or> as_rule q = R_property_map"
    by (auto simp: pair_map_simps)
  have leaf: "numbers_fit q \<and> as_str q \<noteq> []" if "q \<in> set inner" "as_rule q = R_ident" for q
    using that sub conforms_name [of q] conforms_leaf [of q] by auto
  have "outcome (list_all numbers_fit rest) (\<lambda>n. named_step (StepNode n)) (fold_res (\<lambda>node p.
       case as_rule p of
         R_ident \<Rightarrow> Ok (node\<lparr>np_label := Some (Label (as_str p))\<rparr>)
       | R_property_map \<Rightarrow> res_map (\<lambda>fs. node\<lparr>np_property_filters := fs\<rparr>) (parse_property_map p)
       | _ \<Rightarrow> Panic ''node_pattern body only yields ident/property_map'')
       \<lparr>np_alias = as_str a, np_label = None, np_property_filters = []\<rparr> rest)"
  proof (rule outcome_fold)
    fix node q assume q: "q \<in> set rest" and node: "named_step (StepNode node)"
    show "outcome (numbers_fit q) (\<lambda>n. named_step (StepNode n)) (case as_rule q of
         R_ident \<Rightarrow> Ok (node\<lparr>np_label := Some (Label (as_str q))\<rparr>)
       | R_property_map \<Rightarrow> res_map (\<lambda>fs. node\<lparr>np_property_filters := fs\<rparr>) (parse_property_map q)
       | _ \<Rightarrow> Panic ''node_pattern body only yields ident/property_map'')"
    proof (cases "as_rule q = R_ident")
      case True
      then show ?thesis using leaf [of q] q node by (simp add: inner outcome_cases)
    next
      case False
      then have "as_rule q = R_property_map" "conforms q" using parts q sub by (auto simp: inner)
      then show ?thesis
        using node by (auto intro: outcome_map [OF parse_property_map_outcome])
    qed
  qed (use leaf inner in simp)
  then show ?thesis using leaf [of a] by (simp add: p inner parse_node_pattern_def)
qed

lemma parse_hop_range_outcome:
  assumes "conforms p" "as_rule p = R_hop_range"
  shows "outcome (numbers_fit p) (\<lambda>_. True) (parse_hop_range p)"
proof -
  obtain s inner where p: "p = Pair R_hop_range s inner" and sub: "\<forall>q \<in> set inner. conforms q"
    and rs: "map as_rule inner = [R_number, R_number]"
    using assms by (elim conforms_rule) auto
  then obtain a b where inner: "inner = [a, b]" "as_rule a = R_number" "as_rule b = R_number"
    by (auto simp: pair_map_simps)
  then show ?thesis
    using sub conforms_leaf [of a] conforms_leaf [of b]
    by (auto simp: p parse_hop_range_def outcome_cases expect_def split: option.splits)
qed

lemma parse_edge_detail_part_outcome:
  assumes "conforms d" "as_rule d \<in> {R_edge_alias, R_ident, R_hop_range}" "named_step (StepEdge e)"
  shows "outcome (numbers_fit d) (\<lambda>e. named_step (StepEdge e)) (parse_edge_detail_part e d)"
proof (cases "as_rule d = R_hop_range")
  case True
  then show ?thesis
    using assms by (auto simp: parse_edge_detail_part_def intro: outcome_map [OF parse_hop_range_outcome])
next
  case False
  then show ?thesis
    using assms conforms_leaf [OF assms(1)] conforms_name [OF assms(1)]
    by (auto simp: parse_edge_detail_part_def outcome_cases)
qed

lemma parse_edge_detail_outcome:
  assumes "conforms d" "as_rule d = R_edge_detail" "named_step (StepEdge e)"
  shows "outcome (numbers_fit d) (\<lambda>e. named_step (StepEdge e)) (fold_res parse_edge_detail_part e (into_inner d))"
proof -
  obtain s inner where d: "d = Pair R_edge_detail s inner" and sub: "\<forall>q \<in> set inner. conforms q"
    and rs: "\<exists>a \<in> opt R_edge_alias. \<exists>t \<in> opt R_ident. \<exists>h \<in> opt R_hop_range. map as_rule inner = a @ t @ h"
    using assms by (elim conforms_rule) auto
  have "as_rule ` set inner \<subseteq> {R_edge_alias, R_ident, R_hop_range}"
    using rs by (auto simp: opt_def simp flip: set_map)
  then have "outcome (list_all numbers_fit inner) (\<lambda>e. named_step (StepEdge e)) (fold_res parse_edge_detail_part e inner)"
    using sub assms(3) by (intro outcome_fold parse_edge_detail_part_outcome) auto
  then show ?thesis by (simp add: d)
qed

lemma parse_edge_pattern_outcome:
  assumes "conforms p" "as_rule p = R_edge_pattern"
  shows "outcome (numbers_fit p) (\<lambda>e. named_step (StepEdge e)) (parse_edge_pattern p :: ('e, _) res)"
proof -
  obtain s inner where p: "p = Pair R_edge_pattern s inner" and sub: "\<forall>q \<in> set inner. conforms q"
    and rs: "map as_rule inner = [R_outgoing_edge] \<or> map as_rule inner = [R_incoming_edge]"
    using assms by (elim conforms_rule) auto
  then obtain d where inner: "inner = [d]" "conforms d" "as_rule d = R_outgoing_edge \<or> as_rule d = R_incoming_edge"
    by (auto simp: pair_map_simps)
  obtain r t ds where d: "d = Pair r t ds" by (cases d)
  have ds: "\<forall>q \<in> set ds. conforms q \<and> as_rule q = R_edge_detail" "numbers_fit d = list_all numbers_fit ds"
    using inner by (auto simp: d pair_map_simps list_all_iff)
  have "outcome (list_all numbers_fit ds) (\<lambda>e. named_step (StepEdge e)) (fold_res (\<lambda>edge detail.
       case as_rule detail of
         R_edge_detail \<Rightarrow> fold_res parse_edge_detail_part edge (into_inner detail)
       | _ \<Rightarrow> Panic ''outgoing_edge/incoming_edge only yield edge_detail'')
       \<lparr>ep_alias = None, ep_edge_type = None, ep_direction = dir, ep_hops = \<lparr>hr_min = 1, hr_max = 1\<rparr>\<rparr> ds ::
       ('e, _) res)" for dir
    by (rule outcome_fold) (use ds(1) parse_edge_detail_outcome in auto)
  then show ?thesis
    using inner(3) ds(2) by (auto simp: p inner(1) d parse_edge_pattern_def)
qed

text \<open>A pattern: the rules alternate, and so do the steps.\<close>

definition step_of :: "Rule Pair \<Rightarrow> PatternStep \<Rightarrow> bool" where
  "step_of p st \<longleftrightarrow> named_step st \<and>
     (case st of StepNode _ \<Rightarrow> as_rule p = R_node_pattern | StepEdge _ \<Rightarrow> as_rule p = R_edge_pattern)"

lemma step_of_cases:
  "step_of p st \<Longrightarrow> as_rule p = R_node_pattern \<Longrightarrow> \<exists>n. st = StepNode n"
  "step_of p st \<Longrightarrow> as_rule p = R_edge_pattern \<Longrightarrow> \<exists>e. st = StepEdge e"
  by (cases st; simp add: step_of_def)+

lemma alternates_wf_pattern:
  "list_all2 step_of ps steps \<Longrightarrow> alternates R_node_pattern R_edge_pattern (map as_rule ps) \<Longrightarrow> wf_pattern steps"
proof (induction R_node_pattern R_edge_pattern "map as_rule ps" arbitrary: ps steps rule: alternates.induct)
  case (1 r)
  then obtain z st where "ps = [z]" "steps = [st]" "step_of z st" "as_rule z = R_node_pattern"
    by (auto simp: map_eq_Cons_conv list_all2_Cons1)
  then show ?case by (cases st) (auto simp: step_of_def)
next
  case (2 r s rs)
  then obtain p q ps' where ps: "ps = p # q # ps'" "as_rule p = r" "as_rule q = s" "map as_rule ps' = rs"
    by (auto simp: map_eq_Cons_conv)
  with 2 obtain st st2 steps' where "steps = st # st2 # steps'" "step_of p st" "step_of q st2"
    "list_all2 step_of ps' steps'" "as_rule p = R_node_pattern" "as_rule q = R_edge_pattern"
    by (auto simp: list_all2_Cons1)
  then obtain n e where steps: "steps = StepNode n # StepEdge e # steps'" "list_all2 step_of ps' steps'"
    using step_of_cases by blast
  then have "wf_pattern steps'" using 2(1) [of ps' steps'] 2(4) ps by simp
  then show ?case by (cases steps' rule: wf_pattern.cases) (auto simp: steps)
qed simp

lemma parse_pattern_outcome:
  assumes "conforms p" "as_rule p = R_pattern"
  shows "outcome (numbers_fit p) good_pattern (parse_pattern p)"
proof -
  obtain s inner where p: "p = Pair R_pattern s inner" and sub: "\<forall>q \<in> set inner. conforms q"
    and rs: "alternates R_node_pattern R_edge_pattern (map as_rule inner)"
    using assms by (elim conforms_rule) auto
  have "alternates a b rs \<Longrightarrow> set rs \<subseteq> {a, b}" for a b and rs :: "Rule list"
    by (induction a b rs rule: alternates.induct) auto
  from this [OF rs] have rules: "\<forall>q \<in> set inner. as_rule q = R_node_pattern \<or> as_rule q = R_edge_pattern" by auto
  have "outcome (list_all numbers_fit inner) (list_all2 step_of inner) (parse_pattern p)"
    unfolding parse_pattern_def p Pair.sel
  proof (rule outcome_collect)
    fix q assume q: "q \<in> set inner"
    show "outcome (numbers_fit q) (step_of q) (case as_rule q of
         R_node_pattern \<Rightarrow> res_map StepNode (parse_node_pattern q)
       | R_edge_pattern \<Rightarrow> res_map StepEdge (parse_edge_pattern q)
       | _ \<Rightarrow> Panic ''pattern only yields node_pattern/edge_pattern'')"
    proof (cases "as_rule q = R_node_pattern")
      case True
      then show ?thesis
        using q sub by (auto simp: step_of_def intro!: outcome_map [OF parse_node_pattern_outcome])
    next
      case False
      then have "as_rule q = R_edge_pattern" using rules q by auto
      then show ?thesis
        using q sub by (auto simp: step_of_def intro!: outcome_map [OF parse_edge_pattern_outcome])
    qed
  qed
  moreover have "good_pattern steps" if "list_all2 step_of inner steps" for steps
    using alternates_wf_pattern [OF that rs] that
    by (auto simp: good_pattern_def list_all_length list_all2_conv_all_nth step_of_def)
  ultimately show ?thesis by (auto simp: p intro: outcome_weaken)
qed

lemma parse_comparison_op_outcome:
  "conforms p \<Longrightarrow> as_rule p = R_comparison_op \<Longrightarrow> outcome (numbers_fit p) (\<lambda>_. True) (parse_comparison_op p)"
  by (cases p) (auto simp: parse_comparison_op_def outcome_cases Let_def)

lemma parse_property_comparison_outcome:
  assumes "conforms p" "as_rule p = R_property_property_comparison"
  shows "outcome (numbers_fit p) good_condition (parse_property_property_comparison p :: ('e, _) res)"
proof -
  obtain s inner where p: "p = Pair R_property_property_comparison s inner" and sub: "\<forall>q \<in> set inner. conforms q"
    and rs: "map as_rule inner = [R_ident, R_ident, R_comparison_op, R_ident, R_ident]"
    using assms by (elim conforms_rule) auto
  then obtain a b c d e where inner: "inner = [a, b, c, d, e]" "as_rule c = R_comparison_op"
    and "as_rule ` {a, b, d, e} = {R_ident}"
    by (auto simp: pair_map_simps)
  then have fits: "numbers_fit q" if "q \<in> set inner" for q
    using that sub conforms_leaf [of q] by auto
  have op: "outcome (numbers_fit c) (\<lambda>_. True) (parse_comparison_op c :: ('e, _) res)"
    by (rule parse_comparison_op_outcome) (use sub inner in auto)
  then show ?thesis
    using fits by (cases "parse_comparison_op c :: ('e, _) res")
      (auto simp: p inner(1) parse_property_property_comparison_def outcome_cases)
qed

lemma parse_alias_comparison_outcome:
  assumes "conforms p" "as_rule p = R_alias_comparison"
  shows "outcome (numbers_fit p) good_condition (parse_alias_comparison p :: ('e, _) res)"
proof -
  obtain s inner where p: "p = Pair R_alias_comparison s inner" and sub: "\<forall>q \<in> set inner. conforms q"
    and rs: "map as_rule inner = [R_ident, R_comparison_op, R_ident]"
    using assms by (elim conforms_rule) auto
  then obtain a c b where inner: "inner = [a, c, b]" "as_rule c = R_comparison_op"
    and "as_rule ` {a, b} = {R_ident}"
    by (auto simp: pair_map_simps)
  then have fits: "numbers_fit q" if "q \<in> set inner" for q
    using that sub conforms_leaf [of q] by auto
  have op: "outcome (numbers_fit c) (\<lambda>_. True) (parse_comparison_op c :: ('e, _) res)"
    by (rule parse_comparison_op_outcome) (use sub inner in auto)
  then show ?thesis
    using fits by (cases "parse_comparison_op c :: ('e, _) res")
      (auto simp: p inner(1) parse_alias_comparison_def outcome_cases)
qed

lemma parse_property_condition_outcome:
  assumes "conforms p" "as_rule p = R_property_condition"
  shows "outcome (numbers_fit p) good_condition (parse_property_condition p :: ('e, _) res)"
proof -
  obtain s inner where p: "p = Pair R_property_condition s inner" and sub: "\<forall>q \<in> set inner. conforms q"
    and rs: "map as_rule inner = [R_ident, R_ident, R_comparison_op, R_literal]"
    using assms by (elim conforms_rule) auto
  then obtain a b c l where inner: "inner = [a, b, c, l]" "as_rule c = R_comparison_op" "as_rule l = R_literal"
    and ids: "as_rule a = R_ident" "as_rule b = R_ident"
    by (auto simp: pair_map_simps)
  have fits: "numbers_fit a" "numbers_fit b" "numbers_fit c"
    using sub ids inner conforms_leaf [of a] conforms_leaf [of b] conforms_leaf [of c] by auto
  have "outcome (numbers_fit c) (\<lambda>_. True) (parse_comparison_op c :: ('e, _) res)"
    "outcome (numbers_fit l) (\<lambda>_. True) (parse_literal l :: ('e, _) res)"
    by (rule parse_comparison_op_outcome parse_literal_outcome; use sub inner in auto)+
  then show ?thesis
    using fits by (cases "parse_comparison_op c :: ('e, _) res"; cases "parse_literal l :: ('e, _) res")
      (auto simp: p inner(1) parse_property_condition_def outcome_cases)
qed

lemma parse_where_outcome:
  "conforms p \<Longrightarrow> as_rule p = R_where_condition \<Longrightarrow>
   outcome (numbers_fit p) good_condition (parse_where_condition p :: ('e, _) res)"
  "conforms q \<Longrightarrow> as_rule q = R_not_exists_clause \<Longrightarrow>
   outcome (numbers_fit q) good_condition (parse_not_exists_clause q :: ('e, _) res)"
  "conforms r \<Longrightarrow> as_rule r = R_where_clause \<Longrightarrow>
   outcome (numbers_fit r) (list_all good_condition) (parse_where_clause r :: ('e, _) res)"
proof (induction p and q and r rule: parse_where_condition_parse_not_exists_clause_parse_where_clause.induct)
  case (2 r s inner rest)
  then have rest: "rest = []" "conforms inner"
    "as_rule inner \<in> {R_not_exists_clause, R_property_property_comparison, R_property_condition, R_alias_comparison}"
    by (auto simp: pair_map_simps)
  have "outcome (numbers_fit inner) good_condition (parse_where_condition (Pair r s (inner # rest)) :: ('e, _) res)"
    using rest(2,3) 2(1) parse_property_comparison_outcome parse_property_condition_outcome
      parse_alias_comparison_outcome
    by (auto simp: parse_where_condition.simps)
  then show ?case using 2(3) rest(1) by simp
next
  case (3 pair)
  then obtain s inner where p: "pair = Pair R_not_exists_clause s inner" and sub: "\<forall>q \<in> set inner. conforms q"
    and rs: "\<exists>w \<in> opt R_where_clause. map as_rule inner = R_pattern # w"
    by (elim conforms_rule) auto
  then consider x where "inner = [x]" "as_rule x = R_pattern"
    | x w where "inner = [x, w]" "as_rule x = R_pattern" "as_rule w = R_where_clause"
    by (auto simp: pair_map_simps)
  then show ?case
  proof cases
    case (1 x)
    have "outcome (numbers_fit x) good_pattern (parse_pattern x :: ('e, _) res)"
      by (rule parse_pattern_outcome) (use 1 sub in auto)
    then show ?thesis
      by (cases "parse_pattern x :: ('e, _) res") (auto simp: p 1 parse_not_exists_clause.simps outcome_cases)
  next
    case (2 x w)
    have "outcome (numbers_fit x) good_pattern (parse_pattern x :: ('e, _) res)"
      by (rule parse_pattern_outcome) (use 2 sub in auto)
    moreover have "outcome (numbers_fit w) (list_all good_condition) (parse_where_clause w :: ('e, _) res)"
      using 3(1) [of w] 2 sub by (auto simp: p)
    ultimately show ?thesis
      by (cases "parse_pattern x :: ('e, _) res"; cases "parse_where_clause w :: ('e, _) res")
        (auto simp: p 2 parse_not_exists_clause.simps outcome_cases)
  qed
next
  case (4 pair)
  then obtain s inner where p: "pair = Pair R_where_clause s inner" and sub: "\<forall>q \<in> set inner. conforms q"
    and rs: "\<forall>q \<in> set inner. as_rule q = R_where_condition"
    by (elim conforms_rule) (auto simp: list_all_iff)
  have "outcome (list_all numbers_fit inner) (list_all2 (\<lambda>_. good_condition) inner)
      (collect_res parse_where_condition inner :: ('e, _) res)"
    by (rule outcome_collect) (use 4(1) sub rs in \<open>auto simp: p\<close>)
  then show ?case
    by (auto simp: p parse_where_clause.simps list_all2_conv_all_nth list_all_length intro: outcome_weaken)
qed (auto simp: pair_map_simps)

lemma parse_return_clause_outcome:
  assumes "conforms p" "as_rule p = R_return_clause"
  shows "outcome (numbers_fit p) (\<lambda>items. items \<noteq> []) (parse_return_clause p)"
proof -
  obtain s inner where p: "p = Pair R_return_clause s inner" and sub: "\<forall>q \<in> set inner. conforms q"
    and rs: "inner \<noteq> []" "\<forall>q \<in> set inner. as_rule q = R_return_item"
    using assms by (elim conforms_rule) (auto simp: list_all_iff)
  have item: "outcome (numbers_fit q) (\<lambda>_. True) (parse_return_item q)" if mem: "q \<in> set inner" for q
  proof -
    obtain t js where q: "q = Pair R_return_item t js" and sub': "\<forall>q \<in> set js. conforms q"
      and rs': "\<exists>p \<in> opt R_ident. map as_rule js = R_ident # p"
      by (rule conforms_rule [of q R_return_item]) (use mem sub rs in auto)
    then have "\<forall>x \<in> set js. as_rule x = R_ident" "js \<noteq> []" by (auto simp: pair_map_simps)
    then show ?thesis
      using sub' conforms_leaf by (cases js) (auto simp: q parse_return_item_def outcome_cases list_all_iff)
  qed
  have "outcome (list_all numbers_fit inner) (list_all2 (\<lambda>_ _. True) inner) (parse_return_clause p)"
    unfolding parse_return_clause_def p Pair.sel by (rule outcome_collect) (use item in blast)
  then show ?thesis
    using rs(1) by (auto simp: p intro: outcome_weaken)
qed

lemma parse_order_by_clause_outcome:
  assumes "conforms p" "as_rule p = R_order_by_clause"
  shows "outcome (numbers_fit p) (\<lambda>_. True) (parse_order_by_clause p)"
proof -
  obtain s inner where p: "p = Pair R_order_by_clause s inner" and sub: "\<forall>q \<in> set inner. conforms q"
    and rs: "\<exists>d \<in> opt R_sort_direction. map as_rule inner = R_ident # R_ident # d"
    using assms by (elim conforms_rule) auto
  then consider a b where "inner = [a, b]" "as_rule a = R_ident" "as_rule b = R_ident"
    | a b d where "inner = [a, b, d]" "as_rule a = R_ident" "as_rule b = R_ident" "as_rule d = R_sort_direction"
    by (auto simp: pair_map_simps)
  then show ?thesis
  proof cases
    case (1 a b)
    then show ?thesis
      using sub conforms_leaf [of a] conforms_leaf [of b] by (simp add: p parse_order_by_clause_def outcome_cases)
  next
    case (2 a b d)
    moreover have "as_str d \<in> {''ASC'', ''DESC''}" using 2 sub by (cases d) auto
    ultimately show ?thesis
      using sub conforms_leaf [of a] conforms_leaf [of b] conforms_leaf [of d]
      by (auto simp: p parse_order_by_clause_def outcome_cases)
  qed
qed

lemma parse_limit_clause_outcome:
  assumes "conforms p" "as_rule p = R_limit_clause"
  shows "outcome (numbers_fit p) (\<lambda>_. True) (parse_limit_clause p)"
proof -
  obtain s inner where p: "p = Pair R_limit_clause s inner" and sub: "\<forall>q \<in> set inner. conforms q"
    and rs: "map as_rule inner = [R_number]"
    using assms by (elim conforms_rule) auto
  then obtain n where "inner = [n]" "as_rule n = R_number" by (auto simp: pair_map_simps)
  then show ?thesis
    using sub conforms_leaf [of n]
    by (auto simp: p parse_limit_clause_def outcome_cases expect_def split: option.splits)
qed

section \<open>Queries\<close>

definition good_parts :: "bool \<Rightarrow> QueryParts \<Rightarrow> bool" where
  "good_parts returned qp \<longleftrightarrow>
     (\<exists>x. qp_pattern qp = Some x \<and> good_pattern x) \<and> list_all good_condition (qp_where_conditions qp) \<and>
     (returned \<longrightarrow> qp_returns qp \<noteq> [])"

lemma parse_query_part_outcome:
  assumes "conforms p" "good_parts returned qp"
    and "as_rule p \<in> {R_where_clause, R_order_by_clause, R_limit_clause, R_EOI}"
  shows "outcome (numbers_fit p) (good_parts returned) (parse_query_part qp p)"
proof (cases "as_rule p = R_EOI")
  case True
  then show ?thesis
    using assms(1,2) conforms_leaf [of p] by (simp add: parse_query_part_def outcome_cases)
qed (use assms in \<open>auto simp: parse_query_part_def good_parts_def
      intro!: outcome_map [OF parse_where_outcome(3)] outcome_map [OF parse_order_by_clause_outcome]
        outcome_map [OF parse_limit_clause_outcome]\<close>)

lemma parse_query_return_outcome:
  assumes "conforms p" "good_parts False qp" "as_rule p = R_return_clause"
  shows "outcome (numbers_fit p) (good_parts True) (parse_query_part qp p)"
  using assms
  by (auto simp: parse_query_part_def good_parts_def intro!: outcome_map [OF parse_return_clause_outcome])

lemma parse_query_pattern_outcome:
  assumes "conforms p" "as_rule p = R_pattern" "qp_where_conditions qp = []"
  shows "outcome (numbers_fit p) (good_parts False) (parse_query_part qp p)"
  using assms
  by (auto simp: parse_query_part_def good_parts_def intro!: outcome_map [OF parse_pattern_outcome])

lemma parse_query_outcome:
  assumes "conforms p" "as_rule p = R_query" "pest source = Ok [p]"
  shows "outcome (numbers_fit p) good_query (parse pest source)"
proof -
  obtain s inner where p: "p = Pair R_query s inner" and sub: "\<forall>q \<in> set inner. conforms q"
    and rs: "\<exists>w \<in> opt R_where_clause. \<exists>b \<in> opt R_order_by_clause. \<exists>l \<in> opt R_limit_clause.
        map as_rule inner = R_pattern # w @ R_return_clause # b @ l @ [R_EOI]"
    using assms(1,2) by (elim conforms_rule) auto
  let ?init = "\<lparr>qp_pattern = None, qp_where_conditions = [], qp_returns = [], qp_order_by = None, qp_limit = None\<rparr>"
  from rs obtain w b l where w: "w \<in> opt R_where_clause" and b: "b \<in> opt R_order_by_clause"
    and l: "l \<in> opt R_limit_clause" and eq: "map as_rule inner = R_pattern # w @ R_return_clause # b @ l @ [R_EOI]"
    by (elim bexE) (rule that)
  from eq obtain x rest where x: "inner = x # rest" "as_rule x = R_pattern"
    "map as_rule rest = w @ R_return_clause # b @ l @ [R_EOI]"
    unfolding map_eq_Cons_conv by (elim exE conjE) (rule that)
  from x(3) obtain ws rest' where ws: "rest = ws @ rest'" "map as_rule ws = w"
    "map as_rule rest' = R_return_clause # b @ l @ [R_EOI]"
    unfolding map_eq_append_conv by (elim exE conjE) (rule that, simp_all)
  from ws(3) obtain r post where r: "rest' = r # post" "as_rule r = R_return_clause"
    "map as_rule post = b @ l @ [R_EOI]"
    unfolding map_eq_Cons_conv by (elim exE conjE) (rule that)
  have inner: "inner = x # ws @ r # post" by (simp add: x(1) ws(1) r(1))
  note rules = x(2) r(2) ws(2) r(3)
  have "as_rule ` set ws = set w" "as_rule ` set post = set (b @ l @ [R_EOI])"
    unfolding rules(3,4) [symmetric] by simp_all
  then have more: "\<forall>q \<in> set ws. as_rule q = R_where_clause"
    "\<forall>q \<in> set post. as_rule q \<in> {R_order_by_clause, R_limit_clause, R_EOI}"
    using w b l by (auto simp: opt_def)
  have "outcome (numbers_fit x \<and> list_all numbers_fit ws \<and> numbers_fit r \<and> list_all numbers_fit post)
      (good_parts True) (res_bind (parse_query_part ?init x) (\<lambda>qp. res_bind (fold_res parse_query_part qp ws) (\<lambda>qp.
        res_bind (parse_query_part qp r) (\<lambda>qp. fold_res parse_query_part qp post))))"
  proof (intro outcome_bind)
    show "outcome (numbers_fit x) (good_parts False) (parse_query_part ?init x)"
      by (rule parse_query_pattern_outcome) (use sub inner rules in auto)
  next
    fix qp assume "good_parts False qp"
    then show "outcome (list_all numbers_fit ws) (good_parts False) (fold_res parse_query_part qp ws)"
      using sub inner more by (intro outcome_fold parse_query_part_outcome) auto
  next
    fix qp assume "good_parts False qp"
    then show "outcome (numbers_fit r) (good_parts True) (parse_query_part qp r)"
      using sub inner rules by (intro parse_query_return_outcome) auto
  next
    fix qp assume "good_parts True qp"
    then show "outcome (list_all numbers_fit post) (good_parts True) (fold_res parse_query_part qp post)"
      using sub inner more by (intro outcome_fold parse_query_part_outcome) auto
  qed
  then have walk: "outcome (numbers_fit p) (good_parts True) (fold_res parse_query_part ?init inner :: (DslError, _) res)"
    by (simp add: p inner fold_res_append)
  have "outcome (numbers_fit p \<and> True) good_query (res_bind (fold_res parse_query_part ?init inner) (\<lambda>parts.
     res_bind (expect ''grammar requires a pattern after MATCH'' (qp_pattern parts)) (\<lambda>pattern.
     Ok \<lparr>q_pattern = pattern, q_where_conditions = qp_where_conditions parts, q_returns = qp_returns parts,
         q_order_by = qp_order_by parts, q_limit = qp_limit parts\<rparr>)) :: (DslError, Query) res)"
    by (rule outcome_bind [OF walk]) (auto simp: good_parts_def good_query_def expect_def outcome_cases)
  then show ?thesis by (simp add: parse_def assms(3) p)
qed

end
