(* ===== verification/Coordinator_Answers.thy ===== *)
theory Coordinator_Answers
  imports Coordinator_Service Distributed_Execution Networked_Serving Dsl_Grammar
begin

text \<open>
  What the coordinator answers: every row of an answer shows what the graph holds for its
  binding, the rows come in the order the query asks for, and no more than its limit. The
  locale \<open>wire_cluster\<close> extends the contract of the partitions with what the network adds:
  the records that arrive hold no value the protocol cannot carry.
\<close>

section \<open>The meaning of a row\<close>

text \<open>The record of a node or an edge, when the partition that holds it is reachable.\<close>

definition node_view :: "Dataset \<Rightarrow> (NodeId \<Rightarrow> bool) \<Rightarrow> NodeId \<Rightarrow> NodeRecord option" where
  "node_view D up n = (if up n then node_rec D n else None)"

definition edge_view :: "Dataset \<Rightarrow> (NodeId \<Rightarrow> bool) \<Rightarrow> EdgeId \<Rightarrow> EdgeRecord option" where
  "edge_view D up i =
     (case edge_source D i of Some s \<Rightarrow> if up s then edge_rec D i else None | None \<Rightarrow> None)"

lemma outer_value_view:
  "outer_value D up b outer =
     (case fmlookup (b_edges b) (pr_alias outer) of
        Some i \<Rightarrow> Option.bind (edge_view D up i) (\<lambda>r. fmlookup (erec_properties r) (pr_property outer))
      | None \<Rightarrow> Option.bind (fmlookup (b_nodes b) (pr_alias outer)) (\<lambda>n.
          Option.bind (node_view D up n) (\<lambda>r. fmlookup (nrec_properties r) (pr_property outer))))"
  by (simp add: outer_value_def edge_view_def node_view_def split: option.split)

text \<open>
  A returned alias shows its identifier, and its record if that can be read; a returned
  property shows its value if it has one the protocol carries.
\<close>

definition spec_item :: "Dataset \<Rightarrow> (NodeId \<Rightarrow> bool) \<Rightarrow> Binding \<Rightarrow> QueryResult \<Rightarrow> ReturnItem \<Rightarrow> QueryResult" where
  "spec_item D up b row item =
     (case ri_property item of
        Some property \<Rightarrow>
          (case Option.bind (outer_value D up b \<lparr>pr_alias = ri_alias item, pr_property = property\<rparr>)
                  coord_property_value_to_proto of
             Some v \<Rightarrow> row\<lparr>qr_projection := fmupd (ri_alias item @ ''.'' @ property) v (qr_projection row)\<rparr>
           | None \<Rightarrow> row)
      | None \<Rightarrow>
          (case fmlookup (b_edges b) (ri_alias item) of
             Some i \<Rightarrow>
               row\<lparr>qr_projection := fmupd (ri_alias item) (int64_value (edge_raw i)) (qr_projection row),
                   qr_edge_properties := (case edge_view D up i of
                      Some r \<Rightarrow> fmupd (ri_alias item) (coord_edge_record_to_proto r) (qr_edge_properties row)
                    | None \<Rightarrow> qr_edge_properties row)\<rparr>
           | None \<Rightarrow>
               (case fmlookup (b_nodes b) (ri_alias item) of
                  Some n \<Rightarrow>
                    row\<lparr>qr_projection := fmupd (ri_alias item) (int64_value (node_raw n)) (qr_projection row),
                        qr_properties := (case node_view D up n of
                           Some r \<Rightarrow> fmupd (ri_alias item) (coord_node_record_to_proto r) (qr_properties row)
                         | None \<Rightarrow> qr_properties row)\<rparr>
                | None \<Rightarrow> row)))"

definition spec_row :: "Dataset \<Rightarrow> (NodeId \<Rightarrow> bool) \<Rightarrow> ReturnItem list \<Rightarrow> Binding \<Rightarrow> QueryResult" where
  "spec_row D up project b =
     foldl (spec_item D up b) \<lparr>qr_projection = fmempty, qr_properties = fmempty, qr_edge_properties = fmempty\<rparr> project"

text \<open>The key of a row: what the protocol carries of the property the query orders by.\<close>

definition order_key :: "Dataset \<Rightarrow> (NodeId \<Rightarrow> bool) \<Rightarrow> OrderBy \<Rightarrow> Binding \<Rightarrow> PropertyValue option" where
  "order_key D up o1 b =
     Option.bind (outer_value D up b \<lparr>pr_alias = ob_alias o1, pr_property = ob_property o1\<rparr>)
       (\<lambda>v. if on_wire v then Some v else None)"

definition row_order :: "Dataset \<Rightarrow> (NodeId \<Rightarrow> bool) \<Rightarrow> OrderBy \<Rightarrow> Binding \<Rightarrow> Binding \<Rightarrow> ordering" where
  "row_order D up o1 a b = directed (ob_direction o1) (key_ordering (order_key D up o1 a) (order_key D up o1 b))"

definition ordered_rows :: "Dataset \<Rightarrow> (NodeId \<Rightarrow> bool) \<Rightarrow> OrderBy option \<Rightarrow> Binding list \<Rightarrow> Binding list" where
  "ordered_rows D up order_by bs =
     (case order_by of Some o1 \<Rightarrow> sort_by (row_order D up o1) bs | None \<Rightarrow> bs)"

definition limited :: "u64 option \<Rightarrow> 'a list \<Rightarrow> 'a list" where
  "limited limit xs = (case limit of Some n \<Rightarrow> take (unat n) xs | None \<Rightarrow> xs)"

section \<open>Conversions\<close>

lemma coord_conversions:
  "coord_property_value_to_proto v = property_value_to_proto v"
  "coord_node_record_to_proto n = node_record_to_proto n"
  "coord_edge_record_to_proto e = edge_record_to_proto e"
proof -
  have v: "coord_property_value_to_proto = property_value_to_proto"
  proof
    fix v show "coord_property_value_to_proto v = property_value_to_proto v" by (cases v) simp_all
  qed
  show "coord_property_value_to_proto v = property_value_to_proto v"
    "coord_node_record_to_proto n = node_record_to_proto n"
    "coord_edge_record_to_proto e = edge_record_to_proto e"
    by (simp_all add: v coord_node_record_to_proto_def node_record_to_proto_def
        coord_edge_record_to_proto_def edge_record_to_proto_def)
qed

lemma coord_value_None: "\<not> on_wire v \<Longrightarrow> coord_property_value_to_proto v = None"
  by (cases v) simp_all

lemma coord_fields_wire:
  "fm_filter_map coord_property_value_to_proto (wire_fields m) = fm_filter_map coord_property_value_to_proto m"
  by (rule fmap_ext) (simp add: coord_value_None split: option.split)

lemma coord_record_wire [simp]:
  "coord_node_record_to_proto (wire_node r) = coord_node_record_to_proto r"
  "coord_edge_record_to_proto (wire_edge e) = coord_edge_record_to_proto e"
  by (simp_all add: coord_node_record_to_proto_def coord_edge_record_to_proto_def wire_node_def wire_edge_def
      coord_fields_wire)

lemma wire_field_value [simp]:
  "Option.bind (fmlookup (nrec_properties (wire_node r)) k) coord_property_value_to_proto =
   Option.bind (fmlookup (nrec_properties r) k) coord_property_value_to_proto"
  "Option.bind (fmlookup (erec_properties (wire_edge e)) k) coord_property_value_to_proto =
   Option.bind (fmlookup (erec_properties e) k) coord_property_value_to_proto"
  by (simp_all add: wire_node_def wire_edge_def coord_value_None split: option.split)

section \<open>Projection\<close>

text \<open>The hydrated maps hold what the graph shows of the identifiers asked for.\<close>

definition shows_nodes :: "Dataset \<Rightarrow> (NodeId \<Rightarrow> bool) \<Rightarrow> (NodeId, NodeRecord) fmap \<Rightarrow> NodeId set \<Rightarrow> bool" where
  "shows_nodes D up m ns \<longleftrightarrow> (\<forall>n \<in> ns. fmlookup m n = map_option wire_node (node_view D up n))"

definition shows_edges :: "Dataset \<Rightarrow> (NodeId \<Rightarrow> bool) \<Rightarrow> (EdgeId, EdgeRecord) fmap \<Rightarrow> EdgeId set \<Rightarrow> bool" where
  "shows_edges D up m es \<longleftrightarrow> (\<forall>e \<in> es. fmlookup m e = map_option wire_edge (edge_view D up e))"

lemma project_item_spec:
  assumes kind: "is_edge_alias kinds (ri_alias item) \<longleftrightarrow> ri_alias item |\<in>| fmdom (b_edges b)"
    and n: "shows_nodes D up nps (set_option (resolve_node_id item kinds b))"
    and e: "shows_edges D up eps (set_option (resolve_edge_id item kinds b))"
  shows "project_item kinds nps eps b row item = spec_item D up b row item"
proof (cases "fmlookup (b_edges b) (ri_alias item)")
  case None
  then have k: "\<not> is_edge_alias kinds (ri_alias item)" using kind by (auto elim: fmdomE)
  show ?thesis
  proof (cases "fmlookup (b_nodes b) (ri_alias item)")
    case None
    then show ?thesis
      using k \<open>fmlookup (b_edges b) (ri_alias item) = None\<close>
      by (simp add: project_item_def spec_item_def outer_value_view Let_def split: option.split)
  next
    case (Some i)
    then have "fmlookup nps i = map_option wire_node (node_view D up i)"
      using n k by (simp add: resolve_node_id_def shows_nodes_def)
    then show ?thesis
      using k Some \<open>fmlookup (b_edges b) (ri_alias item) = None\<close>
      by (cases "node_view D up i"; cases "ri_property item")
        (simp_all add: project_item_def spec_item_def outer_value_view Let_def)
  qed
next
  case (Some i)
  then have k: "is_edge_alias kinds (ri_alias item)" using kind by (auto intro: fmdomI)
  then have "fmlookup eps i = map_option wire_edge (edge_view D up i)"
    using e Some by (simp add: resolve_edge_id_def shows_edges_def)
  then show ?thesis
    using k Some
    by (cases "edge_view D up i"; cases "ri_property item")
      (simp_all add: project_item_def spec_item_def outer_value_view Let_def)
qed

text \<open>Which identifiers are asked for.\<close>

lemma needed_nodes_item:
  "b \<in> set bs \<Longrightarrow> item \<in> set project \<Longrightarrow> resolve_node_id item kinds b = Some n \<Longrightarrow>
   n |\<in>| needed_node_ids project o1 kinds bs"
  by (force simp: needed_node_ids_def fset_of_list_elem List.map_filter_def)

lemma needed_edges_item:
  "b \<in> set bs \<Longrightarrow> item \<in> set project \<Longrightarrow> resolve_edge_id item kinds b = Some n \<Longrightarrow>
   n |\<in>| needed_edge_ids project o1 kinds bs"
  by (force simp: needed_edge_ids_def fset_of_list_elem List.map_filter_def)

lemma needed_order_key:
  "b \<in> set bs \<Longrightarrow> \<not> is_edge_alias kinds (ob_alias o1) \<Longrightarrow> fmlookup (b_nodes b) (ob_alias o1) = Some n \<Longrightarrow>
   n |\<in>| needed_node_ids project (Some o1) kinds bs"
  "b \<in> set bs \<Longrightarrow> is_edge_alias kinds (ob_alias o1) \<Longrightarrow> fmlookup (b_edges b) (ob_alias o1) = Some i \<Longrightarrow>
   i |\<in>| needed_edge_ids project (Some o1) kinds bs"
  by (force simp: needed_node_ids_def needed_edge_ids_def fset_of_list_elem List.map_filter_def)+

lemma project_binding_spec:
  assumes "\<forall>item \<in> set project. is_edge_alias kinds (ri_alias item) \<longleftrightarrow> ri_alias item |\<in>| fmdom (b_edges b)"
    and "shows_nodes D up nps (fset (needed_node_ids project o1 kinds bs))"
    and "shows_edges D up eps (fset (needed_edge_ids project o1 kinds bs))" "b \<in> set bs"
  shows "project_binding project kinds nps eps b = spec_row D up project b"
proof -
  have "project_item kinds nps eps b row item = spec_item D up b row item" if item: "item \<in> set project" for row item
  proof (rule project_item_spec)
    show "shows_nodes D up nps (set_option (resolve_node_id item kinds b))"
      using assms(2) needed_nodes_item [OF assms(4) item] by (auto simp: shows_nodes_def)
    show "shows_edges D up eps (set_option (resolve_edge_id item kinds b))"
      using assms(3) needed_edges_item [OF assms(4) item] by (auto simp: shows_edges_def)
  qed (use assms(1) item in auto)
  then show ?thesis
    unfolding project_binding_def spec_row_def by (intro foldl_cong) auto
qed

section \<open>Kinds of aliases\<close>

lemma fmlookup_alias_kinds:
  "fmlookup (foldl (\<lambda>kinds alias. if alias |\<in>| fmdom kinds then kinds
       else case alias_kind bs alias of Some k \<Rightarrow> fmupd alias k kinds | None \<Rightarrow> kinds) m as) a =
   (case fmlookup m a of Some k \<Rightarrow> Some k | None \<Rightarrow> if a \<in> set as then alias_kind bs a else None)"
proof (induction as arbitrary: m)
  case (Cons x as)
  show ?case
    by (auto simp: Cons.IH fmdom_notD split: option.splits elim!: fmdomE)
qed (simp split: option.split)

lemma alias_kind_scoped:
  assumes "\<forall>b \<in> set bs. scoped N E b" "bs \<noteq> []"
  shows "alias_kind bs a = (if a \<in> E then Some True else if a \<in> N then Some False else None)"
  using assms
proof (induction bs)
  case (Cons b bs)
  then have "a |\<in>| fmdom (b_edges b) \<longleftrightarrow> a \<in> E" "a |\<in>| fmdom (b_nodes b) \<longleftrightarrow> a \<in> N"
    by (auto simp: scoped_def)
  then show ?case using Cons by (cases bs) (auto simp: alias_kind_def)
qed simp

lemma is_edge_alias_scoped:
  assumes "\<forall>b \<in> set bs. scoped N E b" "b \<in> set bs"
    and "a \<in> ri_alias ` set project \<union> ob_alias ` set_option o1"
  shows "is_edge_alias (alias_is_edge project o1 bs) a \<longleftrightarrow> a |\<in>| fmdom (b_edges b)"
proof -
  have "fmlookup (alias_is_edge project o1 bs) a = alias_kind bs a"
    using assms(3) by (auto simp: alias_is_edge_def fmlookup_alias_kinds split: option.splits)
  moreover have "a |\<in>| fmdom (b_edges b) \<longleftrightarrow> a \<in> E" using assms(1,2) by (auto simp: scoped_def)
  moreover have "bs \<noteq> []" using assms(2) by auto
  ultimately show ?thesis by (simp add: is_edge_alias_def alias_kind_scoped [OF assms(1)])
qed

section \<open>Order\<close>

lemma sort_key_order_key:
  assumes kind: "is_edge_alias kinds (ob_alias o1) \<longleftrightarrow> ob_alias o1 |\<in>| fmdom (b_edges b)"
    and "shows_nodes D up nps (fset (needed_node_ids project (Some o1) kinds bs))"
    and "shows_edges D up eps (fset (needed_edge_ids project (Some o1) kinds bs))" "b \<in> set bs"
  shows "sort_key o1 (is_edge_alias kinds (ob_alias o1)) nps eps b = order_key D up o1 b"
proof (cases "fmlookup (b_edges b) (ob_alias o1)")
  case (Some i)
  then have k: "is_edge_alias kinds (ob_alias o1)" using kind by (auto intro: fmdomI)
  have "fmlookup eps i = map_option wire_edge (edge_view D up i)"
    using assms(3) needed_order_key(2) [OF assms(4) k Some] by (simp add: shows_edges_def)
  then show ?thesis using k Some
    by (cases "edge_view D up i")
      (simp_all add: sort_key_def order_key_def outer_value_view wire_edge_def split: option.split)
next
  case None
  then have k: "\<not> is_edge_alias kinds (ob_alias o1)" using kind by (auto elim: fmdomE)
  show ?thesis
  proof (cases "fmlookup (b_nodes b) (ob_alias o1)")
    case (Some n)
    have "fmlookup nps n = map_option wire_node (node_view D up n)"
      using assms(2) needed_order_key(1) [OF assms(4) k Some] by (simp add: shows_nodes_def)
    then show ?thesis using k Some \<open>fmlookup (b_edges b) (ob_alias o1) = None\<close>
      by (cases "node_view D up n")
        (simp_all add: sort_key_def order_key_def outer_value_view wire_node_def split: option.split)
  qed (use k \<open>fmlookup (b_edges b) (ob_alias o1) = None\<close> in \<open>simp add: sort_key_def order_key_def outer_value_view\<close>)
qed

lemma insert_by_cong:
  "(\<And>y. y \<in> set ys \<Longrightarrow> c x y = d x y) \<Longrightarrow> insert_by c x ys = insert_by d x ys"
  by (induction ys) auto

lemma sort_by_cong:
  "(\<And>x y. x \<in> set xs \<Longrightarrow> y \<in> set xs \<Longrightarrow> c x y = d x y) \<Longrightarrow> sort_by c xs = sort_by d xs"
proof (induction xs)
  case (Cons x xs)
  then have "sort_by c xs = sort_by d xs" by auto
  then show ?case using Cons.prems by (auto intro!: insert_by_cong)
qed simp

text \<open>
  Keys that can be compared: missing, or of one scalar type and no NaN. On them the order of
  the rows is a total preorder.
\<close>

definition comparable :: "ScalarType \<Rightarrow> PropertyValue option \<Rightarrow> bool" where
  "comparable ty k \<longleftrightarrow>
     (case k of
        None \<Rightarrow> True
      | Some v \<Rightarrow> v = VNull \<or> on_wire v \<and> value_has_type v ty \<and> (case v of VFloat64 x \<Rightarrow> \<not> f64_is_nan x | _ \<Rightarrow> True))"

text \<open>A key is ranked by its class (a value, a null, no value) and then by its value.\<close>

fun value_rank :: "PropertyValue \<Rightarrow> int \<times> string \<times> u8 list" where
  "value_rank (VInt64 v) = (sint v, [], [])"
| "value_rank (VFloat64 v) = (f64_rank v, [], [])"
| "value_rank (VBool v) = (if v then 1 else 0, [], [])"
| "value_rank (VTimestamp v) = (sint v, [], [])"
| "value_rank (VString s) = (0, s, [])"
| "value_rank (VBytes b) = (0, [], b)"
| "value_rank _ = (0, [], [])"

definition key_rank :: "PropertyValue option \<Rightarrow> nat \<times> int \<times> string \<times> u8 list" where
  "key_rank k = (case k of None \<Rightarrow> (2, 0, [], []) | Some v \<Rightarrow> (if v = VNull then 1 else 0, value_rank v))"

lemma cmp_ord_Pair: "cmp_ord (a, b) (c, d) = (if a = c then cmp_ord b d else cmp_ord a c)"
  by (auto simp: cmp_ord_def less_prod_def)

lemma key_ordering_rank:
  assumes "comparable ty j" "comparable ty k"
  shows "key_ordering j k = cmp_ord (key_rank j) (key_rank k)"
proof (cases "j = None \<or> k = None")
  case True
  then show ?thesis by (auto simp: key_ordering_def key_rank_def cmp_ord_Pair cmp_ord_def split: option.split)
next
  case False
  then obtain v w where "j = Some v" "k = Some w" by auto
  then show ?thesis
    using assms
    by (cases v; cases w)
      (auto simp: comparable_def key_ordering_def key_rank_def compare_property_values_def i64_cmp_def
        f64_partial_cmp_def cmp_ord_Pair cmp_ord_def)
qed

lemma key_comparator:
  "comparator_on (\<lambda>a b. directed direction (key_ordering (key a) (key b))) {b. comparable ty (key b)}"
proof
  fix a b c
  assume ab: "a \<in> {b. comparable ty (key b)}" "b \<in> {b. comparable ty (key b)}"
  note rank = key_ordering_rank [of ty]
  show "directed direction (key_ordering (key b) (key a)) =
      ordering_reverse (directed direction (key_ordering (key a) (key b)))"
    using ab by (cases direction) (simp_all add: directed_def rank cmp_ord_reverse)
  assume "c \<in> {b. comparable ty (key b)}"
    "directed direction (key_ordering (key a) (key b)) \<noteq> Greater"
    "directed direction (key_ordering (key b) (key c)) \<noteq> Greater"
  with ab show "directed direction (key_ordering (key a) (key c)) \<noteq> Greater"
    by (cases direction) (auto simp: directed_def rank)
qed

text \<open>Keys in order; a null or an absent key is last, or first when descending.\<close>

definition in_order :: "SortDirection \<Rightarrow> PropertyValue option list \<Rightarrow> bool" where
  "in_order direction keys \<longleftrightarrow>
     (case direction of Asc \<Rightarrow> sorted (map key_rank keys) | Desc \<Rightarrow> sorted (rev (map key_rank keys)))"

lemma sort_by_key_in_order:
  assumes "\<forall>b \<in> set bs. comparable ty (key b)"
  shows "in_order direction (map key (sort_by (\<lambda>a b. directed direction (key_ordering (key a) (key b))) bs))"
proof -
  let ?rows = "sort_by (\<lambda>a b. directed direction (key_ordering (key a) (key b))) bs"
  have "sorted_wrt (\<lambda>a b. directed direction (key_ordering (key a) (key b)) \<noteq> Greater) ?rows"
    by (rule comparator_on.sorted_sort_by [OF key_comparator]) (use assms in auto)
  then have "sorted_wrt (\<lambda>a b. directed direction (cmp_ord (key_rank (key a)) (key_rank (key b))) \<noteq> Greater) ?rows"
    by (rule sorted_wrt_mono_rel [rotated]) (use assms in \<open>simp add: key_ordering_rank [of ty]\<close>)
  then show ?thesis
    by (cases direction)
      (auto simp: in_order_def directed_def sorted_map sorted_wrt_rev sorted_wrt_map
        rev_map not_less comp_def elim: sorted_wrt_mono_rel [rotated])
qed

lemma ordered_rows_in_order:
  assumes "\<forall>b \<in> set bs. comparable ty (order_key D up o1 b)"
  shows "in_order (ob_direction o1) (map (order_key D up o1) (ordered_rows D up (Some o1) bs))"
  using sort_by_key_in_order [OF assms, of "ob_direction o1"]
  by (simp add: ordered_rows_def row_order_def [abs_def])

lemma set_ordered_rows [simp]: "set (ordered_rows D up o1 bs) = set bs"
  by (simp add: ordered_rows_def split: option.split)

lemma distinct_ordered_rows [simp]: "distinct (ordered_rows D up o1 bs) = distinct bs"
  by (simp add: ordered_rows_def split: option.split)

section \<open>Bindings of a plan\<close>

text \<open>All bindings a plan means bind the same aliases.\<close>

lemma spec_steps_scoped:
  "\<forall>b \<in> B. scoped N E b \<Longrightarrow> \<exists>N' E'. \<forall>b \<in> foldl (spec_step D up rfc) B steps. scoped N' E' b"
proof (induction steps arbitrary: B N E)
  case (Cons st steps)
  have "\<exists>N' E'. \<forall>b \<in> spec_step D up rfc B st. scoped N' E' b"
    using scoped_expand [OF Cons.prems] Cons.prems by (cases st) fastforce+
  then show ?case using Cons.IH by fastforce
qed auto

lemma spec_plan_scoped: "\<exists>N E. \<forall>b \<in> spec_plan D up rfc steps. scoped N E b"
proof (cases steps)
  case (Cons st rest)
  then show ?thesis using spec_steps_scoped [of "spec_start D up st"] scoped_start by fastforce
qed simp

section \<open>Answers of a cluster\<close>

locale wire_cluster = partition_cluster +
  assumes node_on_wire: "valid c \<Longrightarrow> rpc_get_node_properties (rpc c) r ns = Ok m \<Longrightarrow>
      fmlookup m n = Some x \<Longrightarrow> wire_node x = x"
    and edge_on_wire: "valid c \<Longrightarrow> rpc_get_edge_properties (rpc c) r es = Ok k \<Longrightarrow>
      fmlookup k i = Some y \<Longrightarrow> wire_edge y = y"
begin

lemma node_records_on_wire:
  assumes "valid c" "get_node_properties h ho (executor c) ns M = Ok m" "fmlookup m n = Some x"
  shows "wire_node x = x"
proof -
  obtain groups where run: "fold_res (\<lambda>properties (p, ids). case pick_replica M p of
      None \<Rightarrow> Ok properties
    | Some replica \<Rightarrow> res_map (hm_extend properties) (rpc_get_node_properties (rpc c) replica ids))
      fmempty (hm_iter ho groups) = Ok m"
    using assms(2) unfolding get_node_properties_def executor_sel by (auto simp: res_bind_Ok_iff)
  have "\<forall>n x. fmlookup m n = Some x \<longrightarrow> wire_node x = x"
    using run
    by (rule fold_res_invariant [where P = "\<lambda>m. \<forall>n x. fmlookup m n = Some x \<longrightarrow> wire_node x = x"])
      (use node_on_wire [OF assms(1)] in \<open>fastforce simp: res_map_Ok_iff split: option.splits\<close>)+
  with assms(3) show ?thesis by blast
qed

lemma get_edge_loop_on_wire:
  assumes "valid c"
  shows "get_edge_loop ho (executor c) M props remaining ps = Ok m \<Longrightarrow> valid_hash_order ho \<Longrightarrow>
    \<forall>i x. fmlookup props i = Some x \<longrightarrow> wire_edge x = x \<Longrightarrow> fmlookup m i = Some x \<Longrightarrow> wire_edge x = x"
proof (induction ps arbitrary: props remaining)
  case (Cons p ps)
  show ?case
  proof (cases "remaining = {||} \<or> pick_replica M p = None")
    case False
    then obtain r where r: "pick_replica M p = Some r" by auto
    then obtain found where found: "rpc_get_edge_properties (rpc c) r (hs_iter ho remaining) = Ok found"
      and rest: "get_edge_loop ho (executor c) M
          (foldl (\<lambda>m (i, record). fmupd i record m) props (hm_iter ho found)) (remaining |-| fmdom found) ps = Ok m"
      using Cons.prems(1) False unfolding get_edge_loop.simps executor_sel
      by (simp add: res_bind_Ok_iff) blast
    have "wire_edge y = y"
      if "fmlookup (foldl (\<lambda>m (i, record). fmupd i record m) props (hm_iter ho found)) j = Some y" for j y
      using that edge_on_wire [OF assms found] Cons.prems(2,3)
      by (auto simp: fmlookup_foldl_upd dest!: map_of_rev_SomeD split: option.splits)
    with Cons.IH [OF rest Cons.prems(2) _ Cons.prems(4)] show ?thesis by blast
  qed (use Cons in \<open>auto split: if_splits\<close>)
qed auto

lemma edge_records_on_wire:
  assumes "valid c" "get_edge_properties (dp_order (dep c)) (executor c) es M = Ok m" "fmlookup m i = Some x"
  shows "wire_edge x = x"
  using get_edge_loop_on_wire [OF assms(1) assms(2) [unfolded get_edge_properties_def] valid_order [OF assms(1)] _ assms(3)]
  by simp

lemma hydrated_nodes:
  assumes "valid c"
  shows "\<exists>m. (if ns = [] then Ok fmempty
      else map_err (\<lambda>e. internal (show_execution_error e))
        (get_node_properties (dp_hash (dep c)) (dp_order (dep c)) (executor c) ns (dp_map (dep c)))) = (Ok m :: (Status, _) res) \<and>
    shows_nodes (dp_data (dep c)) (reachable (dep c)) m (set ns)"
proof (cases "ns = []")
  case False
  obtain m where m: "get_node_properties (dp_hash (dep c)) (dp_order (dep c)) (executor c) ns (dp_map (dep c)) = Ok m"
    "\<forall>n. map_option wire_node (fmlookup m n) =
      (if n \<in> set ns \<and> reachable (dep c) n then map_option wire_node (node_rec (dp_data (dep c)) n) else None)"
    using node_properties_output [OF assms, of ns] by blast
  have "fmlookup m n = map_option wire_node (fmlookup m n)" for n
    using node_records_on_wire [OF assms m(1)] by (cases "fmlookup m n") auto
  then have "shows_nodes (dp_data (dep c)) (reachable (dep c)) m (set ns)"
    using m(2) by (simp add: shows_nodes_def node_view_def)
  with m(1) False show ?thesis by simp
qed (simp add: shows_nodes_def)

lemma hydrated_edges:
  assumes "valid c"
  shows "\<exists>m. (if es = [] then Ok fmempty
      else map_err (\<lambda>e. internal (show_execution_error e))
        (get_edge_properties (dp_order (dep c)) (executor c) es (dp_map (dep c)))) = (Ok m :: (Status, _) res) \<and>
    shows_edges (dp_data (dep c)) (reachable (dep c)) m (set es)"
proof (cases "es = []")
  case False
  obtain m where m: "get_edge_properties (dp_order (dep c)) (executor c) es (dp_map (dep c)) = Ok m"
    "\<forall>i. map_option wire_edge (fmlookup m i) =
      (if i \<in> set es \<and> (\<exists>s. edge_source (dp_data (dep c)) i = Some s \<and> reachable (dep c) s)
       then map_option wire_edge (edge_rec (dp_data (dep c)) i) else None)"
    using edge_properties_output [OF assms, of es] by blast
  have "fmlookup m i = map_option wire_edge (fmlookup m i)" for i
    using edge_records_on_wire [OF assms m(1)] by (cases "fmlookup m i") auto
  then have "shows_edges (dp_data (dep c)) (reachable (dep c)) m (set es)"
    using m(2) by (auto simp: shows_edges_def edge_view_def split: option.split)
  with m(1) False show ?thesis by simp
qed (simp add: shows_edges_def)

lemma answer_bindings_output:
  assumes "valid c" "\<forall>b \<in> set bs. scoped N E b"
  shows "answer_bindings (dp_hash (dep c)) (dp_order (dep c)) (executor c) q project (dp_map (dep c)) bs =
    Ok (map (spec_row (dp_data (dep c)) (reachable (dep c)) project)
      (limited (q_limit q) (ordered_rows (dp_data (dep c)) (reachable (dep c)) (q_order_by q) bs)))"
proof -
  let ?D = "dp_data (dep c)" and ?up = "reachable (dep c)" and ?ob = "q_order_by q"
  let ?kinds = "alias_is_edge project ?ob bs"
  obtain nps where nps: "(if hs_iter (dp_order (dep c)) (needed_node_ids project ?ob ?kinds bs) = [] then Ok fmempty
      else map_err (\<lambda>e. internal (show_execution_error e)) (get_node_properties (dp_hash (dep c)) (dp_order (dep c))
        (executor c) (hs_iter (dp_order (dep c)) (needed_node_ids project ?ob ?kinds bs)) (dp_map (dep c)))) = (Ok nps :: (Status, _) res)"
    "shows_nodes ?D ?up nps (fset (needed_node_ids project ?ob ?kinds bs))"
    using hydrated_nodes [OF assms(1)] set_hs_iter [OF valid_order [OF assms(1)]] by metis
  obtain eps where eps: "(if hs_iter (dp_order (dep c)) (needed_edge_ids project ?ob ?kinds bs) = [] then Ok fmempty
      else map_err (\<lambda>e. internal (show_execution_error e)) (get_edge_properties (dp_order (dep c))
        (executor c) (hs_iter (dp_order (dep c)) (needed_edge_ids project ?ob ?kinds bs)) (dp_map (dep c)))) = (Ok eps :: (Status, _) res)"
    "shows_edges ?D ?up eps (fset (needed_edge_ids project ?ob ?kinds bs))"
    using hydrated_edges [OF assms(1)] set_hs_iter [OF valid_order [OF assms(1)]] by metis
  note kind = is_edge_alias_scoped [OF assms(2), of _ _ project ?ob]
  have rows: "project_binding project ?kinds nps eps b = spec_row ?D ?up project b" if "b \<in> set bs" for b
    by (rule project_binding_spec [OF _ nps(2) eps(2) that]) (use kind [OF that] in auto)
  have sorted: "(case ?ob of Some o1 \<Rightarrow> sort_bindings_by_property bs o1 ?kinds nps eps | None \<Rightarrow> bs) =
      ordered_rows ?D ?up ?ob bs"
  proof (cases ?ob)
    case (Some o1)
    have "sort_key o1 (is_edge_alias ?kinds (ob_alias o1)) nps eps b = order_key ?D ?up o1 b" if "b \<in> set bs" for b
      by (rule sort_key_order_key [OF _ nps(2) [unfolded Some] eps(2) [unfolded Some] that, folded Some])
        (use kind [OF that] Some in auto)
    then show ?thesis
      by (auto simp: Some ordered_rows_def sort_bindings_by_property_def row_order_def Let_def intro!: sort_by_cong)
  qed (simp add: ordered_rows_def)
  have lim: "set (limited (q_limit q) (ordered_rows ?D ?up ?ob bs)) \<subseteq> set bs"
    using set_ordered_rows [of ?D ?up ?ob bs] by (auto simp: limited_def dest: in_set_takeD split: option.splits)
  have "answer_bindings (dp_hash (dep c)) (dp_order (dep c)) (executor c) q project (dp_map (dep c)) bs =
      Ok (map (project_binding project ?kinds nps eps) (limited (q_limit q) (ordered_rows ?D ?up ?ob bs)))"
    unfolding answer_bindings_def Let_def nps(1) res_bind.simps eps(1) sorted limited_def ..
  then show ?thesis using rows lim by auto
qed

text \<open>The answer to a query that is parsed, validated and planned.\<close>

lemma execute_query_output:
  assumes "valid c" "gs_discovery S = Ok (dp_map (dep c))" "gs_executor S = executor c"
    and "parse pest dsl = Ok q" "validate q (gs_schema S) = Ok ()" "plan q = (Ok p :: (Status, _) res)"
    and "wf_plan (qp_steps p)" "small_plan small (dp_data (dep c)) (reachable (dep c)) (dp_rfc (dep c)) (qp_steps p)"
  shows "\<exists>bs. execute_query (dp_hash (dep c)) (dp_order (dep c)) (dp_rfc (dep c)) pest S dsl =
      Ok (map (spec_row (dp_data (dep c)) (reachable (dep c)) (qp_project p))
        (limited (q_limit q) (ordered_rows (dp_data (dep c)) (reachable (dep c)) (q_order_by q) bs))) \<and>
    set bs = spec_plan (dp_data (dep c)) (reachable (dep c)) (dp_rfc (dep c)) (qp_steps p) \<and> distinct bs"
proof -
  obtain bs where bs: "execute (dp_hash (dep c)) (dp_order (dep c)) (dp_rfc (dep c)) (executor c) p (dp_map (dep c)) = Ok bs"
    "set bs = spec_plan (dp_data (dep c)) (reachable (dep c)) (dp_rfc (dep c)) (qp_steps p)" "distinct bs"
    using execute_output [OF assms(1,7,8)] by blast
  obtain N E where "\<forall>b \<in> set bs. scoped N E b" using spec_plan_scoped bs(2) by metis
  from answer_bindings_output [OF assms(1) this, of q "qp_project p"]
  have "execute_query (dp_hash (dep c)) (dp_order (dep c)) (dp_rfc (dep c)) pest S dsl =
      Ok (map (spec_row (dp_data (dep c)) (reachable (dep c)) (qp_project p))
        (limited (q_limit q) (ordered_rows (dp_data (dep c)) (reachable (dep c)) (q_order_by q) bs)))"
    by (simp add: execute_query_def assms bs(1))
  with bs(2,3) show ?thesis by blast
qed

end

section \<open>The networked cluster\<close>

lemma proto_records_on_wire:
  "wire_node (proto_node_properties_to_record p) = proto_node_properties_to_record p"
  "wire_edge (proto_edge_properties_to_record e) = proto_edge_properties_to_record e"
proof -
  have "wire_fields (fm_filter_map proto_value_to_property_value m) = fm_filter_map proto_value_to_property_value m" for m
  proof (rule fmap_ext)
    fix k
    have "on_wire v" if "proto_value_to_property_value x = Some v" for x v
      using that by (auto simp: proto_value_to_property_value_def split: option.splits Kind.splits)
    then show "fmlookup (wire_fields (fm_filter_map proto_value_to_property_value m)) k =
        fmlookup (fm_filter_map proto_value_to_property_value m) k"
      by (cases "fmlookup m k") (auto split: option.split)
  qed
  then show "wire_node (proto_node_properties_to_record p) = proto_node_properties_to_record p"
    "wire_edge (proto_edge_properties_to_record e) = proto_edge_properties_to_record e"
    by (simp_all add: wire_node_def wire_edge_def proto_node_properties_to_record_def
        proto_edge_properties_to_record_def)
qed

interpretation networked_answers: wire_cluster networked_rpc nt_dep networked_ok "\<lambda>n. n \<le> 2 ^ 32"
proof
  fix c :: Networked and r ns m n x es k i y
  show "wire_node x = x" if "rpc_get_node_properties (networked_rpc c) r ns = Ok m" "fmlookup m n = Some x"
    using that proto_records_on_wire(1)
    by (auto simp: grpc_get_node_properties_def with_client_def res_bind_Ok_iff res_map_Ok_iff case_prod_beta
        dest!: map_of_rev_SomeD)
  show "wire_edge y = y" if "rpc_get_edge_properties (networked_rpc c) r es = Ok k" "fmlookup k i = Some y"
    using that proto_records_on_wire(2)
    by (auto simp: grpc_get_edge_properties_def with_client_def res_bind_Ok_iff res_map_Ok_iff case_prod_beta
        dest!: map_of_rev_SomeD)
qed

section \<open>Queries of the parser\<close>

lemma parse_good_query:
  assumes "pest_conforms pest" "parse pest dsl = Ok q"
  shows "good_query q"
proof -
  obtain ts where ts: "pest dsl = Ok ts"
    using assms(2) by (cases "pest dsl") (auto simp: parse_def)
  then obtain t where t: "pest dsl = Ok [t]" "as_rule t = R_query" "conforms t"
    using assms(1) unfolding pest_conforms_def by (auto dest!: spec [of _ dsl])
  from parse_query_outcome [OF t(3,2), of pest dsl] t(1) assms(2) show ?thesis
    by (simp add: outcome_cases)
qed

lemma good_edge_aliases: "list_all named_step p \<Longrightarrow> [] \<notin> set (edge_aliases p)"
  by (induction p rule: edge_aliases.induct) (auto split: option.splits)

lemma good_query_names:
  "good_query q \<Longrightarrow> edge_def schema (EdgeType []) = None \<Longrightarrow> no_empty_names q schema"
  using good_edge_aliases [of "q_pattern q"] by (simp add: good_query_def good_pattern_def no_empty_names_def)

text \<open>
  On a cluster whose partitions answer, a query fails only through its text, its validation,
  or a shape the planner does not support.
\<close>

definition runnable :: "Networked \<Rightarrow> Query \<Rightarrow> bool" where
  "runnable c q \<longleftrightarrow>
     (\<forall>sq. WNotExists sq \<in> set (q_where_conditions q) \<longrightarrow> \<not> compares_with_itself sq) \<and>
     (\<forall>p. plan q = (Ok p :: (Status, _) res) \<longrightarrow> small_plan (\<lambda>n. n \<le> 2 ^ 32) (dp_data (nt_dep c)) (reachable (nt_dep c))
       (dp_rfc (nt_dep c)) (qp_steps p))"

lemma execute_query_runs:
  assumes "networked_ok c" "gs_discovery S = Ok (dp_map (nt_dep c))"
    and "gs_executor S = \<lparr>sg_rpc = networked_rpc c, sg_hasher = dp_hasher (nt_dep c)\<rparr>"
    and "edge_def (gs_schema S) (EdgeType []) = None" "pest_conforms pest"
    and "parse pest dsl = Ok q" "validate q (gs_schema S) = Ok ()" "plan q = (Ok p :: (Status, _) res)" "runnable c q"
  shows "\<exists>bs. execute_query (dp_hash (nt_dep c)) (dp_order (nt_dep c)) (dp_rfc (nt_dep c)) pest S dsl =
      Ok (map (spec_row (dp_data (nt_dep c)) (reachable (nt_dep c)) (qp_project p))
        (limited (q_limit q) (ordered_rows (dp_data (nt_dep c)) (reachable (nt_dep c)) (q_order_by q) bs))) \<and>
    set bs = spec_plan (dp_data (nt_dep c)) (reachable (nt_dep c)) (dp_rfc (nt_dep c)) (qp_steps p) \<and> distinct bs"
proof (rule networked_answers.execute_query_output [OF assms(1-3,6,7,8)])
  have "\<forall>sq \<in> set (List.map_filter not_exists_of (q_where_conditions q)). \<not> compares_with_itself sq"
    using assms(9) by (auto simp: runnable_def List.map_filter_def not_exists_of_def split: WhereCondition.splits)
  then show "wf_plan (qp_steps p)"
    using good_query_names [OF parse_good_query [OF assms(5,6)] assms(4)]
    by (intro validated_plan_wf [OF assms(7,8)])
  show "small_plan (\<lambda>n. n \<le> 2 ^ 32) (dp_data (nt_dep c)) (reachable (nt_dep c)) (dp_rfc (nt_dep c)) (qp_steps p)"
    using assms(8,9) by (simp add: runnable_def)
qed

lemma parse_cases:
  assumes "pest_conforms pest"
  obtains (err) e where "pest dsl = Err e" "parse pest dsl = Err (syntax_error e)"
  | (panics) t m where "pest dsl = Ok [t]" "\<not> numbers_fit t" "parse pest dsl = Panic m"
  | (parsed) t q where "pest dsl = Ok [t]" "numbers_fit t" "parse pest dsl = Ok q"
proof (cases "pest dsl")
  case (Ok ts)
  then obtain t where t: "pest dsl = Ok [t]" "as_rule t = R_query" "conforms t"
    using assms unfolding pest_conforms_def by (auto dest!: spec [of _ dsl])
  show ?thesis
    using parse_query_outcome [OF t(3,2), of pest dsl] t(1) panics parsed
    by (auto simp: outcome_cases split: res.splits)
next
  case (Err e)
  then show ?thesis by (intro err) (simp_all add: parse_def)
next
  case (Panic m)
  then show ?thesis using assms unfolding pest_conforms_def by (auto dest!: spec [of _ dsl])
qed

lemma query_outcomes:
  assumes c: "networked_ok c" "gs_discovery S = Ok (dp_map (nt_dep c))"
    "gs_executor S = \<lparr>sg_rpc = networked_rpc c, sg_hasher = dp_hasher (nt_dep c)\<rparr>"
    "edge_def (gs_schema S) (EdgeType []) = None" "pest_conforms pest"
    and run: "\<forall>q. parse pest dsl = Ok q \<longrightarrow> runnable c q"
  shows "case execute_query (dp_hash (nt_dep c)) (dp_order (nt_dep c)) (dp_rfc (nt_dep c)) pest S dsl of
      Ok rows \<Rightarrow> \<exists>q. parse pest dsl = Ok q \<and> validate q (gs_schema S) = Ok () \<and> plan_supported q
    | Err st \<Rightarrow> st_code st = InvalidArgument \<and>
        ((\<exists>e. pest dsl = Err e) \<or> (\<exists>q es. parse pest dsl = Ok q \<and> validate q (gs_schema S) = Err es))
    | Panic _ \<Rightarrow> (\<exists>t. pest dsl = Ok [t] \<and> \<not> numbers_fit t) \<or>
        (\<exists>q. parse pest dsl = Ok q \<and> validate q (gs_schema S) = Ok () \<and> \<not> plan_supported q)"
proof (rule parse_cases [OF c(5), where dsl = dsl], goal_cases err panics parsed)
  case (parsed t q)
  show ?thesis
  proof (cases "validate q (gs_schema S)")
    case (Ok u)
    show ?thesis
    proof (cases "plan_supported q")
      case True
      then have "\<exists>p. plan q = (Ok p :: (Status, _) res)" by (simp add: plan_Ok_iff)
      then obtain p where p: "plan q = (Ok p :: (Status, _) res)" ..
      from execute_query_runs [OF c parsed(3) _ p] run parsed(3) Ok True show ?thesis by auto
    next
      case False
      then obtain m where "plan q = (Panic m :: (Status, _) res)"
        using plan_panics_iff [of q] by (metis res.exhaust is_panic_simps(2,3))
      then show ?thesis using Ok parsed False by (auto simp: execute_query_def)
    qed
  qed (use parsed in \<open>auto simp: execute_query_def invalid_argument_def validate_def Let_def split: if_splits prod.splits\<close>)
qed (auto simp: execute_query_def invalid_argument_def)

end
