(* ===== verification/Schema_Evolution.thy ===== *)
theory Schema_Evolution
  imports Dsl_Validator
begin

text \<open>
  \<open>graph-schema/src/evolution.rs\<close>: the classification of a change of schema, and what a
  compatible change guarantees: every query that was valid stays valid.
\<close>

section \<open>Classification\<close>

datatype EvolutionKind = Compatible | Incompatible "string list"

definition property_reason :: "string \<Rightarrow> PropertyDef list \<Rightarrow> PropertyDef \<Rightarrow> string list" where
  "property_reason owner new_props from_prop =
     (case find (\<lambda>p. pd_name p = pd_name from_prop) new_props of
        Some to_prop \<Rightarrow>
          if pd_ty to_prop \<noteq> pd_ty from_prop
          then [owner @ '': property '' @ pd_name from_prop @ '' changed type from ''
                @ show_scalar_type (pd_ty from_prop) @ '' to '' @ show_scalar_type (pd_ty to_prop)]
          else []
      | None \<Rightarrow> [owner @ '': property '' @ pd_name from_prop @ '' was removed''])"

definition diff_properties :: "string \<Rightarrow> PropertyDef list \<Rightarrow> PropertyDef list \<Rightarrow> string list \<Rightarrow> string list" where
  "diff_properties owner old_props new_props reasons =
     foldl (\<lambda>reasons p. reasons @ property_reason owner new_props p) reasons old_props"

definition diff :: "Schema \<Rightarrow> Schema \<Rightarrow> EvolutionKind" where
  "diff old new =
     (let reasons = foldl (\<lambda>reasons (l, from_node).
            case fmlookup (sch_nodes new) l of
              Some to_node \<Rightarrow> diff_properties (''node '' @ label_name l) (nd_properties from_node)
                                (nd_properties to_node) reasons
            | None \<Rightarrow> reasons @ [''node label '' @ label_name l @ '' was removed''])
          [] (sorted_list_of_fmap (sch_nodes old));
          reasons = foldl (\<lambda>reasons (t, from_edge).
            case fmlookup (sch_edges new) t of
              Some to_edge \<Rightarrow> diff_properties (''edge '' @ edge_type_name t) (ed_properties from_edge)
                                (ed_properties to_edge) reasons
            | None \<Rightarrow> reasons @ [''edge type '' @ edge_type_name t @ '' was removed''])
          reasons (sorted_list_of_fmap (sch_edges old))
      in if reasons = [] then Compatible else Incompatible reasons)"

section \<open>What compatible means\<close>

text \<open>Every property is still declared, with its type.\<close>

definition keeps_properties :: "PropertyDef list \<Rightarrow> PropertyDef list \<Rightarrow> bool" where
  "keeps_properties old_props new_props \<longleftrightarrow>
     list_all (\<lambda>p. \<exists>p'. find (\<lambda>x. pd_name x = pd_name p) new_props = Some p' \<and> pd_ty p' = pd_ty p) old_props"

definition keeps_schema :: "Schema \<Rightarrow> Schema \<Rightarrow> bool" where
  "keeps_schema old new \<longleftrightarrow>
     (\<forall>l nd. node_def old l = Some nd \<longrightarrow>
        (\<exists>nd'. node_def new l = Some nd' \<and> keeps_properties (nd_properties nd) (nd_properties nd'))) \<and>
     (\<forall>t ed. edge_def old t = Some ed \<longrightarrow>
        (\<exists>ed'. edge_def new t = Some ed' \<and> keeps_properties (ed_properties ed) (ed_properties ed')))"

lemma property_reason_Nil:
  "property_reason owner new p = [] \<longleftrightarrow>
   (\<exists>p'. find (\<lambda>x. pd_name x = pd_name p) new = Some p' \<and> pd_ty p' = pd_ty p)"
  by (auto simp: property_reason_def split: option.split)

lemma diff_properties_Nil:
  "diff_properties owner old new reasons = [] \<longleftrightarrow> reasons = [] \<and> keeps_properties old new"
  unfolding diff_properties_def keeps_properties_def
  by (induction old arbitrary: reasons) (auto simp: property_reason_Nil)

text \<open>A loop that only adds reasons ends with none iff it started with none and no step has one.\<close>

lemma foldl_reasons_Nil:
  assumes "\<And>reasons x. f reasons x = [] \<longleftrightarrow> reasons = [] \<and> P x"
  shows "foldl f reasons xs = [] \<longleftrightarrow> reasons = [] \<and> (\<forall>x \<in> set xs. P x)"
  by (induction xs arbitrary: reasons) (auto simp: assms)

lemma diff_Compatible_iff: "diff old new = Compatible \<longleftrightarrow> keeps_schema old new"
proof -
  have n: "foldl (\<lambda>reasons (l, from_node). case fmlookup (sch_nodes new) l of
        Some to_node \<Rightarrow> diff_properties (''node '' @ label_name l) (nd_properties from_node)
                          (nd_properties to_node) reasons
      | None \<Rightarrow> reasons @ [''node label '' @ label_name l @ '' was removed'']) reasons xs = [] \<longleftrightarrow>
    reasons = [] \<and> (\<forall>x \<in> set xs. \<exists>nd'. fmlookup (sch_nodes new) (fst x) = Some nd' \<and>
      keeps_properties (nd_properties (snd x)) (nd_properties nd'))" for reasons xs
    by (rule foldl_reasons_Nil) (auto simp: diff_properties_Nil split: option.splits)
  have e: "foldl (\<lambda>reasons (t, from_edge). case fmlookup (sch_edges new) t of
        Some to_edge \<Rightarrow> diff_properties (''edge '' @ edge_type_name t) (ed_properties from_edge)
                          (ed_properties to_edge) reasons
      | None \<Rightarrow> reasons @ [''edge type '' @ edge_type_name t @ '' was removed'']) reasons xs = [] \<longleftrightarrow>
    reasons = [] \<and> (\<forall>x \<in> set xs. \<exists>ed'. fmlookup (sch_edges new) (fst x) = Some ed' \<and>
      keeps_properties (ed_properties (snd x)) (ed_properties ed'))" for reasons xs
    by (rule foldl_reasons_Nil) (auto simp: diff_properties_Nil split: option.splits)
  show ?thesis
    by (simp add: diff_def Let_def n e keeps_schema_def node_def_def edge_def_def set_sorted_list_of_fmap)
qed

section \<open>Valid queries stay valid\<close>

lemma keeps_properties_find:
  assumes "keeps_properties old new" "find (\<lambda>x. pd_name x = k) old = Some p"
  shows "\<exists>p'. find (\<lambda>x. pd_name x = k) new = Some p' \<and> pd_ty p' = pd_ty p"
proof -
  have "p \<in> set old" "pd_name p = k" using assms(2) by (auto simp: find_Some_iff)
  with assms(1) show ?thesis by (auto simp: keeps_properties_def list_all_iff)
qed

lemma validate_property_kept:
  "keeps_properties old new \<Longrightarrow> validate_property old owner k op = [] \<Longrightarrow> validate_property new owner' k op = []"
  by (auto simp: validate_property_def split: option.splits if_splits dest: keeps_properties_find)

lemma node_def_kept: "keeps_schema old new \<Longrightarrow> node_def old l = Some nd \<Longrightarrow>
    \<exists>nd'. node_def new l = Some nd' \<and> keeps_properties (nd_properties nd) (nd_properties nd')"
  by (simp add: keeps_schema_def)

lemma edge_def_kept: "keeps_schema old new \<Longrightarrow> edge_def old t = Some ed \<Longrightarrow>
    \<exists>ed'. edge_def new t = Some ed' \<and> keeps_properties (ed_properties ed) (ed_properties ed')"
  by (simp add: keeps_schema_def)

text \<open>The labels and edge types of a scope are declared, once the patterns have been checked.\<close>

definition scope_declared :: "Schema \<Rightarrow> Scope \<Rightarrow> bool" where
  "scope_declared schema scope \<longleftrightarrow>
     fmpred (\<lambda>_ l. node_def schema l \<noteq> None) (sc_node_labels scope) \<and>
     fmpred (\<lambda>_ t. edge_def schema t \<noteq> None) (sc_edge_types scope)"

lemma validate_node_filter_kept:
  assumes "keeps_schema old new" "node_def old l \<noteq> None" "validate_node_property_filter l f old = []"
  shows "validate_node_property_filter l f new = []"
proof -
  obtain nd where nd: "node_def old l = Some nd" using assms(2) by blast
  with node_def_kept [OF assms(1) nd] assms(3) show ?thesis
    by (auto simp: validate_node_property_filter_def intro: validate_property_kept)
qed

lemma validate_edge_property_kept:
  assumes "keeps_schema old new" "edge_def old t \<noteq> None" "validate_edge_property t k op old = []"
  shows "validate_edge_property t k op new = []"
proof -
  obtain ed where ed: "edge_def old t = Some ed" using assms(2) by blast
  with edge_def_kept [OF assms(1) ed] assms(3) show ?thesis
    by (auto simp: validate_edge_property_def intro: validate_property_kept)
qed

lemma validate_node_pattern_kept:
  assumes "keeps_schema old new" "validate_node_pattern n old = []"
  shows "validate_node_pattern n new = []"
proof (cases "np_label n")
  case (Some l)
  then obtain nd where nd: "node_def old l = Some nd"
    and filters: "\<forall>f \<in> set (np_property_filters n). validate_node_property_filter l f old = []"
    using assms(2) by (auto simp: validate_node_pattern_def split: option.splits)
  then have "\<forall>f \<in> set (np_property_filters n). validate_node_property_filter l f new = []"
    using validate_node_filter_kept [OF assms(1)] by auto
  then show ?thesis using node_def_kept [OF assms(1) nd] Some by (auto simp: validate_node_pattern_def)
qed (simp add: validate_node_pattern_def)

lemma validate_edge_pattern_kept:
  assumes "keeps_schema old new" "validate_edge_pattern e old = []"
  shows "validate_edge_pattern e new = []"
proof (cases "ep_edge_type e")
  case (Some t)
  then obtain ed where "edge_def old t = Some ed"
    using assms(2) by (auto simp: validate_edge_pattern_def split: if_splits)
  with edge_def_kept [OF assms(1) this] assms(2) Some show ?thesis
    by (auto simp: validate_edge_pattern_def split: if_splits)
qed (use assms(2) in \<open>simp add: validate_edge_pattern_def\<close>)

lemma validated_edge_declared:
  "validate_edge_pattern e schema = [] \<Longrightarrow> scope_declared schema scope \<Longrightarrow>
   scope_declared schema (bind_edge_type e scope)"
  by (auto simp: validate_edge_pattern_def bind_edge_type_def scope_declared_def
      split: option.splits if_splits)

lemma validated_node_declared:
  "validate_node_pattern n schema = [] \<Longrightarrow> scope_declared schema scope \<Longrightarrow>
   scope_declared schema (bind_pattern_node n scope)"
  by (auto simp: validate_node_pattern_def bind_pattern_node_def scope_declared_def Let_def
      split: option.splits if_splits)

lemma validate_steps_kept:
  assumes "keeps_schema old new"
  shows "fst (foldl (validate_step old) ([], scope) steps) = [] \<Longrightarrow> scope_declared old scope \<Longrightarrow>
    foldl (validate_step new) ([], scope) steps = foldl (validate_step old) ([], scope) steps \<and>
    scope_declared old (snd (foldl (validate_step old) ([], scope) steps))"
proof (induction steps arbitrary: scope)
  case (Cons st steps)
  show ?case
  proof (cases st)
    case (StepNode n)
    have "validate_node_pattern n old = []"
      using Cons.prems(1) by (simp add: StepNode foldl_validate_step)
    with Cons validate_node_pattern_kept [OF assms] validated_node_declared show ?thesis
      by (simp add: StepNode)
  next
    case (StepEdge e)
    have "validate_edge_pattern e old = []"
      using Cons.prems(1) by (simp add: StepEdge foldl_validate_step)
    with Cons validate_edge_pattern_kept [OF assms] validated_edge_declared show ?thesis
      by (simp add: StepEdge)
  qed
qed simp

lemma validate_property_ref_kept:
  assumes "keeps_schema old new" "scope_declared old scope" "validate_property_ref scope old a k op = []"
  shows "validate_property_ref scope new a k op = []"
  using assms(2,3) validate_node_filter_kept [OF assms(1)] validate_edge_property_kept [OF assms(1)]
  by (auto simp: validate_property_ref_def scope_declared_def dest: fmpredD split: option.splits)

lemma validate_conditions_kept:
  "keeps_schema old new \<Longrightarrow> scope_declared old scope \<Longrightarrow> validate_where_condition c old scope ne = [] \<Longrightarrow>
     validate_where_condition c new scope ne = []"
  "keeps_schema old new \<Longrightarrow> scope_declared old scope \<Longrightarrow> validate_not_exists sq old scope = [] \<Longrightarrow>
     validate_not_exists sq new scope = []"
proof (induction c old scope ne and sq old scope rule: validate_where_condition_validate_not_exists.induct)
  case (5 pattern conditions schema outer)
  show ?case
  proof (cases "\<exists>n e m. pattern = [StepNode n, StepEdge e, StepNode m]")
    case True
    then obtain n e m where p: "pattern = [StepNode n, StepEdge e, StepNode m]" by blast
    then have "validate_edge_pattern e schema = []" using 5 by simp
    with 5 p validated_edge_declared [of e schema outer] validate_edge_pattern_kept [of schema new e] show ?thesis
      by (auto split: if_splits)
  next
    case False
    then show ?thesis using 5 by (auto split: list.splits PatternStep.splits)
  qed
qed (auto intro: validate_property_ref_kept split: if_splits)

lemma validate_return_item_kept:
  "keeps_schema old new \<Longrightarrow> scope_declared old scope \<Longrightarrow> validate_return_item item old scope = [] \<Longrightarrow>
   validate_return_item item new scope = []"
  by (auto simp: validate_return_item_def intro: validate_property_ref_kept split: option.splits if_splits)

lemma validate_order_by_kept:
  "keeps_schema old new \<Longrightarrow> scope_declared old scope \<Longrightarrow> validate_order_by o1 old scope = [] \<Longrightarrow>
   validate_order_by o1 new scope = []"
  by (auto simp: validate_order_by_def intro: validate_property_ref_kept)

lemma validate_kept:
  assumes "keeps_schema old new" "validate q old = Ok ()"
  shows "validate q new = Ok ()"
proof -
  obtain scope where run: "foldl (validate_step old) ([], empty_scope) (q_pattern q) = ([], scope)"
    and ok: "\<forall>c \<in> set (q_where_conditions q). validate_where_condition c old scope True = []"
      "\<forall>item \<in> set (q_returns q). validate_return_item item old scope = []"
      "case q_order_by q of Some o1 \<Rightarrow> validate_order_by o1 old scope = [] | None \<Rightarrow> True"
    using assms(2)
    by (cases "foldl (validate_step old) ([], empty_scope) (q_pattern q)")
      (auto simp: validate_def split: if_splits option.splits)
  have "scope_declared old empty_scope" by (simp add: scope_declared_def empty_scope_def)
  with validate_steps_kept [OF assms(1), of empty_scope "q_pattern q"] run
  have new: "foldl (validate_step new) ([], empty_scope) (q_pattern q) = ([], scope)"
    and declared: "scope_declared old scope" by auto
  show ?thesis
    using ok validate_conditions_kept(1) [OF assms(1) declared] validate_return_item_kept [OF assms(1) declared]
      validate_order_by_kept [OF assms(1) declared]
    by (auto simp: validate_def new split: option.split)
qed

lemma keeps_schema_trans:
  assumes "keeps_schema a b" "keeps_schema b c"
  shows "keeps_schema a c"
proof -
  have props: "keeps_properties xs zs" if "keeps_properties xs ys" "keeps_properties ys zs" for xs ys zs
    using that(1) keeps_properties_find [OF that(2)] by (force simp: keeps_properties_def list_all_iff)
  show ?thesis
    using assms props unfolding keeps_schema_def by meson
qed

end
