(* ===== verification/Schema_Parser.thy ===== *)
theory Schema_Parser
  imports Pest_Tree Graph_Schema
begin

text \<open>
  \<open>graph-schema/src/parser.rs\<close> and \<open>schema.pest\<close>: the walk of the token tree of a schema
  file into a \<open>Schema\<close>, with its checks of duplicates and of edge endpoints. The generated
  parser is a parameter. The texts of the panics are abridged, those of the errors are not.
\<close>

section \<open>The rules of the grammar\<close>

datatype SRule =
    S_schema_file | S_schema_decl | S_node_decl | S_edge_decl | S_id_field | S_from_field | S_to_field
  | S_property_decl | S_indexed_marker | S_optional_marker | S_scalar_type | S_simple_type | S_list_type
  | S_vector_type | S_ident | S_number | S_EOI

section \<open>The walk\<close>

definition parse_simple_type :: "string \<Rightarrow> ('e, ScalarType) res" where
  "parse_simple_type s =
     (if s = ''Int64'' then Ok TInt64 else if s = ''Float64'' then Ok TFloat64
      else if s = ''Bool'' then Ok TBool else if s = ''String'' then Ok TString
      else if s = ''Timestamp'' then Ok TTimestamp else if s = ''Bytes'' then Ok TBytes
      else Panic ''grammar's simple_type alternatives are exhaustive'')"

definition parse_vector_type :: "SRule Pair \<Rightarrow> ('e, ScalarType) res" where
  "parse_vector_type inner =
     res_bind (next_pair ''vector_type wraps its dimension number'' (into_inner inner)) (\<lambda>(number, _).
     res_map TVector (expect ''the number rule only matches ASCII digits'' (parse_u32 (as_str number))))"

function (sequential) parse_scalar_type :: "SRule Pair \<Rightarrow> ('e, ScalarType) res" where
  "parse_scalar_type (Pair r s []) = Panic ''scalar_type wraps exactly one alternative''"
| "parse_scalar_type (Pair r s (inner # rest)) =
     (case as_rule inner of
        S_simple_type \<Rightarrow> parse_simple_type (as_str inner)
      | S_list_type \<Rightarrow>
          (case into_inner inner of
             [] \<Rightarrow> Panic ''list_type wraps its element scalar_type''
           | el # _ \<Rightarrow> res_map TList (parse_scalar_type el))
      | S_vector_type \<Rightarrow> parse_vector_type inner
      | _ \<Rightarrow> Panic ''scalar_type only wraps simple_type/list_type/vector_type'')"
  by pat_completeness auto
termination
proof (relation "measure size", goal_cases)
  case (2 r s inner rest el els)
  then have "size el < size inner" by (intro size_into_inner) simp
  then show ?case by simp
qed simp

declare parse_scalar_type.simps [simp del]

text \<open>The four variables of \<open>parse_property_decl\<close>.\<close>

record PropertyParts =
  pp_indexed :: bool
  pp_name :: "string option"
  pp_ty :: "ScalarType option"
  pp_optional :: bool

definition parse_property_part :: "PropertyParts \<Rightarrow> SRule Pair \<Rightarrow> ('e, PropertyParts) res" where
  "parse_property_part parts p =
     (case as_rule p of
        S_indexed_marker \<Rightarrow> Ok (parts\<lparr>pp_indexed := True\<rparr>)
      | S_ident \<Rightarrow> Ok (parts\<lparr>pp_name := Some (as_str p)\<rparr>)
      | S_scalar_type \<Rightarrow> res_map (\<lambda>t. parts\<lparr>pp_ty := Some t\<rparr>) (parse_scalar_type p)
      | S_optional_marker \<Rightarrow> Ok (parts\<lparr>pp_optional := True\<rparr>)
      | _ \<Rightarrow> Panic ''property_decl only yields indexed_marker/ident/scalar_type/optional_marker'')"

definition parse_property_decl :: "SRule Pair \<Rightarrow> ('e, PropertyDef) res" where
  "parse_property_decl pair =
     res_bind (fold_res parse_property_part
         \<lparr>pp_indexed = False, pp_name = None, pp_ty = None, pp_optional = False\<rparr> (into_inner pair)) (\<lambda>parts.
     res_bind (expect ''grammar requires a property name'' (pp_name parts)) (\<lambda>name.
     res_bind (expect ''grammar requires a property type'' (pp_ty parts)) (\<lambda>ty.
     Ok \<lparr>pd_name = name, pd_ty = ty, pd_optional = pp_optional parts, pd_indexed = pp_indexed parts\<rparr>)))"

definition field_label :: "SRule Pair \<Rightarrow> ('e, Label) res" where
  "field_label pair =
     res_bind (next_pair ''from_field/to_field wrap a label ident'' (into_inner pair)) (\<lambda>(p, _).
     Ok (Label (as_str p)))"

definition parse_node_decl :: "SRule Pair \<Rightarrow> ('e, NodeDef) res" where
  "parse_node_decl pair =
     res_bind (next_pair ''node_decl starts with its label ident'' (into_inner pair)) (\<lambda>(l, inner).
     fold_res (\<lambda>nd p.
       case as_rule p of
         S_id_field \<Rightarrow> Ok nd
       | S_property_decl \<Rightarrow> res_map (\<lambda>d. nd\<lparr>nd_properties := nd_properties nd @ [d]\<rparr>) (parse_property_decl p)
       | _ \<Rightarrow> Panic ''node_decl body only yields id_field/property_decl'')
       \<lparr>nd_label = Label (as_str l), nd_properties = []\<rparr> inner)"

text \<open>The variables \<open>from\<close>, \<open>to\<close> and \<open>properties\<close> of \<open>parse_edge_decl\<close>.\<close>

record EdgeParts =
  edp_from :: "Label option"
  edp_to :: "Label option"
  edp_properties :: "PropertyDef list"

definition parse_edge_part :: "EdgeParts \<Rightarrow> SRule Pair \<Rightarrow> ('e, EdgeParts) res" where
  "parse_edge_part parts p =
     (case as_rule p of
        S_from_field \<Rightarrow> res_map (\<lambda>l. parts\<lparr>edp_from := Some l\<rparr>) (field_label p)
      | S_to_field \<Rightarrow> res_map (\<lambda>l. parts\<lparr>edp_to := Some l\<rparr>) (field_label p)
      | S_property_decl \<Rightarrow>
          res_map (\<lambda>d. parts\<lparr>edp_properties := edp_properties parts @ [d]\<rparr>) (parse_property_decl p)
      | _ \<Rightarrow> Panic ''edge_decl body only yields from_field/to_field/property_decl'')"

definition parse_edge_decl :: "SRule Pair \<Rightarrow> ('e, EdgeDef) res" where
  "parse_edge_decl pair =
     res_bind (next_pair ''edge_decl starts with its type ident'' (into_inner pair)) (\<lambda>(t, inner).
     res_bind (fold_res parse_edge_part \<lparr>edp_from = None, edp_to = None, edp_properties = []\<rparr> inner) (\<lambda>parts.
     res_bind (expect ''grammar requires a from_field'' (edp_from parts)) (\<lambda>from_label.
     res_bind (expect ''grammar requires a to_field'' (edp_to parts)) (\<lambda>to_label.
     Ok \<lparr>ed_edge_type = EdgeType (as_str t), ed_from = from_label, ed_to = to_label,
         ed_properties = edp_properties parts\<rparr>))))"

type_synonym SchemaMaps = "(Label, NodeDef) fmap \<times> (EdgeType, EdgeDef) fmap"

definition parse_type_decl :: "SchemaMaps \<Rightarrow> SRule Pair \<Rightarrow> (SchemaError, SchemaMaps) res" where
  "parse_type_decl m decl =
     (case as_rule decl of
        S_node_decl \<Rightarrow>
          res_bind (parse_node_decl decl) (\<lambda>node.
          if nd_label node |\<in>| fmdom (fst m)
          then Err (SchemaParse (''duplicate node label: '' @ label_name (nd_label node)))
          else Ok (fmupd (nd_label node) node (fst m), snd m))
      | S_edge_decl \<Rightarrow>
          res_bind (parse_edge_decl decl) (\<lambda>edge.
          if ed_edge_type edge |\<in>| fmdom (snd m)
          then Err (SchemaParse (''duplicate edge type: '' @ edge_type_name (ed_edge_type edge)))
          else Ok (fst m, fmupd (ed_edge_type edge) edge (snd m)))
      | _ \<Rightarrow> Panic ''schema_decl only yields node_decl/edge_decl'')"

definition check_endpoints :: "(Label, NodeDef) fmap \<Rightarrow> EdgeDef \<Rightarrow> (SchemaError, unit) res" where
  "check_endpoints nodes edge =
     (if ed_from edge |\<notin>| fmdom nodes
      then Err (SchemaParse (''edge '' @ edge_type_name (ed_edge_type edge) @
             '' references unknown source label '' @ label_name (ed_from edge)))
      else if ed_to edge |\<notin>| fmdom nodes
      then Err (SchemaParse (''edge '' @ edge_type_name (ed_edge_type edge) @
             '' references unknown target label '' @ label_name (ed_to edge)))
      else Ok ())"

definition schema_parse :: "(string \<Rightarrow> (string, SRule Pair list) res) \<Rightarrow> string \<Rightarrow> (SchemaError, Schema) res" where
  "schema_parse pest idl_source =
     res_bind (map_err SchemaParse (pest idl_source)) (\<lambda>pairs.
     res_bind (next_pair ''schema_file is the grammar's only top-level rule'' pairs) (\<lambda>(schema_file, _).
     res_bind (expect ''schema_file always contains exactly one schema_decl''
                 (find (\<lambda>p. as_rule p = S_schema_decl) (into_inner schema_file))) (\<lambda>schema_decl.
     res_bind (next_pair ''schema_decl starts with its version ident'' (into_inner schema_decl)) (\<lambda>(version, inner).
     res_bind (fold_res parse_type_decl (fmempty, fmempty) inner) (\<lambda>(nodes, edges).
     res_bind (fold_res (\<lambda>_ e. check_endpoints nodes (snd e)) () (sorted_list_of_fmap edges)) (\<lambda>_.
     Ok \<lparr>sch_version = as_str version, sch_nodes = nodes, sch_edges = edges\<rparr>))))))"

end
