(* ===== verification/Schema_Grammar.thy ===== *)
theory Schema_Grammar
  imports Schema_Parser
begin

text \<open>
  \<open>schema.pest\<close>: the shape of the token trees of a schema file, and what the parser makes of a
  tree of that shape: a well-formed schema, or one of its four errors, and a panic only when
  the dimension of a vector type does not fit a \<open>u32\<close>.
\<close>

section \<open>Shapes\<close>

fun schema_shape :: "SRule \<Rightarrow> string \<Rightarrow> SRule list \<Rightarrow> bool" where
  "schema_shape S_schema_file s rs = (rs = [S_schema_decl, S_EOI])"
| "schema_shape S_schema_decl s rs =
     (\<exists>ds. rs = S_ident # ds \<and> list_all (\<lambda>r. r = S_node_decl \<or> r = S_edge_decl) ds)"
| "schema_shape S_node_decl s rs =
     (\<exists>ps. rs = S_ident # S_id_field # ps \<and> list_all (\<lambda>r. r = S_property_decl) ps)"
| "schema_shape S_edge_decl s rs =
     (\<exists>ps. rs = S_ident # S_from_field # S_to_field # ps \<and> list_all (\<lambda>r. r = S_property_decl) ps)"
| "schema_shape S_from_field s rs = (rs = [S_ident])"
| "schema_shape S_to_field s rs = (rs = [S_ident])"
| "schema_shape S_property_decl s rs =
     (\<exists>i \<in> opt S_indexed_marker. \<exists>q \<in> opt S_optional_marker. rs = i @ [S_ident, S_scalar_type] @ q)"
| "schema_shape S_scalar_type s rs = (\<exists>r \<in> {S_list_type, S_vector_type, S_simple_type}. rs = [r])"
| "schema_shape S_simple_type s rs =
     (rs = [] \<and> s \<in> {''Int64'', ''Float64'', ''Bool'', ''String'', ''Timestamp'', ''Bytes''})"
| "schema_shape S_list_type s rs = (rs = [S_scalar_type])"
| "schema_shape S_vector_type s rs = (rs = [S_number])"
| "schema_shape S_number s rs = (rs = [] \<and> is_number s)"
| "schema_shape S_ident s rs = (rs = [] \<and> s \<noteq> [])"
| "schema_shape _ s rs = (rs = [])"

fun schema_conforms :: "SRule Pair \<Rightarrow> bool" where
  "schema_conforms (Pair r s inner) = (schema_shape r s (map as_rule inner) \<and> list_all schema_conforms inner)"

text \<open>The dimensions of the vector types in a tree fit a \<open>u32\<close>.\<close>

fun dims_fit :: "SRule Pair \<Rightarrow> bool" where
  "dims_fit (Pair r s inner) =
     ((r = S_vector_type \<longrightarrow> list_all (\<lambda>p. parse_u32 (as_str p) \<noteq> None) inner) \<and> list_all dims_fit inner)"

definition schema_pest_conforms :: "(string \<Rightarrow> (string, SRule Pair list) res) \<Rightarrow> bool" where
  "schema_pest_conforms pest \<longleftrightarrow>
     (\<forall>source. case pest source of
        Ok ps \<Rightarrow> (\<exists>p. ps = [p] \<and> as_rule p = S_schema_file \<and> schema_conforms p)
      | Err _ \<Rightarrow> True
      | Panic _ \<Rightarrow> False)"

section \<open>What a tree declares\<close>

definition decl_name :: "SRule Pair \<Rightarrow> string" where
  "decl_name p = as_str (hd (into_inner p))"

definition schema_decls :: "SRule Pair \<Rightarrow> SRule Pair list" where
  "schema_decls p = tl (into_inner (hd (into_inner p)))"

definition declared_labels :: "SRule Pair list \<Rightarrow> Label list" where
  "declared_labels ds = map (Label \<circ> decl_name) (filter (\<lambda>d. as_rule d = S_node_decl) ds)"

definition declared_edges :: "SRule Pair list \<Rightarrow> (EdgeType \<times> Label \<times> Label) list" where
  "declared_edges ds = map (\<lambda>d. (EdgeType (decl_name d), Label (decl_name (into_inner d ! 1)),
       Label (decl_name (into_inner d ! 2)))) (filter (\<lambda>d. as_rule d = S_edge_decl) ds)"

lemma declared_simps [simp]:
  "declared_labels [] = []" "declared_edges [] = []"
  "declared_labels (d # ds) = (if as_rule d = S_node_decl then [Label (decl_name d)] else []) @ declared_labels ds"
  "declared_edges (d # ds) = (if as_rule d = S_edge_decl then [(EdgeType (decl_name d),
     Label (decl_name (into_inner d ! 1)), Label (decl_name (into_inner d ! 2)))] else []) @ declared_edges ds"
  by (simp_all add: declared_labels_def declared_edges_def)

text \<open>The checks of the parser, on the declarations.\<close>

definition declarations_ok :: "SRule Pair list \<Rightarrow> bool" where
  "declarations_ok ds \<longleftrightarrow>
     distinct (declared_labels ds) \<and> distinct (map fst (declared_edges ds)) \<and>
     list_all (\<lambda>(t, a, b). a \<in> set (declared_labels ds) \<and> b \<in> set (declared_labels ds)) (declared_edges ds)"

section \<open>Walks\<close>

lemmas schema_map_simps = map_eq_Cons_conv opt_def

lemma map_append_split:
  assumes "map f xs = as @ bs"
  obtains us vs where "xs = us @ vs" "map f us = as" "map f vs = bs"
proof (rule that)
  show "xs = take (length as) xs @ drop (length as) xs" by simp
  show "map f (take (length as) xs) = as" "map f (drop (length as) xs) = bs"
    using assms by (simp_all add: take_map [symmetric] drop_map [symmetric])
qed

lemma schema_conforms_rule:
  assumes "schema_conforms p" "as_rule p = r"
  obtains s inner where "p = Pair r s inner" "schema_shape r s (map as_rule inner)"
    "\<forall>q \<in> set inner. schema_conforms q"
  using assms by (cases p) (auto simp: list_all_iff)

lemma schema_leaf:
  "schema_conforms p \<Longrightarrow>
   as_rule p \<in> {S_ident, S_number, S_EOI, S_id_field, S_indexed_marker, S_optional_marker, S_simple_type} \<Longrightarrow>
   dims_fit p"
  by (cases p) auto

lemma field_outcome:
  assumes "schema_conforms p" "as_rule p = S_from_field \<or> as_rule p = S_to_field"
  shows "dims_fit p" "field_label p = (Ok (Label (decl_name p)) :: ('e, Label) res)"
proof -
  obtain r s a where p: "p = Pair r s [a]" "as_rule a = S_ident" "schema_conforms a" "r \<noteq> S_vector_type"
    using assms by (cases p) (auto simp: schema_map_simps)
  then show "dims_fit p" "field_label p = (Ok (Label (decl_name p)) :: ('e, Label) res)"
    using schema_leaf [of a] by (auto simp: field_label_def decl_name_def)
qed

lemma parse_simple_type_Ok:
  "schema_conforms p \<Longrightarrow> as_rule p = S_simple_type \<Longrightarrow> \<exists>t. parse_simple_type (as_str p) = (Ok t :: ('e, _) res)"
  by (cases p) (auto simp: parse_simple_type_def)

lemma parse_vector_type_outcome:
  assumes "schema_conforms p" "as_rule p = S_vector_type"
  shows "outcome (dims_fit p) (\<lambda>_. True) (parse_vector_type p :: ('e, _) res)"
proof -
  obtain s n where p: "p = Pair S_vector_type s [n]" "as_rule n = S_number" "schema_conforms n"
    using assms by (cases p) (auto simp: schema_map_simps)
  then show ?thesis
    using schema_leaf [of n] by (auto simp: parse_vector_type_def outcome_cases expect_def split: option.splits)
qed

lemma parse_scalar_type_outcome:
  "schema_conforms p \<Longrightarrow> as_rule p = S_scalar_type \<Longrightarrow>
   outcome (dims_fit p) (\<lambda>_. True) (parse_scalar_type p :: ('e, _) res)"
proof (induction p rule: parse_scalar_type.induct)
  case (2 r s inner rest)
  then have inner: "rest = []" "r = S_scalar_type" "schema_conforms inner"
    "as_rule inner \<in> {S_list_type, S_vector_type, S_simple_type}" by auto
  consider "as_rule inner = S_simple_type" | "as_rule inner = S_vector_type" | "as_rule inner = S_list_type"
    using inner(4) by auto
  then show ?case
  proof cases
    case 1
    then show ?thesis
      using inner parse_simple_type_Ok [OF inner(3) 1, where 'e = 'e] schema_leaf [OF inner(3)]
      by (auto simp: parse_scalar_type.simps outcome_cases)
  next
    case 2
    then show ?thesis
      using inner parse_vector_type_outcome [OF inner(3) 2, where 'e = 'e]
      by (simp add: parse_scalar_type.simps)
  next
    case 3
    obtain t el where el: "inner = Pair S_list_type t [el]" "as_rule el = S_scalar_type" "schema_conforms el"
      by (rule schema_conforms_rule [OF inner(3) 3]) (auto simp: schema_map_simps)
    have "outcome (dims_fit el) (\<lambda>_. True) (parse_scalar_type el :: ('e, _) res)"
      by (rule "2.IH") (use 3 el in auto)
    then show ?thesis
      using inner el by (auto simp: parse_scalar_type.simps intro!: outcome_map)
  qed
qed simp

lemma parse_property_decl_outcome:
  assumes "schema_conforms p" "as_rule p = S_property_decl"
  shows "outcome (dims_fit p) (\<lambda>_. True) (parse_property_decl p :: ('e, _) res)"
proof -
  obtain s i n t q where p: "p = Pair S_property_decl s (i @ [n, t] @ q)"
    and rules: "map as_rule i \<in> opt S_indexed_marker" "as_rule n = S_ident" "as_rule t = S_scalar_type"
      "map as_rule q \<in> opt S_optional_marker"
    and sub: "\<forall>x \<in> set (i @ [n, t] @ q). schema_conforms x"
  proof (rule schema_conforms_rule [OF assms])
    fix s inner
    assume a: "p = Pair S_property_decl s inner" "schema_shape S_property_decl s (map as_rule inner)"
      "\<forall>q \<in> set inner. schema_conforms q"
    then obtain i q where "map as_rule inner = i @ ([S_ident, S_scalar_type] @ q)"
      "i \<in> opt S_indexed_marker" "q \<in> opt S_optional_marker" by auto
    moreover from this(1) obtain us vs where "inner = us @ vs" "map as_rule us = i"
      "map as_rule vs = [S_ident, S_scalar_type] @ q"
      by (rule map_append_split)
    moreover from this(3) obtain n t ws where "vs = n # t # ws" "as_rule n = S_ident"
      "as_rule t = S_scalar_type" "map as_rule ws = q" by (auto simp: map_eq_Cons_conv)
    ultimately show thesis using a(1,3) that [of s us n t ws] by auto
  qed
  have leaf: "list_all dims_fit i" "dims_fit n" "list_all dims_fit q"
    using rules sub schema_leaf by (auto simp: opt_def map_eq_Cons_conv list_all_iff)
  have "outcome (dims_fit t) (\<lambda>_. True) (parse_scalar_type t :: ('e, _) res)"
    by (rule parse_scalar_type_outcome) (use sub rules in auto)
  then show ?thesis
    using rules leaf
    by (cases "parse_scalar_type t :: ('e, _) res")
      (auto simp: p parse_property_decl_def parse_property_part_def fold_res_append opt_def map_eq_Cons_conv
        outcome_cases)
qed

lemma parse_node_decl_outcome:
  assumes "schema_conforms p" "as_rule p = S_node_decl"
  shows "outcome (dims_fit p) (\<lambda>d. nd_label d = Label (decl_name p)) (parse_node_decl p :: ('e, _) res)"
proof -
  obtain s inner where p: "p = Pair S_node_decl s inner" and sub: "\<forall>q \<in> set inner. schema_conforms q"
    and rs: "\<exists>ps. map as_rule inner = S_ident # S_id_field # ps \<and> list_all (\<lambda>r. r = S_property_decl) ps"
    using assms by (elim schema_conforms_rule) auto
  then obtain a i rest where inner: "inner = a # i # rest" "as_rule a = S_ident" "as_rule i = S_id_field"
    and props: "\<forall>q \<in> set rest. as_rule q = S_property_decl"
    by (auto simp: map_eq_Cons_conv list_all_iff)
  have "outcome (list_all dims_fit rest) (\<lambda>d. nd_label d = Label (as_str a)) (fold_res (\<lambda>nd p.
       case as_rule p of
         S_id_field \<Rightarrow> Ok nd
       | S_property_decl \<Rightarrow> res_map (\<lambda>d. nd\<lparr>nd_properties := nd_properties nd @ [d]\<rparr>) (parse_property_decl p)
       | _ \<Rightarrow> Panic ''node_decl body only yields id_field/property_decl'')
       \<lparr>nd_label = Label (as_str a), nd_properties = []\<rparr> rest :: ('e, _) res)"
    by (rule outcome_fold)
      (use props sub in \<open>auto simp: inner intro!: outcome_map [OF parse_property_decl_outcome]\<close>)
  then show ?thesis
    using schema_leaf [of a] schema_leaf [of i] sub by (simp add: p inner parse_node_decl_def decl_name_def)
qed

lemma parse_edge_decl_outcome:
  assumes "schema_conforms p" "as_rule p = S_edge_decl"
  shows "outcome (dims_fit p) (\<lambda>d. ed_edge_type d = EdgeType (decl_name p) \<and>
      ed_from d = Label (decl_name (into_inner p ! 1)) \<and> ed_to d = Label (decl_name (into_inner p ! 2)))
      (parse_edge_decl p :: ('e, _) res)"
proof -
  obtain s inner where p: "p = Pair S_edge_decl s inner" and sub: "\<forall>q \<in> set inner. schema_conforms q"
    and rs: "\<exists>ps. map as_rule inner = S_ident # S_from_field # S_to_field # ps \<and>
      list_all (\<lambda>r. r = S_property_decl) ps"
    using assms by (elim schema_conforms_rule) auto
  then obtain a x y rest where inner: "inner = a # x # y # rest" "as_rule a = S_ident"
    "as_rule x = S_from_field" "as_rule y = S_to_field"
    and props: "\<forall>q \<in> set rest. as_rule q = S_property_decl"
    by (auto simp: map_eq_Cons_conv list_all_iff)
  define good where "good m \<longleftrightarrow> edp_from m = Some (Label (decl_name x)) \<and> edp_to m = Some (Label (decl_name y))" for m :: EdgeParts
  have fields: "field_label x = (Ok (Label (decl_name x)) :: ('e, _) res)" "dims_fit x"
    "field_label y = (Ok (Label (decl_name y)) :: ('e, _) res)" "dims_fit y"
    using field_outcome(1) [of x] field_outcome(1) [of y] field_outcome(2) [of x, where 'e = 'e]
      field_outcome(2) [of y, where 'e = 'e] inner sub by auto
  have "outcome (list_all dims_fit rest) good
      (fold_res parse_edge_part \<lparr>edp_from = Some (Label (decl_name x)), edp_to = Some (Label (decl_name y)),
         edp_properties = []\<rparr> rest :: ('e, _) res)"
    by (rule outcome_fold)
      (use props sub in \<open>auto simp: inner good_def parse_edge_part_def intro!: outcome_map [OF parse_property_decl_outcome]\<close>)
  then show ?thesis
    using schema_leaf [of a] sub fields
    by (cases "fold_res parse_edge_part \<lparr>edp_from = Some (Label (decl_name x)), edp_to = Some (Label (decl_name y)),
         edp_properties = []\<rparr> rest :: ('e, _) res")
      (auto simp: p inner parse_edge_decl_def parse_edge_part_def decl_name_def good_def outcome_cases)
qed

section \<open>The schema of a tree\<close>

text \<open>What the two maps declare: the labels, and the edge types with their endpoints.\<close>

definition edge_signatures :: "(EdgeType, EdgeDef) fmap \<Rightarrow> (EdgeType \<times> Label \<times> Label) set" where
  "edge_signatures es = {(t, ed_from d, ed_to d) |t d. fmlookup es t = Some d}"

definition keyed_maps :: "SchemaMaps \<Rightarrow> bool" where
  "keyed_maps m \<longleftrightarrow> fmpred (\<lambda>l d. nd_label d = l) (fst m) \<and> fmpred (\<lambda>t d. ed_edge_type d = t) (snd m)"

definition declares :: "SchemaMaps \<Rightarrow> SRule Pair list \<Rightarrow> bool" where
  "declares m ds \<longleftrightarrow> keyed_maps m \<and> fset (fmdom (fst m)) = set (declared_labels ds) \<and>
     edge_signatures (snd m) = set (declared_edges ds) \<and>
     distinct (declared_labels ds) \<and> distinct (map fst (declared_edges ds))"

lemma edge_signatures_upd:
  "t |\<notin>| fmdom es \<Longrightarrow> edge_signatures (fmupd t d es) = insert (t, ed_from d, ed_to d) (edge_signatures es)"
  by (auto simp: edge_signatures_def fmdom_notD split: if_splits)

lemma edge_signatures_dom: "fset (fmdom es) = fst ` edge_signatures es"
  by (auto simp: edge_signatures_def image_iff intro: fmdomI elim!: fmdomE)

lemma declared_append [simp]:
  "declared_labels (xs @ ys) = declared_labels xs @ declared_labels ys"
  "declared_edges (xs @ ys) = declared_edges xs @ declared_edges ys"
  by (simp_all add: declared_labels_def declared_edges_def)

lemma parse_type_decl_step:
  assumes d: "schema_conforms d" "as_rule d = S_node_decl \<or> as_rule d = S_edge_decl"
    and m: "declares m ds"
  shows "case parse_type_decl m d of
     Ok m' \<Rightarrow> dims_fit d \<and> declares m' (ds @ [d])
   | Err e \<Rightarrow> \<not> distinct (declared_labels (ds @ [d])) \<or> \<not> distinct (map fst (declared_edges (ds @ [d])))
   | Panic _ \<Rightarrow> \<not> dims_fit d"
  using d(2)
proof
  assume rule: "as_rule d = S_node_decl"
  have "outcome (dims_fit d) (\<lambda>x. nd_label x = Label (decl_name d)) (parse_node_decl d :: (SchemaError, _) res)"
    by (rule parse_node_decl_outcome) (fact d(1) rule)+
  then show ?thesis
    using m rule
    by (cases "parse_node_decl d :: (SchemaError, _) res")
      (auto simp: parse_type_decl_def outcome_cases declares_def keyed_maps_def)
next
  assume rule: "as_rule d = S_edge_decl"
  have "outcome (dims_fit d) (\<lambda>x. ed_edge_type x = EdgeType (decl_name d) \<and>
      ed_from x = Label (decl_name (into_inner d ! 1)) \<and> ed_to x = Label (decl_name (into_inner d ! 2)))
      (parse_edge_decl d :: (SchemaError, _) res)"
    by (rule parse_edge_decl_outcome) (fact d(1) rule)+
  moreover have "fset (fmdom (snd m)) = fst ` set (declared_edges ds)"
    using m edge_signatures_dom by (simp add: declares_def)
  ultimately show ?thesis
    using m rule
    by (cases "parse_edge_decl d :: (SchemaError, _) res")
      (auto simp: parse_type_decl_def outcome_cases declares_def keyed_maps_def edge_signatures_upd image_iff)
qed

lemma parse_type_decls:
  assumes "\<forall>d \<in> set rest. schema_conforms d \<and> (as_rule d = S_node_decl \<or> as_rule d = S_edge_decl)"
    and "declares m ds"
  shows "case fold_res parse_type_decl m rest of
     Ok m' \<Rightarrow> list_all dims_fit rest \<and> declares m' (ds @ rest)
   | Err e \<Rightarrow> \<not> distinct (declared_labels (ds @ rest)) \<or> \<not> distinct (map fst (declared_edges (ds @ rest)))
   | Panic _ \<Rightarrow> \<not> list_all dims_fit rest"
  using assms
proof (induction rest arbitrary: m ds)
  case (Cons d rest)
  have step: "case parse_type_decl m d of
     Ok m' \<Rightarrow> dims_fit d \<and> declares m' (ds @ [d])
   | Err e \<Rightarrow> \<not> distinct (declared_labels (ds @ [d])) \<or> \<not> distinct (map fst (declared_edges (ds @ [d])))
   | Panic _ \<Rightarrow> \<not> dims_fit d"
    by (rule parse_type_decl_step) (use Cons.prems in auto)
  define es where "es = ds @ [d]"
  have split: "ds @ d # rest = es @ rest" by (simp add: es_def)
  show ?case
  proof (cases "parse_type_decl m d")
    case (Ok m')
    show ?thesis using Cons.IH [of m' es] Cons.prems(1) step Ok unfolding split es_def [symmetric]
      by (auto split: res.splits)
  qed (use step in \<open>unfold split es_def [symmetric], auto\<close>)
qed simp

lemma check_endpoints_Err:
  "\<not> (ed_from e |\<in>| fmdom ns \<and> ed_to e |\<in>| fmdom ns) \<Longrightarrow> \<exists>err. check_endpoints ns e = Err err"
  by (simp add: check_endpoints_def)

lemma check_all_endpoints:
  "fold_res (\<lambda>_ e. check_endpoints ns (snd e)) () es =
   (case find (\<lambda>e. \<not> (ed_from (snd e) |\<in>| fmdom ns \<and> ed_to (snd e) |\<in>| fmdom ns)) es of
      None \<Rightarrow> Ok () | Some e \<Rightarrow> check_endpoints ns (snd e))"
  by (induction es) (auto simp: check_endpoints_def)

definition schema_dims_fit :: "SRule Pair \<Rightarrow> bool" where
  "schema_dims_fit p \<longleftrightarrow> list_all dims_fit (schema_decls p)"

lemma schema_parse_outcome:
  assumes p: "schema_conforms p" "as_rule p = S_schema_file" and pest: "pest source = Ok [p]"
  shows "case schema_parse pest source of
     Ok s \<Rightarrow> schema_dims_fit p \<and> declarations_ok (schema_decls p) \<and> wf_schema s \<and>
       fset (fmdom (sch_nodes s)) = set (declared_labels (schema_decls p)) \<and>
       edge_signatures (sch_edges s) = set (declared_edges (schema_decls p))
   | Err _ \<Rightarrow> \<not> declarations_ok (schema_decls p)
   | Panic _ \<Rightarrow> \<not> schema_dims_fit p"
proof -
  obtain s d e where top: "p = Pair S_schema_file s [d, e]" "as_rule d = S_schema_decl" "schema_conforms d"
    by (rule schema_conforms_rule [OF p]) (auto simp: map_eq_Cons_conv)
  obtain t v ds where decl: "d = Pair S_schema_decl t (v # ds)"
    and ds: "\<forall>x \<in> set ds. schema_conforms x \<and> (as_rule x = S_node_decl \<or> as_rule x = S_edge_decl)"
    by (rule schema_conforms_rule [OF top(3,2)]) (auto simp: map_eq_Cons_conv list_all_iff)
  have decls: "schema_decls p = ds" by (simp add: schema_decls_def top(1) decl)
  have run: "schema_parse pest source =
     res_bind (fold_res parse_type_decl (fmempty, fmempty) ds) (\<lambda>(nodes, edges).
     res_bind (fold_res (\<lambda>_ e. check_endpoints nodes (snd e)) () (sorted_list_of_fmap edges)) (\<lambda>_.
     Ok \<lparr>sch_version = as_str v, sch_nodes = nodes, sch_edges = edges\<rparr>))"
    using top decl by (simp add: schema_parse_def pest expect_def)
  have "declares (fmempty, fmempty) []"
    by (simp add: declares_def keyed_maps_def edge_signatures_def)
  from parse_type_decls [OF ds this]
  show ?thesis
  proof (cases "fold_res parse_type_decl (fmempty, fmempty) ds")
    case (Ok m)
    obtain ns es where m: "m = (ns, es)" by (cases m)
    have fit: "list_all dims_fit ds" and declares: "declares (ns, es) ds"
      using parse_type_decls [OF ds \<open>declares (fmempty, fmempty) []\<close>] Ok m by auto
    have mem: "x \<in> set (sorted_list_of_fmap es) \<longleftrightarrow> fmlookup es (fst x) = Some (snd x)" for x
      by (cases x) (simp add: set_sorted_list_of_fmap)
    have "(\<forall>x \<in> set (sorted_list_of_fmap es). ed_from (snd x) |\<in>| fmdom ns \<and> ed_to (snd x) |\<in>| fmdom ns) \<longleftrightarrow>
        (\<forall>t d. fmlookup es t = Some d \<longrightarrow> ed_from d |\<in>| fmdom ns \<and> ed_to d |\<in>| fmdom ns)"
      by (auto simp: set_sorted_list_of_fmap)
    also have "\<dots> \<longleftrightarrow> (\<forall>(t, a, b) \<in> edge_signatures es. a \<in> fset (fmdom ns) \<and> b \<in> fset (fmdom ns))"
      by (auto simp: edge_signatures_def)
    also have "\<dots> \<longleftrightarrow>
        list_all (\<lambda>(t, a, b). a \<in> set (declared_labels ds) \<and> b \<in> set (declared_labels ds)) (declared_edges ds)"
      using declares by (simp add: list_all_iff declares_def)
    finally have ends: "(\<forall>x \<in> set (sorted_list_of_fmap es). ed_from (snd x) |\<in>| fmdom ns \<and> ed_to (snd x) |\<in>| fmdom ns) \<longleftrightarrow>
        list_all (\<lambda>(t, a, b). a \<in> set (declared_labels ds) \<and> b \<in> set (declared_labels ds)) (declared_edges ds)" .
    show ?thesis
    proof (cases "find (\<lambda>e. \<not> (ed_from (snd e) |\<in>| fmdom ns \<and> ed_to (snd e) |\<in>| fmdom ns)) (sorted_list_of_fmap es)")
      case None
      then have "schema_parse pest source = Ok \<lparr>sch_version = as_str v, sch_nodes = ns, sch_edges = es\<rparr>"
        using Ok m by (simp add: run check_all_endpoints)
      moreover have "\<forall>x \<in> set (sorted_list_of_fmap es). ed_from (snd x) |\<in>| fmdom ns \<and> ed_to (snd x) |\<in>| fmdom ns"
        using None by (auto simp: find_None_iff)
      ultimately show ?thesis
        using fit declares ends
        by (auto simp: decls schema_dims_fit_def declarations_ok_def declares_def keyed_maps_def wf_schema_def
            fmpred_iff set_sorted_list_of_fmap)
    next
      case (Some x)
      then have "\<not> declarations_ok ds" using ends
        by (auto simp: find_Some_iff declarations_ok_def)
      moreover obtain err where "check_endpoints ns (snd x) = Err err"
        using Some check_endpoints_Err [of "snd x" ns] by (auto simp: find_Some_iff)
      ultimately show ?thesis using Ok m Some by (simp add: run decls check_all_endpoints)
    qed
  qed (auto simp: run decls schema_dims_fit_def declarations_ok_def)
qed

text \<open>An identifier of the grammar is not empty, so no edge type is.\<close>

lemma decl_name_nonempty:
  assumes "schema_conforms d" "as_rule d = S_edge_decl"
  shows "decl_name d \<noteq> []"
proof -
  from assms obtain t inner where d: "d = Pair S_edge_decl t inner" "schema_shape S_edge_decl t (map as_rule inner)"
    "\<forall>q \<in> set inner. schema_conforms q" by (rule schema_conforms_rule)
  then obtain a rest where "inner = a # rest" "as_rule a = S_ident" by (auto simp: map_eq_Cons_conv)
  then show ?thesis using d by (cases a) (simp add: decl_name_def)
qed

lemma schema_parse_conforming:
  assumes "schema_pest_conforms pest" "schema_parse pest source = Ok s"
  shows "wf_schema s" "edge_def s (EdgeType []) = None"
proof -
  have "\<forall>e. pest source \<noteq> Err e" using assms(2) by (auto simp: schema_parse_def)
  then obtain p where p: "pest source = Ok [p]" "as_rule p = S_schema_file" "schema_conforms p"
    using assms by (cases "pest source") (auto simp: schema_pest_conforms_def dest!: spec [of _ source])
  note out = schema_parse_outcome [OF p(3,2), of pest source, OF p(1)]
  show "wf_schema s" using out assms(2) by simp
  obtain t d e where top: "p = Pair S_schema_file t [d, e]" "as_rule d = S_schema_decl" "schema_conforms d"
    by (rule schema_conforms_rule [OF p(3,2)]) (auto simp: map_eq_Cons_conv)
  obtain u v ds where "d = Pair S_schema_decl u (v # ds)" "\<forall>x \<in> set ds. schema_conforms x"
    by (rule schema_conforms_rule [OF top(3,2)]) (auto simp: map_eq_Cons_conv list_all_iff)
  then have "\<forall>x \<in> set (schema_decls p). schema_conforms x" by (simp add: top schema_decls_def)
  then have "(EdgeType [], a, b) \<notin> set (declared_edges (schema_decls p))" for a b
    by (auto simp: declared_edges_def dest: decl_name_nonempty [symmetric])
  moreover have "edge_signatures (sch_edges s) = set (declared_edges (schema_decls p))"
    using out assms(2) by simp
  ultimately have "(EdgeType [], a, b) \<notin> edge_signatures (sch_edges s)" for a b by simp
  then show "edge_def s (EdgeType []) = None"
    by (cases "fmlookup (sch_edges s) (EdgeType [])") (auto simp: edge_signatures_def edge_def_def)
qed

end
