(* ===== verification/Sample_Queries.thy ===== *)
theory Sample_Queries
  imports Sample_Cluster Coordinator_Answers Schema_Evolution Schema_Grammar
begin

text \<open>
  A query text and a schema file with their token trees, for the witnesses of the properties
  that start from text. The generated parsers accept these two texts and no other.
\<close>

section \<open>Texts and trees\<close>

definition ranked_text :: string where
  "ranked_text = (''MATCH (p:Person {name: '' @ [CHR 0x22] @ ''Alice'' @ [CHR 0x22] @ ''})-[:KNOWS*1..3]->(friend:Person) WHERE friend.birth_year > 1990 RETURN friend.name ORDER BY friend.birth_year DESC LIMIT 1'')"

definition ranked_tree :: "Rule Pair" where
  "ranked_tree =
    Pair R_query (''MATCH (p:Person {name: '' @ [CHR 0x22] @ ''Alice'' @ [CHR 0x22] @ ''})-[:KNOWS*1..3]->(friend:Person) WHERE friend.birth_year > 1990 RETURN friend.name ORDER BY friend.birth_year DESC LIMIT 1'') [
      Pair R_pattern (''(p:Person {name: '' @ [CHR 0x22] @ ''Alice'' @ [CHR 0x22] @ ''})-[:KNOWS*1..3]->(friend:Person)'') [
        Pair R_node_pattern (''(p:Person {name: '' @ [CHR 0x22] @ ''Alice'' @ [CHR 0x22] @ ''})'') [
          Pair R_ident ''p'' [],
          Pair R_ident ''Person'' [],
          Pair R_property_map (''{name: '' @ [CHR 0x22] @ ''Alice'' @ [CHR 0x22] @ ''}'') [
            Pair R_property_kv (''name: '' @ [CHR 0x22] @ ''Alice'' @ [CHR 0x22]) [
              Pair R_ident ''name'' [],
              Pair R_literal ([CHR 0x22] @ ''Alice'' @ [CHR 0x22]) [
                Pair R_string_literal ([CHR 0x22] @ ''Alice'' @ [CHR 0x22]) []]]]],
        Pair R_edge_pattern ''-[:KNOWS*1..3]->'' [
          Pair R_outgoing_edge ''-[:KNOWS*1..3]->'' [
            Pair R_edge_detail ''[:KNOWS*1..3]'' [
              Pair R_ident ''KNOWS'' [],
              Pair R_hop_range ''*1..3'' [
                Pair R_number ''1'' [],
                Pair R_number ''3'' []]]]],
        Pair R_node_pattern ''(friend:Person)'' [
          Pair R_ident ''friend'' [],
          Pair R_ident ''Person'' []]],
      Pair R_where_clause ''WHERE friend.birth_year > 1990'' [
        Pair R_where_condition ''friend.birth_year > 1990'' [
          Pair R_property_condition ''friend.birth_year > 1990'' [
            Pair R_ident ''friend'' [],
            Pair R_ident ''birth_year'' [],
            Pair R_comparison_op ''>'' [],
            Pair R_literal ''1990'' [
              Pair R_int_literal ''1990'' []]]]],
      Pair R_return_clause ''RETURN friend.name'' [
        Pair R_return_item ''friend.name'' [
          Pair R_ident ''friend'' [],
          Pair R_ident ''name'' []]],
      Pair R_order_by_clause ''ORDER BY friend.birth_year DESC'' [
        Pair R_ident ''friend'' [],
        Pair R_ident ''birth_year'' [],
        Pair R_sort_direction ''DESC'' []],
      Pair R_limit_clause ''LIMIT 1'' [
        Pair R_number ''1'' []],
      Pair R_EOI '''' []]"

definition sample_idl :: string where
  "sample_idl = ''schema graph_v1 { node Person { id: NodeId @indexed name: String @indexed birth_year: Int64 } edge KNOWS { from: Person to: Person } }''"

definition sample_idl_tree :: "SRule Pair" where
  "sample_idl_tree =
    Pair S_schema_file ''schema graph_v1 { node Person { id: NodeId @indexed name: String @indexed birth_year: Int64 } edge KNOWS { from: Person to: Person } }'' [
      Pair S_schema_decl ''schema graph_v1 { node Person { id: NodeId @indexed name: String @indexed birth_year: Int64 } edge KNOWS { from: Person to: Person } }'' [
        Pair S_ident ''graph_v1'' [],
        Pair S_node_decl ''node Person { id: NodeId @indexed name: String @indexed birth_year: Int64 }'' [
          Pair S_ident ''Person'' [],
          Pair S_id_field ''id: NodeId'' [],
          Pair S_property_decl ''@indexed name: String'' [
            Pair S_indexed_marker ''@indexed'' [],
            Pair S_ident ''name'' [],
            Pair S_scalar_type ''String'' [
              Pair S_simple_type ''String'' []]],
          Pair S_property_decl ''@indexed birth_year: Int64'' [
            Pair S_indexed_marker ''@indexed'' [],
            Pair S_ident ''birth_year'' [],
            Pair S_scalar_type ''Int64'' [
              Pair S_simple_type ''Int64'' []]]],
        Pair S_edge_decl ''edge KNOWS { from: Person to: Person }'' [
          Pair S_ident ''KNOWS'' [],
          Pair S_from_field ''from: Person'' [
            Pair S_ident ''Person'' []],
          Pair S_to_field ''to: Person'' [
            Pair S_ident ''Person'' []]]],
      Pair S_EOI '''' []]"

definition sample_pest :: "string \<Rightarrow> (PestError, Rule Pair list) res" where
  "sample_pest source =
     (if source = ranked_text then Ok [ranked_tree]
      else Err \<lparr>pe_location = Pos 0, pe_message = ''expected query''\<rparr>)"

definition sample_schema_pest :: "string \<Rightarrow> (string, SRule Pair list) res" where
  "sample_schema_pest source =
     (if source = sample_idl then Ok [sample_idl_tree] else Err ''expected schema_file'')"

lemma ranked_tree_facts: "as_rule ranked_tree = R_query" "conforms ranked_tree"
proof -
  show "as_rule ranked_tree = R_query" by (simp add: ranked_tree_def)
  show "conforms ranked_tree"
    by (simp add: ranked_tree_def opt_def is_ident_def is_number_def is_int_literal_def is_string_literal_def
        is_ascii_digit_def)
qed

lemma sample_idl_tree_facts: "as_rule sample_idl_tree = S_schema_file" "schema_conforms sample_idl_tree"
  by (simp_all add: sample_idl_tree_def opt_def)

lemma sample_pest_conforms: "pest_conforms sample_pest" "schema_pest_conforms sample_schema_pest"
  using ranked_tree_facts sample_idl_tree_facts
  by (simp_all add: pest_conforms_def sample_pest_def schema_pest_conforms_def sample_schema_pest_def)

definition ranked_query :: Query where
  "ranked_query = friends_query\<lparr>q_returns := [\<lparr>ri_alias = ''friend'', ri_property = Some ''name''\<rparr>],
     q_order_by := Some \<lparr>ob_alias = ''friend'', ob_property = ''birth_year'', ob_direction = Desc\<rparr>,
     q_limit := Some 1\<rparr>"

lemma sample_numbers:
  "parse_u32 ''1'' = Some 1" "parse_u32 ''3'' = Some 3" "parse_u64 ''1'' = Some 1" "parse_i64 ''1990'' = Some 1990"
  by (simp_all add: parse_u32_def parse_u64_def parse_i64_def parse_unsigned_def is_ascii_digit_def digit_val_def Let_def)

lemma parse_ranked: "parse sample_pest ranked_text = Ok ranked_query"
  by (simp add: parse_def sample_pest_def ranked_tree_def parse_query_part_def parse_pattern_def
      parse_node_pattern_def parse_property_map_def parse_literal_def unquote_def parse_edge_pattern_def
      parse_edge_detail_part_def parse_hop_range_def sample_numbers expect_def parse_where_clause.simps
      parse_where_condition.simps parse_property_condition_def parse_comparison_op_def
      parse_return_clause_def parse_return_item_def parse_order_by_clause_def parse_limit_clause_def
      ranked_query_def friends_query_def)

lemma sorted_list_of_fmap_single [simp]: "sorted_list_of_fmap (fmupd k v fmempty) = [(k, v)]"
  by (simp add: sorted_list_of_fmap_def sorted_list_of_fset.rep_eq)

lemma schema_parse_sample: "schema_parse sample_schema_pest sample_idl = Ok sample_schema"
  by (simp add: schema_parse_def sample_schema_pest_def sample_idl_tree_def expect_def parse_type_decl_def
      parse_node_decl_def parse_edge_decl_def parse_edge_part_def field_label_def parse_property_decl_def
      parse_property_part_def parse_scalar_type.simps parse_simple_type_def
      sample_schema_def check_endpoints_def)

lemma validate_ranked_query: "validate ranked_query sample_schema = Ok ()"
  by (simp add: validate_def ranked_query_def friends_query_def sample_schema_def validate_node_pattern_def
      validate_edge_pattern_def bind_pattern_node_def bind_edge_type_def node_def_def edge_def_def
      validate_property_ref_def validate_node_property_filter_def validate_property_def
      validate_return_item_def validate_order_by_def empty_scope_def)

definition ranked_plan :: QueryPlan where
  "ranked_plan = friends_plan\<lparr>qp_project := [\<lparr>ri_alias = ''friend'', ri_property = Some ''name''\<rparr>]\<rparr>"

lemma plan_ranked_query: "plan ranked_query = Ok ranked_plan"
  using plan_friends_query by (simp add: plan_def ranked_query_def ranked_plan_def friends_query_def
      friends_plan_def Let_def res_bind_Ok_iff)

text \<open>The coordinator of the sample network.\<close>

definition sample_service :: GraphServiceImpl where
  "sample_service =
     \<lparr>gs_schema = sample_schema, gs_schema_idl = sample_idl, gs_discovery = Ok two_partitions,
      gs_executor = \<lparr>sg_rpc = networked_rpc sample_networked, sg_hasher = \<lparr>ph_n_partitions = 2\<rparr>\<rparr>\<rparr>"

lemma sample_service_sel [simp]:
  "gs_schema sample_service = sample_schema" "gs_discovery sample_service = Ok two_partitions"
  "gs_executor sample_service = \<lparr>sg_rpc = networked_rpc sample_networked, sg_hasher = \<lparr>ph_n_partitions = 2\<rparr>\<rparr>"
  by (simp_all add: sample_service_def)

lemma sample_no_empty_edge: "edge_def sample_schema (EdgeType []) = None"
  by (simp add: sample_schema_def edge_def_def)

lemma runnable_ranked: "runnable sample_networked ranked_query"
  by (simp add: runnable_def plan_ranked_query ranked_plan_def small_friends_plan)
    (simp add: ranked_query_def friends_query_def)

text \<open>The row the query asks for: the youngest friend's name.\<close>

definition dave_row :: QueryResult where
  "dave_row = \<lparr>qr_projection = fmupd ''friend.name'' \<lparr>pv_kind = Some (StringValue ''Dave'')\<rparr> fmempty,
     qr_properties = fmempty, qr_edge_properties = fmempty\<rparr>"

lemma ranked_rows:
  assumes "set bs = {friend_binding 2 1, friend_binding 2 3}" "distinct bs"
  shows "map (spec_row sample_data (\<lambda>_. True) (qp_project ranked_plan))
    (limited (q_limit ranked_query) (ordered_rows sample_data (\<lambda>_. True) (q_order_by ranked_query) bs)) = [dave_row]"
proof -
  have ne: "friend_binding 2 1 \<noteq> friend_binding 2 3"
  proof
    assume "friend_binding 2 1 = friend_binding 2 3"
    then have "fmlookup (b_nodes (friend_binding 2 1)) ''friend'' = fmlookup (b_nodes (friend_binding 2 3)) ''friend''"
      by simp
    then show False by (simp add: friend_binding_def)
  qed
  have bs: "bs = [friend_binding 2 1, friend_binding 2 3] \<or> bs = [friend_binding 2 3, friend_binding 2 1]"
  proof -
    have "length bs = 2" using distinct_card [OF assms(2)] assms(1) ne by simp
    then obtain x y where "bs = [x, y]" by (auto simp: length_Suc_conv numeral_2_eq_2)
    with assms(1) show ?thesis by (auto simp: doubleton_eq_iff)
  qed
  let ?o = "\<lparr>ob_alias = ''friend'', ob_property = ''birth_year'', ob_direction = Desc\<rparr>"
  have keys: "order_key sample_data (\<lambda>_. True) ?o (friend_binding 2 1) = Some (VInt64 1995)"
    "order_key sample_data (\<lambda>_. True) ?o (friend_binding 2 3) = Some (VInt64 2000)"
    by (simp_all add: order_key_def outer_value_def friend_binding_def node_rec_def sample_data_def sample_node_def
        node_record_entry_def)
  have order: "row_order sample_data (\<lambda>_. True) ?o (friend_binding 2 1) (friend_binding 2 3) = Greater"
    "row_order sample_data (\<lambda>_. True) ?o (friend_binding 2 3) (friend_binding 2 1) = Less"
    by (simp_all add: row_order_def keys directed_def key_ordering_def compare_property_values_def i64_cmp_def)
  have row: "spec_row sample_data (\<lambda>_. True) (qp_project ranked_plan) (friend_binding 2 3) = dave_row"
    by (simp add: spec_row_def spec_item_def ranked_plan_def outer_value_def friend_binding_def node_rec_def
        sample_data_def sample_node_def node_record_entry_def dave_row_def)
  from bs show ?thesis
    by (auto simp: ordered_rows_def ranked_query_def limited_def order row)
qed

end
