(* ===== verification/Rebalance.thy ===== *)
theory Rebalance
  imports Cluster
begin

text \<open>
  \<open>graph-cluster/src/rebalance.rs\<close>: where the partitions should live when the set of
  machines changes, by rendezvous hashing. The hash \<open>xxh\<close> of a byte string (xxh3) is a
  parameter. The lemmas say that a change of one machine moves only the partitions it
  wins or held, and that the moves lead to the targets.
\<close>

section \<open>Targets\<close>

record RendezvousRebalancePlanner =
  rp_n_partitions :: u32
  rp_replication_factor :: nat

record PartitionMove =
  pm_partition :: PartitionId
  pm_from_machine :: "string option"
  pm_to_machine :: string

definition u32_to_le_bytes :: "u32 \<Rightarrow> u8 list" where
  "u32_to_le_bytes x = map (\<lambda>i. ucast (drop_bit (8 * i) x)) [0..<4]"

definition as_bytes :: "string \<Rightarrow> u8 list" where
  "as_bytes s = map (\<lambda>c. of_nat (of_char c)) s"

definition rendezvous_score :: "(u8 list \<Rightarrow> u64) \<Rightarrow> PartitionId \<Rightarrow> string \<Rightarrow> u64" where
  "rendezvous_score xxh p machine = xxh (u32_to_le_bytes (partition_raw p) @ as_bytes machine)"

text \<open>\<open>b.0.cmp(&a.0).then_with(|| a.1.cmp(b.1))\<close>.\<close>

definition score_order :: "u64 \<times> string \<Rightarrow> u64 \<times> string \<Rightarrow> ordering" where
  "score_order a b =
     (case cmp_ord (fst b) (fst a) of Equal \<Rightarrow> cmp_ord (snd a) (snd b) | o1 \<Rightarrow> o1)"

definition target_machines :: "(u8 list \<Rightarrow> u64) \<Rightarrow> PartitionId \<Rightarrow> string list \<Rightarrow> nat \<Rightarrow> string list" where
  "target_machines xxh p available replication_factor =
     map snd (take replication_factor
       (sort_by score_order (map (\<lambda>m. (rendezvous_score xxh p m, m)) available)))"

section \<open>Moves\<close>

text \<open>\<open>removes.next()\<close> for each of the machines to add.\<close>

fun pair_moves :: "PartitionId \<Rightarrow> string list \<Rightarrow> string list \<Rightarrow> PartitionMove list" where
  "pair_moves p [] removes = []"
| "pair_moves p (add # adds) removes =
     \<lparr>pm_partition = p, pm_from_machine = (case removes of r # _ \<Rightarrow> Some r | [] \<Rightarrow> None), pm_to_machine = add\<rparr>
     # pair_moves p adds (tl removes)"

definition current_machines :: "PartitionMap \<Rightarrow> PartitionId \<Rightarrow> string fset" where
  "current_machines current p =
     (case fmlookup current p of
        Some replicas \<Rightarrow> fset_of_list (map (\<lambda>r. replica_name (re_replica r)) replicas)
      | None \<Rightarrow> {||})"

definition plan_partition ::
  "(u8 list \<Rightarrow> u64) \<Rightarrow> hash_order \<Rightarrow> PartitionMap \<Rightarrow> string list \<Rightarrow> nat \<Rightarrow> PartitionId \<Rightarrow> PartitionMove list" where
  "plan_partition xxh ho current available replication_factor p =
     (let target = target_machines xxh p available replication_factor;
          machines = current_machines current p;
          to_add = sort (filter (\<lambda>m. m |\<notin>| machines) target);
          to_remove = sort (filter (\<lambda>m. m \<notin> set target) (hs_iter ho machines))
      in pair_moves p to_add to_remove)"

definition rebalance_plan ::
  "(u8 list \<Rightarrow> u64) \<Rightarrow> hash_order \<Rightarrow> RendezvousRebalancePlanner \<Rightarrow> PartitionMap \<Rightarrow> string list \<Rightarrow> PartitionMove list" where
  "rebalance_plan xxh ho planner current available =
     (if available = [] then []
      else let replication_factor = min (rp_replication_factor planner) (length available) in
        concat (map (\<lambda>i. plan_partition xxh ho current available replication_factor (PartitionId (of_nat i)))
          [0..<unat (rp_n_partitions planner)]))"

section \<open>The ranking\<close>

lemma score_order_eq: "score_order a b =
    (if fst a = fst b then cmp_ord (snd a) (snd b) else cmp_ord (fst b) (fst a))"
  by (simp add: score_order_def cmp_ord_def)

interpretation ranking: comparator_on score_order UNIV
  by unfold_locales (auto simp: score_order_eq cmp_ord_reverse cmp_ord_def split: if_splits)

lemma score_order_Equal: "score_order a b = Equal \<longleftrightarrow> a = b"
  by (auto simp: score_order_eq prod_eq_iff)

text \<open>The ranking is total, so it does not depend on the order of the machines.\<close>

lemma ranking_unique:
  assumes "mset xs = mset ys"
  shows "sort_by score_order xs = sort_by score_order ys"
proof (rule ranking.sort_by_unique)
  fix z
  have "filter (\<lambda>y. score_order z y = Equal) zs = replicate (count (mset zs) z) z" for zs
    by (induction zs) (auto simp: score_order_Equal)
  then show "filter (\<lambda>y. score_order z y = Equal) (sort_by score_order xs) =
      filter (\<lambda>y. score_order z y = Equal) ys"
    using assms by simp
qed (use assms ranking.sorted_sort_by in simp_all)

lemma target_machines_perm:
  assumes "mset ms = mset ns"
  shows "target_machines xxh p ms rf = target_machines xxh p ns rf"
proof -
  have "mset (map (\<lambda>m. (rendezvous_score xxh p m, m)) ms) = mset (map (\<lambda>m. (rendezvous_score xxh p m, m)) ns)"
    using assms by (simp flip: image_mset.compositionality)
  from ranking_unique [OF this] show ?thesis by (simp add: target_machines_def)
qed

lemma target_machines_facts:
  assumes "distinct ms"
  shows "distinct (target_machines xxh p ms rf)" "set (target_machines xxh p ms rf) \<subseteq> set ms"
    "length (target_machines xxh p ms rf) = min rf (length ms)"
proof -
  let ?s = "sort_by score_order (map (\<lambda>m. (rendezvous_score xxh p m, m)) ms)"
  have perm: "mset (map snd ?s) = mset ms"
    by (simp only: mset_map mset_sort_by image_mset.compositionality) (simp add: comp_def)
  have s: "distinct (map snd ?s)" "set (map snd ?s) = set ms"
    unfolding mset_eq_imp_distinct_iff [OF perm] by (rule assms, rule mset_eq_setD [OF perm])
  have t: "target_machines xxh p ms rf = take rf (map snd ?s)"
    by (simp add: target_machines_def take_map)
  show "distinct (target_machines xxh p ms rf)" using s(1) unfolding t by (rule distinct_take)
  show "set (target_machines xxh p ms rf) \<subseteq> set ms" unfolding t s(2) [symmetric] by (rule set_take_subset)
  show "length (target_machines xxh p ms rf) = min rf (length ms)"
    by (simp add: target_machines_def min.commute)
qed

section \<open>One machine more, one machine less\<close>

lemma take_insert_by:
  "set (take n (insert_by c x ys)) \<subseteq> insert x (set (take n ys))"
proof (induction ys arbitrary: n)
  case Nil
  show ?case by (cases n) simp_all
next
  case (Cons y ys)
  show ?case
  proof (cases n)
    case (Suc k)
    have "set (take k (y # ys)) \<subseteq> set (take (Suc k) (y # ys))" by (rule set_take_subset_set_take) simp
    then show ?thesis using Cons [of k] by (auto simp: Suc)
  qed simp
qed

lemma take_insert_by_absent:
  "x \<notin> set (take n (insert_by c x ys)) \<Longrightarrow> take n (insert_by c x ys) = take n ys"
proof (induction ys arbitrary: n)
  case Nil
  then show ?case by (cases n) simp_all
next
  case (Cons y ys)
  then show ?case by (cases n) (simp_all split: if_splits)
qed

text \<open>A new machine can only take over: no other machine gains a partition.\<close>

lemma target_gains:
  assumes "m \<in> set (target_machines xxh p (new # ms) rf)" "m \<noteq> new"
  shows "m \<in> set (target_machines xxh p ms rf)"
  using assms take_insert_by [of rf score_order "(rendezvous_score xxh p new, new)"
      "sort_by score_order (map (\<lambda>m. (rendezvous_score xxh p m, m)) ms)"]
  by (force simp: target_machines_def)

text \<open>A machine that holds no copy of a partition can go without moving it.\<close>

lemma target_keeps:
  assumes "gone \<notin> set (target_machines xxh p (gone # ms) rf)"
  shows "target_machines xxh p (gone # ms) rf = target_machines xxh p ms rf"
proof -
  have "(rendezvous_score xxh p gone, gone) \<notin> set (take rf (insert_by score_order (rendezvous_score xxh p gone, gone)
      (sort_by score_order (map (\<lambda>m. (rendezvous_score xxh p m, m)) ms))))"
    using assms by (force simp: target_machines_def)
  from take_insert_by_absent [OF this] show ?thesis by (simp add: target_machines_def)
qed

section \<open>The moves lead to the targets\<close>

lemma map_to_pair_moves: "map pm_to_machine (pair_moves p adds removes) = adds"
  by (induction p adds removes rule: pair_moves.induct) simp_all

lemma from_pair_moves:
  "List.map_filter pm_from_machine (pair_moves p adds removes) = take (length adds) removes"
  by (induction p adds removes rule: pair_moves.induct)
    (auto simp: List.map_filter_simps split: list.split)

lemma partition_pair_moves: "mv \<in> set (pair_moves p adds removes) \<Longrightarrow> pm_partition mv = p"
  by (induction p adds removes rule: pair_moves.induct) auto

text \<open>The machines that hold a partition once its moves have been made.\<close>

definition hosts_after :: "string set \<Rightarrow> PartitionMove list \<Rightarrow> string set" where
  "hosts_after hosts moves =
     (hosts - set (List.map_filter pm_from_machine moves)) \<union> pm_to_machine ` set moves"

lemma plan_partition_reaches:
  fixes xxh p available rf current
  assumes "distinct available" "valid_hash_order ho"
  defines "target \<equiv> set (target_machines xxh p available rf)" and "hosts \<equiv> fset (current_machines current p)"
    and "moves \<equiv> plan_partition xxh ho current available rf p"
  shows "pm_to_machine ` set moves = target - hosts"
    and "set (List.map_filter pm_from_machine moves) \<subseteq> hosts - target"
    and "distinct (map pm_to_machine moves)"
    and "target \<subseteq> hosts_after hosts moves"
    and "card hosts \<le> min rf (length available) \<Longrightarrow> hosts_after hosts moves = target"
proof -
  let ?t = "target_machines xxh p available rf" and ?c = "current_machines current p"
  let ?add = "sort (filter (\<lambda>m. m |\<notin>| ?c) ?t)" and ?remove = "sort (filter (\<lambda>m. m \<notin> set ?t) (hs_iter ho ?c))"
  have moves: "moves = pair_moves p ?add ?remove" by (simp add: moves_def plan_partition_def Let_def)
  have to: "pm_to_machine ` set moves = set ?add"
    using map_to_pair_moves [of p ?add ?remove] unfolding moves by (metis list.set_map)
  then show tos: "pm_to_machine ` set moves = target - hosts" by (auto simp: target_def hosts_def)
  have froms: "set (List.map_filter pm_from_machine moves) = set (take (length ?add) ?remove)"
    unfolding moves from_pair_moves ..
  then show sub: "set (List.map_filter pm_from_machine moves) \<subseteq> hosts - target"
    using set_hs_iter [OF assms(2), of ?c] by (auto simp: target_def hosts_def dest!: in_set_takeD)
  show "distinct (map pm_to_machine moves)"
    unfolding moves map_to_pair_moves using target_machines_facts(1) [OF assms(1)] by simp
  show "target \<subseteq> hosts_after hosts moves"
    using tos sub by (auto simp: hosts_after_def)
  assume card: "card hosts \<le> min rf (length available)"
  have "length ?add = card (target - hosts)"
    using target_machines_facts(1) [OF assms(1), of xxh p rf]
    by (simp add: target_def hosts_def set_diff_eq flip: distinct_card)
  moreover have "length ?remove = card (hosts - target)"
    using distinct_hs_iter [OF assms(2), of ?c] set_hs_iter [OF assms(2), of ?c]
    by (simp add: target_def hosts_def set_diff_eq flip: distinct_card)
  moreover have "card (hosts - target) \<le> card (target - hosts)"
  proof -
    have "card target = min rf (length available)"
      using target_machines_facts(1,3) [OF assms(1), of xxh p rf] by (simp add: target_def distinct_card)
    then have "card hosts \<le> card target" using card by simp
    moreover have "card (hosts - target) = card hosts - card (hosts \<inter> target)"
      "card (target - hosts) = card target - card (hosts \<inter> target)"
      by (simp_all add: card_Diff_subset_Int hosts_def target_def Int_commute)
    ultimately show ?thesis by simp
  qed
  ultimately have "set (List.map_filter pm_from_machine moves) = hosts - target"
    unfolding froms using set_hs_iter [OF assms(2), of ?c] by (auto simp: target_def hosts_def)
  then show "hosts_after hosts moves = target"
    using tos by (auto simp: hosts_after_def)
qed

lemma plan_partition_Nil:
  assumes "distinct available" "valid_hash_order ho"
  shows "plan_partition xxh ho current available rf p = [] \<longleftrightarrow>
    set (target_machines xxh p available rf) \<subseteq> fset (current_machines current p)"
  using plan_partition_reaches(1) [OF assms, of xxh current rf p] by (metis Diff_eq_empty_iff image_is_empty set_empty)

lemma plan_partition_partition:
  "mv \<in> set (plan_partition xxh ho current available rf p) \<Longrightarrow> pm_partition mv = p"
  by (auto simp: plan_partition_def Let_def dest: partition_pair_moves)

lemma filter_concat_keyed:
  assumes "\<And>i x. i < n \<Longrightarrow> x \<in> set (f i) \<Longrightarrow> key x = k i" "\<And>i. i < n \<Longrightarrow> k i = k j \<longleftrightarrow> i = j" "j < n"
  shows "filter (\<lambda>x. key x = k j) (concat (map f [0..<n])) = f j"
proof -
  have part: "filter (\<lambda>x. key x = k j) (f i) = (if i = j then f j else [])" if "i < n" for i
    using assms(1) [OF that] assms(2) [OF that] by (auto simp: filter_empty_conv filter_id_conv)
  have "filter (\<lambda>x. key x = k j) (concat (map f [0..<m])) = (if j < m then f j else [])" if "m \<le> n" for m
    using that part by (induction m) (auto simp: less_Suc_eq)
  then show ?thesis using assms(3) by simp
qed

text \<open>The moves of a plan for one of its partitions.\<close>

lemma rebalance_plan_partition:
  assumes "available \<noteq> []" "j < rp_n_partitions planner"
  shows "filter (\<lambda>mv. pm_partition mv = PartitionId j) (rebalance_plan xxh ho planner current available) =
    plan_partition xxh ho current available (min (rp_replication_factor planner) (length available)) (PartitionId j)"
proof -
  let ?f = "\<lambda>i. plan_partition xxh ho current available (min (rp_replication_factor planner) (length available))
    (PartitionId (of_nat i))"
  have j: "unat j < unat (rp_n_partitions planner)" using assms(2) by (simp add: word_less_nat_alt)
  have "filter (\<lambda>mv. pm_partition mv = PartitionId (of_nat (unat j))) (concat (map ?f [0..<unat (rp_n_partitions planner)])) =
      ?f (unat j)"
  proof (rule filter_concat_keyed [where k = "\<lambda>i. PartitionId (of_nat i)"])
    fix i assume "i < unat (rp_n_partitions planner)"
    then have "i < 2 ^ 32" using unsigned_less [of "rp_n_partitions planner", where ?'a = nat] by simp
    then have "unat (of_nat i :: u32) = i" by (simp add: unat_of_nat)
    then show "PartitionId (of_nat i) = PartitionId (of_nat (unat j)) \<longleftrightarrow> i = unat j" by auto
  qed (use plan_partition_partition j in auto)
  then show ?thesis using assms(1) by (simp add: rebalance_plan_def)
qed

section \<open>Minimal disruption\<close>

text \<open>A placement as a plan aims at: every partition on its targets among \<open>machines\<close>.\<close>

definition placed_on ::
  "(u8 list \<Rightarrow> u64) \<Rightarrow> RendezvousRebalancePlanner \<Rightarrow> string list \<Rightarrow> PartitionMap \<Rightarrow> bool" where
  "placed_on xxh planner machines current \<longleftrightarrow>
     (\<forall>j < rp_n_partitions planner. fset (current_machines current (PartitionId j)) =
        set (target_machines xxh (PartitionId j) machines (rp_replication_factor planner)))"

lemma target_machines_min: "target_machines xxh p ms (min rf (length ms)) = target_machines xxh p ms rf"
  by (simp add: target_machines_def min_def)

lemma rebalance_plan_move:
  assumes "mv \<in> set (rebalance_plan xxh ho planner current available)"
  obtains j where "j < rp_n_partitions planner" "pm_partition mv = PartitionId j"
    "mv \<in> set (plan_partition xxh ho current available (rp_replication_factor planner) (PartitionId j))"
proof -
  let ?rf = "rp_replication_factor planner"
  obtain i where i: "i < unat (rp_n_partitions planner)"
    "mv \<in> set (plan_partition xxh ho current available (min ?rf (length available)) (PartitionId (of_nat i)))"
    using assms by (auto simp: rebalance_plan_def split: if_splits)
  then have "(of_nat i :: u32) < rp_n_partitions planner"
    by (simp add: word_less_nat_alt unat_of_nat order_le_less_trans [OF mod_less_eq_dividend])
  moreover have "mv \<in> set (plan_partition xxh ho current available ?rf (PartitionId (of_nat i)))"
    using i(2) by (simp add: plan_partition_def target_machines_min)
  ultimately show thesis using that plan_partition_partition by blast
qed

lemma target_joined:
  assumes "mset available = add_mset new (mset ms)"
  shows "set (target_machines xxh p available rf) \<subseteq> insert new (set (target_machines xxh p ms rf))"
    and "new \<notin> set (target_machines xxh p available rf) \<Longrightarrow>
      target_machines xxh p available rf = target_machines xxh p ms rf"
proof -
  have eq: "target_machines xxh p available rf = target_machines xxh p (new # ms) rf"
    using assms by (intro target_machines_perm) simp
  show "set (target_machines xxh p available rf) \<subseteq> insert new (set (target_machines xxh p ms rf))"
    unfolding eq using target_gains by blast
  show "new \<notin> set (target_machines xxh p available rf) \<Longrightarrow>
      target_machines xxh p available rf = target_machines xxh p ms rf"
    unfolding eq by (rule target_keeps)
qed

lemma joining_moves:
  assumes "distinct available" "valid_hash_order ho" "mset available = add_mset new (mset ms)"
    and "placed_on xxh planner ms current" "mv \<in> set (rebalance_plan xxh ho planner current available)"
  shows "pm_to_machine mv = new"
proof -
  let ?rf = "rp_replication_factor planner"
  obtain j where j: "j < rp_n_partitions planner"
    "mv \<in> set (plan_partition xxh ho current available ?rf (PartitionId j))"
    using rebalance_plan_move [OF assms(5)] by blast
  then have "pm_to_machine mv \<in> set (target_machines xxh (PartitionId j) available ?rf) -
      set (target_machines xxh (PartitionId j) ms ?rf)"
    using plan_partition_reaches(1) [OF assms(1,2), of xxh current ?rf "PartitionId j"] assms(4)
    by (auto simp: placed_on_def)
  then show ?thesis using target_joined(1) [OF assms(3)] by blast
qed

lemma leaving_moves:
  assumes "distinct (gone # ms)" "valid_hash_order ho" "mset before = add_mset gone (mset ms)"
    and "placed_on xxh planner before current" "mv \<in> set (rebalance_plan xxh ho planner current ms)"
  shows "gone |\<in>| current_machines current (pm_partition mv)" "pm_from_machine mv \<in> {None, Some gone}"
proof -
  let ?rf = "rp_replication_factor planner"
  obtain j where j: "j < rp_n_partitions planner" "pm_partition mv = PartitionId j"
    "mv \<in> set (plan_partition xxh ho current ms ?rf (PartitionId j))"
    using rebalance_plan_move [OF assms(5)] by blast
  have hosts: "fset (current_machines current (PartitionId j)) = set (target_machines xxh (PartitionId j) before ?rf)"
    using assms(4) j(1) by (simp add: placed_on_def)
  have dist: "distinct ms" using assms(1) by simp
  note reaches = plan_partition_reaches(1,2) [OF dist assms(2), of xxh current ?rf "PartitionId j"]
  have "gone \<in> set (target_machines xxh (PartitionId j) before ?rf)"
    using target_joined(2) [OF assms(3), of xxh "PartitionId j" ?rf] reaches(1) j(3) hosts by auto
  then show "gone |\<in>| current_machines current (pm_partition mv)"
    using hosts j(2) by simp
  show "pm_from_machine mv \<in> {None, Some gone}"
  proof (cases "pm_from_machine mv")
    case (Some m)
    then have "m \<in> set (List.map_filter pm_from_machine (plan_partition xxh ho current ms ?rf (PartitionId j)))"
      using j(3) by (force simp: List.map_filter_def)
    then show ?thesis using reaches(2) hosts target_joined(1) [OF assms(3)] Some by blast
  qed simp
qed

end
