(* ===== verification/Rebuild.thy ===== *)
theory Rebuild
  imports Partition_Node Built_Index
begin

text \<open>
  \<open>GenerationHandle\<close> of \<open>graph-index/src/lib.rs\<close> and \<open>graph-partition-node/src/rebuild.rs\<close>:
  a partition node serves from the generation its handle holds while a loop rebuilds it. The
  process is a state machine whose steps are the ticks of the loop and the requests that
  acquire and drop a generation; what the tables hold at a tick is part of the event. The metrics and
  the timer are left out.
\<close>

section \<open>The handle\<close>

record GenerationHandle =
  gh_current :: IndexGeneration

definition generation_handle_new :: "IndexGeneration \<Rightarrow> GenerationHandle" where
  "generation_handle_new initial = \<lparr>gh_current = initial\<rparr>"

definition acquire :: "GenerationHandle \<Rightarrow> IndexGeneration" where
  "acquire handle = gh_current handle"

definition swap :: "GenerationHandle \<Rightarrow> IndexGeneration \<Rightarrow> GenerationHandle" where
  "swap handle next = handle\<lparr>gh_current := next\<rparr>"

section \<open>The process\<close>

definition bootstrap ::
  "(u64 \<Rightarrow> u64) \<Rightarrow> i64 \<Rightarrow> IcebergIndexBuilder \<Rightarrow> PartitionId \<Rightarrow> Label list \<Rightarrow> (RebuildError, IndexGeneration) res" where
  "bootstrap h now builder part labels = build h now builder part labels"

text \<open>
  The body of the loop, from a tick to the next: \<open>None\<close> is a panic of the build, which ends
  the loop's task and leaves the handle as it is.
\<close>

definition rebuild_tick ::
  "(u64 \<Rightarrow> u64) \<Rightarrow> i64 \<Rightarrow> IcebergIndexBuilder \<Rightarrow> PartitionId \<Rightarrow> Label list \<Rightarrow> GenerationHandle \<Rightarrow> GenerationHandle option" where
  "rebuild_tick h now builder part labels handle =
     (case build h now builder part labels of
        Ok generation \<Rightarrow> Some (swap handle generation)
      | Err err \<Rightarrow> Some handle
      | Panic m \<Rightarrow> None)"

text \<open>
  What is fixed for the process: hash, schema, partition and the labels of the schema. The
  tables change: a tick finds them as its \<open>IcebergReader\<close> shows them.
\<close>

record ProcessConfig =
  pc_hash :: "u64 \<Rightarrow> u64"
  pc_schema :: Schema
  pc_n_partitions :: u32
  pc_partition :: PartitionId
  pc_labels :: "Label list"
  pc_rebuild_interval_secs :: u64

definition builder_at :: "ProcessConfig \<Rightarrow> IcebergReader \<Rightarrow> IcebergIndexBuilder" where
  "builder_at C reader = \<lparr>ib_reader = reader, ib_schema = pc_schema C, ib_n_partitions = pc_n_partitions C\<rparr>"

record Process =
  pr_handle :: GenerationHandle
  pr_requests :: "(nat, IndexGeneration) fmap"
  pr_loop_alive :: bool

datatype Event = Tick i64 IcebergReader | Acquire nat | Drop nat

text \<open>
  \<open>main\<close>: the process serves only once the first build has succeeded. \<open>tokio::time::interval\<close>
  panics on a zero period, so with a zero interval the task of the loop ends at once.
\<close>

definition process_new :: "ProcessConfig \<Rightarrow> IndexGeneration \<Rightarrow> Process" where
  "process_new C generation =
     \<lparr>pr_handle = generation_handle_new generation, pr_requests = fmempty,
      pr_loop_alive = (pc_rebuild_interval_secs C \<noteq> 0)\<rparr>"

inductive starts :: "ProcessConfig \<Rightarrow> i64 \<Rightarrow> IcebergReader \<Rightarrow> Process \<Rightarrow> bool" where
  start: "bootstrap (pc_hash C) now (builder_at C reader) (pc_partition C) (pc_labels C) = Ok generation \<Longrightarrow>
    starts C now reader (process_new C generation)"

inductive process_step :: "ProcessConfig \<Rightarrow> Process \<Rightarrow> Event \<Rightarrow> Process \<Rightarrow> bool" where
  tick: "pr_loop_alive s \<Longrightarrow>
    rebuild_tick (pc_hash C) now (builder_at C reader) (pc_partition C) (pc_labels C) (pr_handle s) = Some handle \<Longrightarrow>
    process_step C s (Tick now reader) (s\<lparr>pr_handle := handle\<rparr>)"
| tick_panics: "pr_loop_alive s \<Longrightarrow>
    rebuild_tick (pc_hash C) now (builder_at C reader) (pc_partition C) (pc_labels C) (pr_handle s) = None \<Longrightarrow>
    process_step C s (Tick now reader) (s\<lparr>pr_loop_alive := False\<rparr>)"
| acquires: "q |\<notin>| fmdom (pr_requests s) \<Longrightarrow>
    process_step C s (Acquire q) (s\<lparr>pr_requests := fmupd q (acquire (pr_handle s)) (pr_requests s)\<rparr>)"
| drops: "q |\<in>| fmdom (pr_requests s) \<Longrightarrow>
    process_step C s (Drop q) (s\<lparr>pr_requests := fmdrop q (pr_requests s)\<rparr>)"

inductive runs :: "ProcessConfig \<Rightarrow> Process \<Rightarrow> Event list \<Rightarrow> Process \<Rightarrow> bool" where
  stops: "runs C s [] s"
| continues: "process_step C s e t \<Longrightarrow> runs C t es u \<Longrightarrow> runs C s (e # es) u"

inductive_cases tickE: "process_step C s (Tick now reader) t"
inductive_cases acquireE: "process_step C s (Acquire q) t"
inductive_cases dropE: "process_step C s (Drop q) t"
inductive_cases runs_NilE: "runs C s [] t"
inductive_cases runs_ConsE: "runs C s (e # es) u"
inductive_simps process_step_Tick: "process_step C s (Tick now reader) t"

section \<open>What is served\<close>

text \<open>A generation some successful build made, from the tables as they were at that build.\<close>

definition built_at :: "ProcessConfig \<Rightarrow> i64 \<Rightarrow> IcebergReader \<Rightarrow> IndexGeneration \<Rightarrow> bool" where
  "built_at C now reader g \<longleftrightarrow>
     build (pc_hash C) now (builder_at C reader) (pc_partition C) (pc_labels C) = Ok g"

text \<open>Everything a process serves or still holds was built at its start or at one of its ticks.\<close>

definition serves_built :: "ProcessConfig \<Rightarrow> (i64 \<times> IcebergReader) set \<Rightarrow> Process \<Rightarrow> bool" where
  "serves_built C sources s \<longleftrightarrow>
     (\<exists>(now, reader) \<in> sources. built_at C now reader (gh_current (pr_handle s))) \<and>
     fmpred (\<lambda>_ g. \<exists>(now, reader) \<in> sources. built_at C now reader g) (pr_requests s)"

fun tick_source :: "Event \<Rightarrow> (i64 \<times> IcebergReader) set" where
  "tick_source (Tick now reader) = {(now, reader)}"
| "tick_source _ = {}"

lemma serves_built_mono: "serves_built C A s \<Longrightarrow> A \<subseteq> B \<Longrightarrow> serves_built C B s"
  by (auto simp: serves_built_def fmpred_iff) blast+

lemma starts_serves_built: "starts C now reader s \<Longrightarrow> serves_built C {(now, reader)} s"
  by (auto elim!: starts.cases simp: serves_built_def built_at_def bootstrap_def process_new_def generation_handle_new_def)

lemma step_serves_built:
  "process_step C s e t \<Longrightarrow> serves_built C A s \<Longrightarrow> serves_built C (A \<union> tick_source e) t"
proof (induction rule: process_step.induct)
  case (tick s C now reader handle)
  then have "gh_current handle = gh_current (pr_handle s) \<or> built_at C now reader (gh_current handle)"
    by (auto simp: rebuild_tick_def swap_def built_at_def split: res.splits)
  then show ?case
    using serves_built_mono [OF tick(3) subset_insertI, of "(now, reader)"] by (auto simp: serves_built_def)
next
  case (tick_panics s C now reader)
  then show ?case using serves_built_mono [OF tick_panics(3) subset_insertI, of "(now, reader)"]
    by (simp add: serves_built_def)
qed (auto simp: serves_built_def acquire_def fmpred_upd intro: fmpred_drop)

lemma runs_serves_built:
  "runs C s es t \<Longrightarrow> serves_built C A s \<Longrightarrow> serves_built C (A \<union> \<Union> (tick_source ` set es)) t"
proof (induction arbitrary: A rule: runs.induct)
  case (continues C s e t es u)
  from continues.IH [OF step_serves_built [OF continues.hyps(1) continues.prems]] show ?case
    by (simp add: Un_assoc)
qed simp

text \<open>A request keeps the generation it acquired until it drops it, whatever is rebuilt meanwhile.\<close>

lemma step_keeps_request:
  "process_step C s e t \<Longrightarrow> fmlookup (pr_requests s) q = Some g \<Longrightarrow> e \<noteq> Drop q \<Longrightarrow> fmlookup (pr_requests t) q = Some g"
  by (induction rule: process_step.induct) (auto dest: fmdomI)

lemma runs_keeps_request:
  "runs C s es t \<Longrightarrow> fmlookup (pr_requests s) q = Some g \<Longrightarrow> Drop q \<notin> set es \<Longrightarrow> fmlookup (pr_requests t) q = Some g"
  by (induction rule: runs.induct) (auto dest: step_keeps_request)

text \<open>Once the loop has ended, nothing replaces the generation that is served.\<close>

lemma step_without_loop:
  "process_step C s e t \<Longrightarrow> \<not> pr_loop_alive s \<Longrightarrow> pr_handle t = pr_handle s \<and> \<not> pr_loop_alive t"
  by (induction rule: process_step.induct) auto

lemma runs_without_loop: "runs C s es t \<Longrightarrow> \<not> pr_loop_alive s \<Longrightarrow> pr_handle t = pr_handle s"
  by (induction rule: runs.induct) (auto dest: step_without_loop)

text \<open>Nothing ever blocks: a request is served at once, and a live loop ticks.\<close>

lemma process_progress:
  "q |\<notin>| fmdom (pr_requests s) \<Longrightarrow> \<exists>t. process_step C s (Acquire q) t \<and>
     fmlookup (pr_requests t) q = Some (gh_current (pr_handle s))"
  "pr_loop_alive s \<Longrightarrow> \<exists>t. process_step C s (Tick now reader) t"
proof -
  show "\<exists>t. process_step C s (Acquire q) t \<and> fmlookup (pr_requests t) q = Some (gh_current (pr_handle s))"
    if "q |\<notin>| fmdom (pr_requests s)"
    using process_step.acquires [OF that, of C] by (fastforce simp: acquire_def)
  show "\<exists>t. process_step C s (Tick now reader) t" if "pr_loop_alive s"
    using process_step.tick [OF that] process_step.tick_panics [OF that]
    by (cases "rebuild_tick (pc_hash C) now (builder_at C reader) (pc_partition C) (pc_labels C) (pr_handle s)") blast+
qed

text \<open>A tick replaces the served generation exactly if the build succeeds.\<close>

lemma tick_outcome:
  "process_step C s (Tick now reader) t \<Longrightarrow>
   (case build (pc_hash C) now (builder_at C reader) (pc_partition C) (pc_labels C) of
      Ok g \<Rightarrow> gh_current (pr_handle t) = g \<and> pr_loop_alive t
    | Err _ \<Rightarrow> t = s
    | Panic _ \<Rightarrow> pr_handle t = pr_handle s \<and> \<not> pr_loop_alive t) \<and>
   pr_requests t = pr_requests s"
  by (auto elim!: tickE simp: rebuild_tick_def swap_def split: res.splits)

section \<open>What a generation holds\<close>

text \<open>Every record belongs to the partition and conforms to the schema.\<close>

definition generation_conforms :: "ProcessConfig \<Rightarrow> IndexGeneration \<Rightarrow> bool" where
  "generation_conforms C g \<longleftrightarrow>
     fmpred (\<lambda>n r. homed (pc_hash C) (pc_n_partitions C) (pc_partition C) n \<and> nrec_label r \<in> set (pc_labels C) \<and>
       row_conforms (pc_schema C) (nrec_label r, \<lparr>nr_id = n, nr_properties = nrec_properties r\<rparr>)) (ig_node_records g) \<and>
     fmpred (\<lambda>_ e. \<exists>ed. edge_def (pc_schema C) (erec_edge_type e) = Some ed \<and>
       properties_conform (ed_properties ed) (erec_properties e)) (ig_edge_records g)"

text \<open>The reader of a tick is one of a catalog.\<close>

definition catalog_source :: "'arr arrow_ops \<Rightarrow> (i64 \<times> IcebergReader) \<Rightarrow> bool" where
  "catalog_source A src \<longleftrightarrow> (\<exists>catalog. snd src = IcebergCatalogReader A catalog)"

lemma built_at_conforms:
  assumes "built_at C now reader g" "pc_n_partitions C \<noteq> 0" "catalog_source A (now, reader)"
  shows "generation_conforms C g"
proof -
  obtain catalog where r: "ib_reader (builder_at C reader) = IcebergCatalogReader A catalog"
    using assms(3) by (auto simp: catalog_source_def builder_at_def)
  have b: "build (pc_hash C) now (builder_at C reader) (pc_partition C) (pc_labels C) = Ok g"
    "ib_n_partitions (builder_at C reader) \<noteq> 0"
    using assms(1,2) by (simp_all add: built_at_def builder_at_def)
  show ?thesis
    using build_records [OF r b(2,1)] by (simp add: generation_conforms_def fmpred_iff builder_at_def)
qed

lemma serves_built_conforms:
  assumes "serves_built C sources s" "pc_n_partitions C \<noteq> 0" "\<forall>src \<in> sources. catalog_source A src"
  shows "generation_conforms C (gh_current (pr_handle s))" "fmpred (\<lambda>_. generation_conforms C) (pr_requests s)"
  using assms built_at_conforms [OF _ assms(2)] by (auto simp: serves_built_def fmpred_iff) blast+

section \<open>What a build reads\<close>

text \<open>The rows of all tables, as a build reads them.\<close>

definition read_tables :: "IcebergIndexBuilder \<Rightarrow> Label list \<Rightarrow> (RebuildError, Dataset) res" where
  "read_tables B labels =
     res_bind (map_err RebuildStorage (fold_res (scan_label B) (fmempty, []) labels)) (\<lambda>(snaps, nodes).
     res_bind (map_err RebuildStorage (fold_res (scan_edge_type B) (snaps, [])
                 (map snd (sorted_list_of_fmap (sch_edges (ib_schema B)))))) (\<lambda>(snaps', edges).
     Ok \<lparr>ds_schema = ib_schema B, ds_nodes = nodes, ds_edges = edges\<rparr>))"

lemma build_read:
  assumes "read_tables B labels = Ok D"
  obtains snaps where "\<And>h now part. build h now B part labels =
    assemble h (ds_schema D) (ib_n_partitions B) now part snaps (ds_nodes D) (ds_edges D)"
  using assms by (auto simp: read_tables_def build_def res_bind_Ok_iff map_err_Ok_iff)

text \<open>A tick over tables that are a dataset succeeds, and from then on the process serves it.\<close>

lemma tick_serves:
  assumes "process_step C s (Tick now reader) t" "pc_n_partitions C \<noteq> 0"
    and "read_tables (builder_at C reader) (pc_labels C) = Ok D" "wf_dataset D"
  shows "pr_loop_alive t"
    and "built_for (pc_hash C) (pc_n_partitions C) D (pc_partition C) (gh_current (pr_handle t))"
proof -
  obtain snaps where b: "\<And>h now part. build h now (builder_at C reader) part (pc_labels C) =
    assemble h (ds_schema D) (pc_n_partitions C) now part snaps (ds_nodes D) (ds_edges D)"
    using build_read [OF assms(3)] by (auto simp: builder_at_def)
  obtain g where "assemble (pc_hash C) (ds_schema D) (pc_n_partitions C) now (pc_partition C) snaps
      (ds_nodes D) (ds_edges D) = (Ok g :: (RebuildError, _) res)"
    by (rule assemble_Ok [OF assms(2)]) (use assms(4) in \<open>auto simp: wf_dataset_def\<close>)
  then show "pr_loop_alive t"
    "built_for (pc_hash C) (pc_n_partitions C) D (pc_partition C) (gh_current (pr_handle t))"
    using tick_outcome [OF assms(1)] by (auto simp: b built_for_def)
qed

section \<open>While the tables do not change\<close>

text \<open>The tables of a build hold the rows of the dataset.\<close>

definition shows_tables :: "ProcessConfig \<Rightarrow> Dataset \<Rightarrow> i64 \<times> IcebergReader \<Rightarrow> bool" where
  "shows_tables C D src \<longleftrightarrow> read_tables (builder_at C (snd src)) (pc_labels C) = Ok D"

lemma built_at_for:
  assumes "built_at C now reader g" "shows_tables C D (now, reader)"
  shows "built_for (pc_hash C) (pc_n_partitions C) D (pc_partition C) g"
proof -
  have "read_tables (builder_at C reader) (pc_labels C) = Ok D"
    using assms(2) by (simp add: shows_tables_def)
  from build_read [OF this] obtain snaps where "\<And>h now part. build h now (builder_at C reader) part (pc_labels C) =
    assemble h (ds_schema D) (pc_n_partitions C) now part snaps (ds_nodes D) (ds_edges D)"
    by (auto simp: builder_at_def)
  then show ?thesis
    using assms(1) unfolding built_at_def built_for_def by fastforce
qed

text \<open>Whatever is rebuilt and whenever, every generation in use serves the partition of the dataset.\<close>

lemma serves_built_for:
  assumes "serves_built C sources s" "\<forall>src \<in> sources. shows_tables C D src"
  shows "built_for (pc_hash C) (pc_n_partitions C) D (pc_partition C) (gh_current (pr_handle s))"
    and "fmpred (\<lambda>_. built_for (pc_hash C) (pc_n_partitions C) D (pc_partition C)) (pr_requests s)"
  using assms built_at_for by (auto simp: serves_built_def fmpred_iff) blast+

text \<open>The sources of a run: the first build and the ticks.\<close>

definition run_sources :: "i64 \<times> IcebergReader \<Rightarrow> Event list \<Rightarrow> (i64 \<times> IcebergReader) set" where
  "run_sources first es = insert first (\<Union> (tick_source ` set es))"

lemma run_serves_built:
  "starts C now reader s \<Longrightarrow> runs C s es t \<Longrightarrow> serves_built C (run_sources (now, reader) es) t"
  using runs_serves_built [OF _ starts_serves_built] by (fastforce simp: run_sources_def)

end
