(* ===== verification/Sql_Catalog.thy ===== *)
theory Sql_Catalog
  imports Graph_Storage
begin

text \<open>
  \<open>graph-storage/src/catalog.rs\<close>: the location of the warehouse, resolved lexically, and the
  opening of the SQLite-backed catalog. The file system is Unix's. The current directory and the
  catalog crate are parameters; the crate's calls read and change a store, which is passed through.
\<close>

section \<open>Paths\<close>

text \<open>\<open>std::path::Component\<close>, and \<open>Path::components\<close>: repeated separators and inner dots vanish.\<close>

datatype Component = RootDir | CurDir | ParentDir | Normal string

definition has_root :: "string \<Rightarrow> bool" where
  "has_root path \<longleftrightarrow> (case path of c # _ \<Rightarrow> c = CHR ''/'' | [] \<Rightarrow> False)"

definition component_of :: "string \<Rightarrow> Component" where
  "component_of s = (if s = ''..'' then ParentDir else Normal s)"

definition plain_names :: "string \<Rightarrow> string list" where
  "plain_names path = filter (\<lambda>s. s \<noteq> [] \<and> s \<noteq> ''.'') (split_on CHR ''/'' path)"

definition components :: "string \<Rightarrow> Component list" where
  "components path =
     (if has_root path then [RootDir]
      else if hd (split_on CHR ''/'' path) = ''.'' then [CurDir] else []) @
     map component_of (plain_names path)"

fun component_str :: "Component \<Rightarrow> string" where
  "component_str RootDir = ''/''"
| "component_str CurDir = ''.''"
| "component_str ParentDir = ''..''"
| "component_str (Normal s) = s"

text \<open>\<open>PathBuf::push\<close>: an absolute path replaces the buffer.\<close>

definition push_path :: "string \<Rightarrow> string \<Rightarrow> string" where
  "push_path buf path =
     (if has_root path then path
      else if buf \<noteq> [] \<and> last buf \<noteq> CHR ''/'' then buf @ ''/'' @ path
      else buf @ path)"

section \<open>The warehouse\<close>

definition push_component :: "string \<Rightarrow> Component \<Rightarrow> string" where
  "push_component out component =
     (case component of CurDir \<Rightarrow> out | other \<Rightarrow> push_path out (component_str other))"

definition absolute_warehouse :: "(string, string) res \<Rightarrow> string \<Rightarrow> (StorageError, string) res" where
  "absolute_warehouse current_dir path =
     res_map (\<lambda>joined. foldl push_component [] (components joined))
       (if has_root path then Ok path
        else res_map (\<lambda>dir. push_path dir path)
          (map_err (\<lambda>e. Backend (''cannot resolve relative warehouse path '' @ path @ '': '' @ e)) current_dir))"

section \<open>Opening the catalog\<close>

record ('s, 'c) sql_ops =
  sql_load :: "string \<Rightarrow> string \<Rightarrow> 's \<Rightarrow> (string, 'c) res \<times> 's"
  sql_namespace_exists :: "'c \<Rightarrow> string \<Rightarrow> 's \<Rightarrow> (string, bool) res \<times> 's"
  sql_create_namespace :: "'c \<Rightarrow> string \<Rightarrow> 's \<Rightarrow> (string, unit) res \<times> 's"

definition open_sql_catalog ::
  "('s, 'c) sql_ops \<Rightarrow> (string, string) res \<Rightarrow> string \<Rightarrow> string \<Rightarrow> string \<Rightarrow> 's \<Rightarrow> (StorageError, 'c) res \<times> 's" where
  "open_sql_catalog ops current_dir sqlite_path warehouse_path namespace s =
     (case absolute_warehouse current_dir warehouse_path of
        Ok abs_warehouse \<Rightarrow>
          (case sql_load ops (''sqlite://'' @ sqlite_path @ ''?mode=rwc'') (''file://'' @ abs_warehouse) s of
             (Ok catalog, s) \<Rightarrow>
               (case sql_namespace_exists ops catalog namespace s of
                  (Ok True, s) \<Rightarrow> (Ok catalog, s)
                | (Ok False, s) \<Rightarrow>
                    (case sql_create_namespace ops catalog namespace s of
                       (Ok _, s) \<Rightarrow> (Ok catalog, s)
                     | (Err e, s) \<Rightarrow> (Err (Backend e), s)
                     | (Panic m, s) \<Rightarrow> (Panic m, s))
                | (Err e, s) \<Rightarrow> (Err (Backend e), s)
                | (Panic m, s) \<Rightarrow> (Panic m, s))
           | (Err e, s) \<Rightarrow> (Err (Backend e), s)
           | (Panic m, s) \<Rightarrow> (Panic m, s))
      | Err e \<Rightarrow> (Err e, s)
      | Panic m \<Rightarrow> (Panic m, s))"

section \<open>What a resolved path is\<close>

lemma plain_names_no_slash: "s \<in> set (plain_names path) \<Longrightarrow> CHR ''/'' \<notin> set s"
proof -
  have "w \<in> set (split_on c path) \<Longrightarrow> c \<notin> set w" for w c
    by (induction path arbitrary: w) (auto split: if_splits list.splits)
  then show "s \<in> set (plain_names path) \<Longrightarrow> CHR ''/'' \<notin> set s" by (auto simp: plain_names_def)
qed

lemma component_str_of [simp]: "component_str (component_of s) = s"
  by (simp add: component_of_def)

text \<open>The absolute path with these names.\<close>

definition rooted :: "string list \<Rightarrow> string" where
  "rooted names = ''/'' @ join_with ''/'' names"

lemma join_with_snoc: "ws \<noteq> [] \<Longrightarrow> join_with sep (ws @ [w]) = join_with sep ws @ sep @ w"
  by (induction sep ws rule: join_with.induct) auto

lemma last_join_with: "ws \<noteq> [] \<Longrightarrow> last ws \<noteq> [] \<Longrightarrow> join_with sep ws \<noteq> [] \<and> last (join_with sep ws) = last (last ws)"
proof (induction ws rule: rev_induct)
  case (snoc w ws)
  then show ?case by (cases "ws = []") (simp_all add: join_with_snoc)
qed simp

lemma push_rooted:
  assumes "\<forall>w \<in> set ws. w \<noteq> [] \<and> CHR ''/'' \<notin> set w" "w \<noteq> []" "CHR ''/'' \<notin> set w"
  shows "push_path (rooted ws) w = rooted (ws @ [w])"
proof -
  have rel: "\<not> has_root w" using assms(2,3) by (auto simp: has_root_def split: list.splits)
  show ?thesis
  proof (cases "ws = []")
    case False
    then have l: "join_with ''/'' ws \<noteq> []" "last (join_with ''/'' ws) = last (last ws)" "last ws \<in> set ws"
      using last_join_with [of ws "''/''"] assms(1) by auto
    then have "last (last ws) \<noteq> CHR ''/''" using assms(1) last_in_set by metis
    then show ?thesis using rel l False by (simp add: push_path_def rooted_def join_with_snoc)
  qed (simp add: push_path_def rel rooted_def)
qed

lemma fold_push_rooted:
  assumes "\<forall>w \<in> set (us @ ws). w \<noteq> [] \<and> CHR ''/'' \<notin> set w"
  shows "foldl push_component (rooted us) (map component_of ws) = rooted (us @ ws)"
  using assms
proof (induction ws arbitrary: us)
  case (Cons w ws)
  have "push_component (rooted us) (component_of w) = rooted (us @ [w])"
    using push_rooted [of us w] Cons.prems by (auto simp: push_component_def component_of_def)
  then show ?case using Cons.IH [of "us @ [w]"] Cons.prems by simp
qed simp

lemma plain_names_facts: "\<forall>w \<in> set (plain_names path). w \<noteq> [] \<and> CHR ''/'' \<notin> set w \<and> w \<noteq> ''.''"
  using plain_names_no_slash by (auto simp: plain_names_def)

lemma resolve_rooted:
  assumes "has_root path"
  shows "foldl push_component [] (components path) = rooted (plain_names path)"
proof -
  have "push_component [] RootDir = rooted []"
    by (simp add: push_component_def push_path_def has_root_def rooted_def)
  then show ?thesis
    using fold_push_rooted [of "[]" "plain_names path"] plain_names_facts [of path] assms
    by (simp add: components_def)
qed

text \<open>A relative path is resolved against the current directory.\<close>

lemma split_on_sep_append: "split_on sep (a @ sep # b) = split_on sep a @ split_on sep b"
proof (induction a)
  case (Cons c a)
  have "split_on sep a \<noteq> []" by (induction a) (auto split: list.split)
  with Cons show ?case by (auto split: list.split)
qed simp

lemma plain_names_append: "plain_names (a @ CHR ''/'' # b) = plain_names a @ plain_names b"
  by (simp add: plain_names_def split_on_sep_append)

lemma has_root_append: "has_root a \<Longrightarrow> has_root (a @ b)"
  by (cases a) (simp_all add: has_root_def)

lemma plain_names_push:
  assumes "\<not> has_root path" "has_root dir"
  shows "plain_names (push_path dir path) = plain_names dir @ plain_names path \<and> has_root (push_path dir path)"
proof (cases "last dir = CHR ''/''")
  case True
  have "dir \<noteq> []" using assms(2) by (auto simp: has_root_def)
  then obtain d where d: "dir = d @ [CHR ''/'']" using True append_butlast_last_id by metis
  have "plain_names dir = plain_names d" using plain_names_append [of d "[]"] by (simp add: plain_names_def d)
  moreover have "push_path dir path = d @ CHR ''/'' # path" using assms(1) by (simp add: push_path_def d)
  ultimately show ?thesis
    using plain_names_append [of d path] has_root_append [OF assms(2), of path] by (simp add: d)
next
  case False
  then have "push_path dir path = dir @ CHR ''/'' # path"
    using assms by (auto simp: push_path_def has_root_def split: list.splits)
  then show ?thesis using plain_names_append [of dir path] has_root_append [OF assms(2)] by simp
qed

lemma absolute_warehouse_rooted:
  assumes "has_root dir"
  shows "absolute_warehouse (Ok dir) path =
    Ok (rooted ((if has_root path then [] else plain_names dir) @ plain_names path))"
  using plain_names_push [OF _ assms, of path] resolve_rooted [of path] resolve_rooted [of "push_path dir path"]
  by (simp add: absolute_warehouse_def)

lemma plain_names_rooted:
  assumes "\<forall>w \<in> set ws. w \<noteq> [] \<and> CHR ''/'' \<notin> set w \<and> w \<noteq> ''.''"
  shows "plain_names (rooted ws) = ws"
proof (cases "ws = []")
  case False
  have "split_on CHR ''/'' (rooted ws) = [] # split_on CHR ''/'' (join_with [CHR ''/''] ws)" by (simp add: rooted_def)
  also have "\<dots> = [] # ws" using split_on_join [OF False] assms by simp
  finally show ?thesis using assms by (simp add: plain_names_def filter_id_conv)
qed (simp add: plain_names_def rooted_def)

lemma has_root_rooted [simp]: "has_root (rooted ws)"
  by (simp add: rooted_def has_root_def)

text \<open>Once resolved, a path stays, from wherever it is resolved again.\<close>

lemma absolute_warehouse_again:
  assumes "\<forall>w \<in> set ws. w \<noteq> [] \<and> CHR ''/'' \<notin> set w \<and> w \<noteq> ''.''"
  shows "absolute_warehouse elsewhere (rooted ws) = Ok (rooted ws)"
  using resolve_rooted [of "rooted ws"] plain_names_rooted [OF assms] by (simp add: absolute_warehouse_def)

section \<open>The namespace exists\<close>

text \<open>
  The documented behaviour of the catalog: a namespace that was created exists, and asking does
  not change the store.
\<close>

definition keeps_namespaces :: "('s, 'c) sql_ops \<Rightarrow> bool" where
  "keeps_namespaces ops \<longleftrightarrow>
     (\<forall>c n s. snd (sql_namespace_exists ops c n s) = s) \<and>
     (\<forall>c n s t. sql_create_namespace ops c n s = (Ok (), t) \<longrightarrow> fst (sql_namespace_exists ops c n t) = Ok True)"

lemma open_sql_catalog_namespace:
  assumes "keeps_namespaces ops" "open_sql_catalog ops dir sqlite warehouse namespace s = (Ok c, t)"
  shows "fst (sql_namespace_exists ops c namespace t) = Ok True"
proof -
  obtain w u where load: "absolute_warehouse dir warehouse = Ok w"
    "sql_load ops (''sqlite://'' @ sqlite @ ''?mode=rwc'') (''file://'' @ w) s = (Ok c, u)"
    and rest: "(case sql_namespace_exists ops c namespace u of
        (Ok True, s) \<Rightarrow> (Ok c, s)
      | (Ok False, s) \<Rightarrow>
          (case sql_create_namespace ops c namespace s of
             (Ok _, s) \<Rightarrow> (Ok c, s) | (Err e, s) \<Rightarrow> (Err (Backend e), s) | (Panic m, s) \<Rightarrow> (Panic m, s))
      | (Err e, s) \<Rightarrow> (Err (Backend e), s)
      | (Panic m, s) \<Rightarrow> (Panic m, s)) = (Ok c, t)"
    using assms(2) by (auto simp: open_sql_catalog_def split: res.splits prod.splits bool.splits)
  show ?thesis
    using rest assms(1) unfolding keeps_namespaces_def
    by (auto split: res.splits prod.splits bool.splits) (metis fst_conv snd_conv)+
qed

lemma open_sql_catalog_loads:
  assumes "open_sql_catalog ops dir sqlite warehouse namespace s = (Ok c, t)" "absolute_warehouse dir warehouse = Ok w"
  shows "\<exists>u. sql_load ops (''sqlite://'' @ sqlite @ ''?mode=rwc'') (''file://'' @ w) s = (Ok c, u)"
  using assms by (auto simp: open_sql_catalog_def split: res.splits prod.splits bool.splits)

end
