(* ===== verification/Configuration.thy ===== *)
theory Configuration
  imports Coordinator_Service Schema_Grammar Rebuild Sql_Catalog
begin

text \<open>
  The configuration of the two binaries, read from the environment (\<open>config.rs\<close> of
  \<open>graph-coordinator\<close> and of \<open>graph-partition-node\<close>), and what the coordinator's \<open>main\<close> makes
  of it. The environment is a partial map; \<open>parse_addr\<close> is the parser of socket addresses.
\<close>

section \<open>Environment variables\<close>

type_synonym Environment = "string \<Rightarrow> string option"

datatype ConfigError = MissingEnv string | InvalidEnv string string

definition parse_env ::
  "Environment \<Rightarrow> (string \<Rightarrow> 'a option) \<Rightarrow> string \<Rightarrow> 'a \<Rightarrow> (ConfigError, 'a) res" where
  "parse_env env parse_value key fallback =
     (case env key of
        Some v \<Rightarrow> (case parse_value v of Some x \<Rightarrow> Ok x | None \<Rightarrow> Err (InvalidEnv key v))
      | None \<Rightarrow> Ok fallback)"

definition env_or :: "Environment \<Rightarrow> string \<Rightarrow> string \<Rightarrow> string" where
  "env_or env key fallback = (case env key of Some v \<Rightarrow> v | None \<Rightarrow> fallback)"

definition parse_u16 :: "string \<Rightarrow> u16 option" where
  "parse_u16 s = map_option of_nat (parse_unsigned 16 s)"

text \<open>\<open>parse_env(key, default.to_string())?.parse().map_err(..)?\<close>.\<close>

definition env_addr ::
  "Environment \<Rightarrow> (string \<Rightarrow> SocketAddr option) \<Rightarrow> string \<Rightarrow> string \<Rightarrow> (ConfigError, SocketAddr) res" where
  "env_addr env parse_addr key fallback =
     res_bind (parse_env env Some key fallback) (\<lambda>v.
     ok_or (InvalidEnv key ''not a valid socket address'') (parse_addr v))"

section \<open>The coordinator\<close>

datatype DiscoveryMode =
    Static "(u32 \<times> SocketAddr) list"
  | Kubernetes string string u16

record CoordinatorConfig =
  cc_schema_path :: string
  cc_discovery :: DiscoveryMode
  cc_n_partitions :: u32
  cc_listen_addr :: SocketAddr
  cc_metrics_listen_addr :: SocketAddr

definition parse_partition_addr ::
  "(string \<Rightarrow> SocketAddr option) \<Rightarrow> string \<Rightarrow> (ConfigError, u32 \<times> SocketAddr) res" where
  "parse_partition_addr parse_addr entry =
     res_bind (ok_or (InvalidEnv ''GRAPH_PARTITION_NODE_ADDRS''
                  (''expected '' @ debug_str ''<partition_id>=<host:port>'' @ '', got '' @ debug_str entry))
                (split_once CHR ''='' entry)) (\<lambda>(partition_text, addr_text).
     res_bind (ok_or (InvalidEnv ''GRAPH_PARTITION_NODE_ADDRS''
                  (debug_str partition_text @ '' is not a valid partition id'')) (parse_u32 partition_text)) (\<lambda>p.
     res_bind (ok_or (InvalidEnv ''GRAPH_PARTITION_NODE_ADDRS''
                  (debug_str addr_text @ '' is not a valid socket address'')) (parse_addr addr_text)) (\<lambda>addr.
     Ok (p, addr))))"

definition parse_static_partition_addrs ::
  "(string \<Rightarrow> SocketAddr option) \<Rightarrow> string \<Rightarrow> (ConfigError, (u32 \<times> SocketAddr) list) res" where
  "parse_static_partition_addrs parse_addr raw =
     collect_res (parse_partition_addr parse_addr) (split_on CHR '','' raw)"

definition discovery_from_env ::
  "Environment \<Rightarrow> (string \<Rightarrow> SocketAddr option) \<Rightarrow> (ConfigError, DiscoveryMode) res" where
  "discovery_from_env env parse_addr =
     (let mode = env_or env ''GRAPH_DISCOVERY_MODE'' ''static'' in
      if mode = ''kubernetes''
      then res_map (Kubernetes (env_or env ''GRAPH_K8S_NAMESPACE'' ''default'')
                      (env_or env ''GRAPH_K8S_LABEL_SELECTOR'' ''app=graph-partition-node''))
             (parse_env env parse_u16 ''GRAPH_K8S_PARTITION_PORT'' 7001)
      else if mode = ''static''
      then res_map Static (parse_static_partition_addrs parse_addr
             (env_or env ''GRAPH_PARTITION_NODE_ADDRS'' ''0=127.0.0.1:7001''))
      else Err (InvalidEnv ''GRAPH_DISCOVERY_MODE'' (debug_str mode @ '' (expected '' @ debug_str ''static'' @
             '' or '' @ debug_str ''kubernetes'' @ '')'')))"

definition coordinator_from_env ::
  "Environment \<Rightarrow> (string \<Rightarrow> SocketAddr option) \<Rightarrow> (ConfigError, CoordinatorConfig) res" where
  "coordinator_from_env env parse_addr =
     res_bind (ok_or (MissingEnv ''GRAPH_SCHEMA_PATH'') (env ''GRAPH_SCHEMA_PATH'')) (\<lambda>schema_path.
     res_bind (parse_env env parse_u32 ''GRAPH_N_PARTITIONS'' 1) (\<lambda>n_partitions.
     res_bind (env_addr env parse_addr ''GRAPH_COORDINATOR_LISTEN_ADDR'' ''0.0.0.0:7000'') (\<lambda>listen_addr.
     res_bind (env_addr env parse_addr ''GRAPH_COORDINATOR_METRICS_LISTEN_ADDR'' ''0.0.0.0:9100'') (\<lambda>metrics_listen_addr.
     res_bind (discovery_from_env env parse_addr) (\<lambda>discovery.
     Ok \<lparr>cc_schema_path = schema_path, cc_discovery = discovery, cc_n_partitions = n_partitions,
         cc_listen_addr = listen_addr, cc_metrics_listen_addr = metrics_listen_addr\<rparr>)))))"

section \<open>The partition node\<close>

record NodeConfig =
  nc_schema_path :: string
  nc_warehouse_path :: string
  nc_catalog_db_path :: string
  nc_namespace :: string
  nc_partition_id :: u32
  nc_n_partitions :: u32
  nc_rebuild_interval_secs :: u64
  nc_listen_addr :: SocketAddr
  nc_metrics_listen_addr :: SocketAddr

definition node_from_env ::
  "Environment \<Rightarrow> (string \<Rightarrow> SocketAddr option) \<Rightarrow> (ConfigError, NodeConfig) res" where
  "node_from_env env parse_addr =
     res_bind (ok_or (MissingEnv ''GRAPH_SCHEMA_PATH'') (env ''GRAPH_SCHEMA_PATH'')) (\<lambda>schema_path.
     let warehouse_path = env_or env ''GRAPH_WAREHOUSE_PATH'' ''./warehouse'';
         catalog_db_path = env_or env ''GRAPH_CATALOG_DB_PATH'' ''./catalog.sqlite'';
         namespace = env_or env ''GRAPH_NAMESPACE'' ''graph'' in
     res_bind (parse_env env parse_u32 ''GRAPH_PARTITION_ID'' 0) (\<lambda>partition_id.
     res_bind (parse_env env parse_u32 ''GRAPH_N_PARTITIONS'' 1) (\<lambda>n_partitions.
     res_bind (parse_env env parse_u64 ''GRAPH_REBUILD_INTERVAL_SECS'' 30) (\<lambda>rebuild_interval_secs.
     res_bind (env_addr env parse_addr ''GRAPH_PARTITION_LISTEN_ADDR'' ''0.0.0.0:7001'') (\<lambda>listen_addr.
     res_bind (env_addr env parse_addr ''GRAPH_PARTITION_METRICS_LISTEN_ADDR'' ''0.0.0.0:9101'') (\<lambda>metrics_listen_addr.
     Ok \<lparr>nc_schema_path = schema_path, nc_warehouse_path = warehouse_path, nc_catalog_db_path = catalog_db_path,
         nc_namespace = namespace, nc_partition_id = partition_id, nc_n_partitions = n_partitions,
         nc_rebuild_interval_secs = rebuild_interval_secs, nc_listen_addr = listen_addr,
         nc_metrics_listen_addr = metrics_listen_addr\<rparr>))))))"

section \<open>The coordinator's start\<close>

text \<open>
  \<open>main\<close>, up to the service: \<open>read_to_string\<close> and the Kubernetes client are parameters;
  \<open>list_pods\<close> is \<open>None\<close> when \<open>try_default\<close> fails, and otherwise what listing the pods of a
  namespace answers. An error of any kind ends the process (\<open>None\<close>).
\<close>

type_synonym PodLister = "string \<Rightarrow> string \<Rightarrow> (string, Pod list) res option"

definition static_discovery :: "hash_order \<Rightarrow> (u32 \<times> SocketAddr) list \<Rightarrow> StaticDiscovery" where
  "static_discovery ho partition_addrs = single_replica_per_partition ho (hm_collect partition_addrs)"

definition discovery_new ::
  "hash_order \<Rightarrow> (string \<Rightarrow> SocketAddr option) \<Rightarrow> PodLister \<Rightarrow> DiscoveryMode
   \<Rightarrow> (DiscoveryError, PartitionMap) res option" where
  "discovery_new ho parse_addr list_pods mode =
     (case mode of
        Static partition_addrs \<Rightarrow> Some (static_current_map (static_discovery ho partition_addrs))
      | Kubernetes namespace label_selector partition_port \<Rightarrow>
          map_option (kubernetes_current_map parse_addr partition_port) (list_pods namespace label_selector))"

definition coordinator_main ::
  "hash_order \<Rightarrow> Environment \<Rightarrow> (string \<Rightarrow> SocketAddr option) \<Rightarrow> (string \<Rightarrow> string option)
   \<Rightarrow> (string \<Rightarrow> (string, SRule Pair list) res) \<Rightarrow> PodLister \<Rightarrow> PartitionRpc \<Rightarrow> GraphServiceImpl option" where
  "coordinator_main ho env parse_addr read_file schema_pest list_pods rpc =
     (case coordinator_from_env env parse_addr of
        Ok config \<Rightarrow>
          (case read_file (cc_schema_path config) of
             Some schema_idl \<Rightarrow>
               (case schema_parse schema_pest schema_idl of
                  Ok schema \<Rightarrow>
                    (case discovery_new ho parse_addr list_pods (cc_discovery config) of
                       Some discovery \<Rightarrow>
                         Some \<lparr>gs_schema = schema, gs_schema_idl = schema_idl, gs_discovery = discovery,
                           gs_executor = \<lparr>sg_rpc = rpc, sg_hasher = \<lparr>ph_n_partitions = cc_n_partitions config\<rparr>\<rparr>\<rparr>
                     | None \<Rightarrow> None)
                | _ \<Rightarrow> None)
           | None \<Rightarrow> None)
      | _ \<Rightarrow> None)"

section \<open>The partition node's start\<close>

text \<open>
  \<open>main\<close>, up to the serving process. What it finds outside is a record: the environment, the
  file system, the catalog crate with its store, the tables of a namespace of an opened catalog, the
  Arrow arrays and the clock. What the loop and the handlers share is the state of \<open>Rebuild\<close>.
\<close>

record ('s, 'c, 'arr) NodeWorld =
  ow_hash :: "u64 \<Rightarrow> u64"
  ow_env :: Environment
  ow_parse_addr :: "string \<Rightarrow> SocketAddr option"
  ow_read_file :: "string \<Rightarrow> string option"
  ow_current_dir :: "(string, string) res"
  ow_schema_pest :: "string \<Rightarrow> (string, SRule Pair list) res"
  ow_sql :: "('s, 'c) sql_ops"
  ow_store :: 's
  ow_tables :: "'c \<Rightarrow> string \<Rightarrow> 'arr catalog_ops"
  ow_arrow :: "'arr arrow_ops"
  ow_now :: i64

definition node_process_config :: "(u64 \<Rightarrow> u64) \<Rightarrow> NodeConfig \<Rightarrow> Schema \<Rightarrow> ProcessConfig" where
  "node_process_config h config schema =
     \<lparr>pc_hash = h, pc_schema = schema, pc_n_partitions = nc_n_partitions config,
      pc_partition = PartitionId (nc_partition_id config), pc_labels = map fst (sorted_list_of_fmap (sch_nodes schema)),
      pc_rebuild_interval_secs = nc_rebuild_interval_secs config\<rparr>"

definition node_main :: "('s, 'c, 'arr) NodeWorld \<Rightarrow> (ProcessConfig \<times> Process) option" where
  "node_main W =
     (case node_from_env (ow_env W) (ow_parse_addr W) of
        Ok config \<Rightarrow>
          (case ow_read_file W (nc_schema_path config) of
             Some idl \<Rightarrow>
               (case schema_parse (ow_schema_pest W) idl of
                  Ok schema \<Rightarrow>
                    (case fst (open_sql_catalog (ow_sql W) (ow_current_dir W) (nc_catalog_db_path config)
                                 (nc_warehouse_path config) (nc_namespace config) (ow_store W)) of
                       Ok catalog \<Rightarrow>
                         (let reader = IcebergCatalogReader (ow_arrow W) (ow_tables W catalog (nc_namespace config));
                              C = node_process_config (ow_hash W) config schema in
                          case bootstrap (pc_hash C) (ow_now W) (builder_at C reader) (pc_partition C) (pc_labels C) of
                            Ok generation \<Rightarrow> Some (C, process_new C generation)
                          | _ \<Rightarrow> None)
                     | _ \<Rightarrow> None)
                | _ \<Rightarrow> None)
           | None \<Rightarrow> None)
      | _ \<Rightarrow> None)"

text \<open>A process that started, with what it was started on.\<close>

lemma node_main_starts:
  assumes "node_main W = Some (C, s)"
  obtains config idl schema tables where "node_from_env (ow_env W) (ow_parse_addr W) = Ok config"
    "ow_read_file W (nc_schema_path config) = Some idl" "schema_parse (ow_schema_pest W) idl = Ok schema"
    "C = node_process_config (ow_hash W) config schema"
    "starts C (ow_now W) (IcebergCatalogReader (ow_arrow W) tables) s"
proof -
  from assms obtain config idl schema tables generation where
      cfg: "node_from_env (ow_env W) (ow_parse_addr W) = Ok config" "ow_read_file W (nc_schema_path config) = Some idl"
      "schema_parse (ow_schema_pest W) idl = Ok schema" "C = node_process_config (ow_hash W) config schema"
    and s: "s = process_new C generation"
    and b: "bootstrap (pc_hash C) (ow_now W) (builder_at C (IcebergCatalogReader (ow_arrow W) tables))
      (pc_partition C) (pc_labels C) = Ok generation"
    by (auto simp: node_main_def Let_def split: res.splits option.splits)
  show thesis by (rule that [OF cfg]) (use starts.start [OF b] s in simp)
qed

section \<open>Static addresses\<close>

text \<open>The notation of a list of addresses, and its parsing.\<close>

definition show_partition_addr :: "u32 \<times> SocketAddr \<Rightarrow> string" where
  "show_partition_addr pa = show_nat (unat (fst pa)) @ ''='' @ snd pa"

lemma digits_no_separator: "list_all is_ascii_digit s \<Longrightarrow> CHR ''='' \<notin> set s \<and> CHR '','' \<notin> set s"
  by (auto simp: list_all_iff is_ascii_digit_def)

lemma show_nat_no_separator: "CHR ''='' \<notin> set (show_nat n)" "CHR '','' \<notin> set (show_nat n)"
  using show_nat_digits [of n] digits_no_separator by blast+

lemma parse_partition_addr_show:
  assumes "parse_addr (snd pa) = Some (snd pa)"
  shows "parse_partition_addr parse_addr (show_partition_addr pa) = Ok pa"
proof -
  have "split_once CHR ''='' (show_partition_addr pa) = Some (show_nat (unat (fst pa)), snd pa)"
    using split_once_append [OF show_nat_no_separator(1)] by (simp add: show_partition_addr_def)
  moreover have "parse_u32 (show_nat (unat (fst pa))) = Some (fst pa)"
    using unsigned_less [of "fst pa", where ?'a = nat] by (simp add: parse_u32_def)
  ultimately show ?thesis using assms by (cases pa) (simp add: parse_partition_addr_def)
qed

lemma static_addrs_roundtrip:
  assumes "pas \<noteq> []" "\<forall>pa \<in> set pas. parse_addr (snd pa) = Some (snd pa) \<and> CHR '','' \<notin> set (snd pa)"
  shows "parse_static_partition_addrs parse_addr (join_with '','' (map show_partition_addr pas)) = Ok pas"
proof -
  have "split_on CHR '','' (join_with '','' (map show_partition_addr pas)) = map show_partition_addr pas"
    using assms show_nat_no_separator(2) by (intro split_on_join) (auto simp: show_partition_addr_def)
  moreover have "collect_res (parse_partition_addr parse_addr) (map show_partition_addr xs) = Ok xs"
    if "set xs \<subseteq> set pas" for xs
    using that assms(2) parse_partition_addr_show by (induction xs) auto
  ultimately show ?thesis by (simp add: parse_static_partition_addrs_def)
qed

text \<open>Each configured partition is routed to the address given last for it.\<close>

lemma fmlookup_single_replica:
  assumes "valid_hash_order ho"
  shows "fmlookup (sd_map (single_replica_per_partition ho m)) (PartitionId p) =
    map_option (\<lambda>address. [\<lparr>re_replica = ReplicaId (''partition-'' @ show_nat (unat p)),
       re_address = address, re_healthy = True\<rparr>]) (fmlookup m p)"
proof -
  let ?E = "\<lambda>p address. [\<lparr>re_replica = ReplicaId (''partition-'' @ show_nat (unat p)), re_address = address, re_healthy = True\<rparr>]"
  have "fmlookup (foldl (\<lambda>m (p, address). fmupd (PartitionId p) (?E p address) m) acc kvs) (PartitionId p) =
      (case map_of (rev kvs) p of Some a \<Rightarrow> Some (?E p a) | None \<Rightarrow> fmlookup acc (PartitionId p))" for kvs acc
    by (induction kvs arbitrary: acc) (auto simp: map_add_def simp del: map_of_rev_eq_None split: option.splits)
  moreover have "map_of (rev (hm_iter ho m)) p = fmlookup m p"
  proof -
    have d: "distinct (map fst (rev (hm_iter ho m)))"
      using distinct_keys_hm_iter [OF assms, of m] by (simp add: rev_map [symmetric])
    have "map_of (rev (hm_iter ho m)) p = Some a \<longleftrightarrow> fmlookup m p = Some a" for a
      using map_of_eq_Some_iff [OF d] set_hm_iter [OF assms, of m] by simp
    then show ?thesis by (metis not_Some_eq)
  qed
  ultimately show ?thesis
    by (simp add: single_replica_per_partition_def split: option.split)
qed

lemma static_discovery_routes:
  assumes "valid_hash_order ho"
  shows "map_option re_address (pick_replica (sd_map (static_discovery ho pas)) (PartitionId p)) = map_of (rev pas) p"
  by (cases "map_of (rev pas) p")
    (simp_all add: static_discovery_def pick_replica_def healthy_replicas_def fmlookup_single_replica [OF assms]
      del: map_of_rev_eq_None)

section \<open>What a coordinator starts with\<close>

lemma coordinator_main_starts:
  assumes "coordinator_main ho env parse_addr read_file schema_pest list_pods rpc = Some S"
    and "schema_pest_conforms schema_pest"
  obtains config where "coordinator_from_env env parse_addr = Ok config"
    "read_file (cc_schema_path config) = Some (gs_schema_idl S)"
    "wf_schema (gs_schema S)" "edge_def (gs_schema S) (EdgeType []) = None"
    "gs_executor S = \<lparr>sg_rpc = rpc, sg_hasher = \<lparr>ph_n_partitions = cc_n_partitions config\<rparr>\<rparr>"
    "discovery_new ho parse_addr list_pods (cc_discovery config) = Some (gs_discovery S)"
proof -
  obtain config where c: "coordinator_from_env env parse_addr = Ok config"
    "read_file (cc_schema_path config) = Some (gs_schema_idl S)"
    "gs_executor S = \<lparr>sg_rpc = rpc, sg_hasher = \<lparr>ph_n_partitions = cc_n_partitions config\<rparr>\<rparr>"
    "discovery_new ho parse_addr list_pods (cc_discovery config) = Some (gs_discovery S)"
    and parsed: "schema_parse schema_pest (gs_schema_idl S) = Ok (gs_schema S)"
    using assms(1) by (auto simp: coordinator_main_def split: res.splits option.splits)
  show thesis by (rule that [OF c(1,2) schema_parse_conforming [OF assms(2) parsed] c(3,4)])
qed

end
