(* ===== verification/Running_System.thy ===== *)
theory Running_System
  imports Configuration Coordinator_Answers
begin

text \<open>
  The whole system at work: partition nodes that started from their environments and have been
  rebuilding since, each replica at any point of its own run, behind a coordinator. While the
  tables hold one dataset, the cluster they form is one the execution theorems apply to.
\<close>

section \<open>Replicas\<close>

text \<open>The process of a replica is configured for a partition of the deployment.\<close>

definition configured_for :: "Deployment \<Rightarrow> PartitionId \<Rightarrow> ProcessConfig \<Rightarrow> bool" where
  "configured_for d p C \<longleftrightarrow>
     pc_hash C = dp_hash d \<and> pc_n_partitions C = ph_n_partitions (dp_hasher d) \<and> pc_partition C = p"

text \<open>
  What answers at a replica's address is the service of a process that started, has run since, and
  found the tables of the deployment's dataset at its start and at every tick.
\<close>

definition running_replica :: "Networked \<Rightarrow> PartitionId \<Rightarrow> ReplicaEndpoint \<Rightarrow> bool" where
  "running_replica c p r \<longleftrightarrow>
     (\<exists>C now reader s es t. configured_for (nt_dep c) p C \<and> starts C now reader s \<and> runs C s es t \<and>
        (\<forall>src \<in> run_sources (now, reader) es. shows_tables C (dp_data (nt_dep c)) src) \<and>
        fst (rpc_client (nt_network c) (nt_clients c) r) =
          Ok \<lparr>psi_generation = acquire (pr_handle t), psi_partition = pc_partition C\<rparr>)"

lemma running_replicaI:
  assumes "configured_for (nt_dep c) p C" "starts C now reader s" "runs C s es t"
    and "\<forall>src \<in> run_sources (now, reader) es. shows_tables C (dp_data (nt_dep c)) src"
    and "fst (rpc_client (nt_network c) (nt_clients c) r) =
      Ok \<lparr>psi_generation = acquire (pr_handle t), psi_partition = pc_partition C\<rparr>"
  shows "running_replica c p r"
  using assms unfolding running_replica_def by blast

definition running_cluster :: "Networked \<Rightarrow> bool" where
  "running_cluster c \<longleftrightarrow>
     ph_n_partitions (dp_hasher (nt_dep c)) \<noteq> 0 \<and> valid_hash_order (dp_order (nt_dep c)) \<and>
     wf_dataset (dp_data (nt_dep c)) \<and>
     (\<forall>p r. pick_replica (dp_map (nt_dep c)) p = Some r \<longrightarrow> running_replica c p r)"

lemma running_replica_serves:
  assumes "running_replica c p r"
  shows "\<exists>svc. fst (rpc_client (nt_network c) (nt_clients c) r) = Ok svc \<and>
    built_for (dp_hash (nt_dep c)) (ph_n_partitions (dp_hasher (nt_dep c))) (dp_data (nt_dep c)) p (psi_generation svc)"
proof -
  obtain C now reader s es t where C: "configured_for (nt_dep c) p C"
    and run: "starts C now reader s" "runs C s es t"
    and src: "\<forall>src \<in> run_sources (now, reader) es. shows_tables C (dp_data (nt_dep c)) src"
    and svc: "fst (rpc_client (nt_network c) (nt_clients c) r) =
      Ok \<lparr>psi_generation = acquire (pr_handle t), psi_partition = pc_partition C\<rparr>"
    using assms by (auto simp: running_replica_def)
  show ?thesis
    using serves_built_for(1) [OF run_serves_built [OF run] src] svc C
    by (simp add: acquire_def configured_for_def)
qed

lemma running_cluster_ok: "running_cluster c \<Longrightarrow> networked_ok c"
  using running_replica_serves by (auto simp: running_cluster_def networked_ok_def)

section \<open>From the environment to the rows\<close>

text \<open>A coordinator that started over the cluster, with the deployment's placement.\<close>

definition coordinates :: "Networked \<Rightarrow> GraphServiceImpl \<Rightarrow> bool" where
  "coordinates c S \<longleftrightarrow>
     gs_discovery S = Ok (dp_map (nt_dep c)) \<and>
     ph_n_partitions (sg_hasher (gs_executor S)) = ph_n_partitions (dp_hasher (nt_dep c))"

lemma coordinator_executor:
  assumes "coordinator_main ho env parse_addr read_file schema_pest list_pods (networked_rpc c) = Some S"
    and "schema_pest_conforms schema_pest" "coordinates c S"
  shows "gs_executor S = \<lparr>sg_rpc = networked_rpc c, sg_hasher = dp_hasher (nt_dep c)\<rparr>"
    "edge_def (gs_schema S) (EdgeType []) = None"
proof -
  obtain config where "coordinator_from_env env parse_addr = Ok config"
    "read_file (cc_schema_path config) = Some (gs_schema_idl S)" "wf_schema (gs_schema S)"
    "edge_def (gs_schema S) (EdgeType []) = None"
    "gs_executor S = \<lparr>sg_rpc = networked_rpc c, sg_hasher = \<lparr>ph_n_partitions = cc_n_partitions config\<rparr>\<rparr>"
    "discovery_new ho parse_addr list_pods (cc_discovery config) = Some (gs_discovery S)"
    by (rule coordinator_main_starts [OF assms(1,2)])
  then show "gs_executor S = \<lparr>sg_rpc = networked_rpc c, sg_hasher = dp_hasher (nt_dep c)\<rparr>"
    "edge_def (gs_schema S) (EdgeType []) = None"
    using assms(3) by (simp_all add: coordinates_def)
qed

end
