(* ===== verification/Viewer.thy ===== *)
theory Viewer
  imports Coordinator_Answers
begin

text \<open>
  \<open>graph-viewer-server/src/main.rs\<close>: the HTTP bridge that runs a query on a coordinator and
  reshapes each row into JSON. Connecting and calling the coordinator is a parameter; the
  static files are left out. The lemmas say that every row of a served cluster takes one of
  the documented shapes.
\<close>

section \<open>JSON\<close>

text \<open>
  \<open>serde_json::Value\<close>: a number is an integer or a finite \<open>f64\<close> (\<open>json!\<close> of another \<open>f64\<close> is
  \<open>null\<close>), \<open>Map\<close> is a \<open>BTreeMap\<close>.
\<close>

datatype Json =
    JNull
  | JBool bool
  | JInteger int
  | JFloat f64
  | JString string
  | JArray "Json list"
  | JObject "(string, Json) fmap"

definition f64_is_finite :: "f64 \<Rightarrow> bool" where
  "f64_is_finite x \<longleftrightarrow> f64_magnitude x < 0x7FF0000000000000"

fun kind_to_json :: "Kind \<Rightarrow> Json" where
  "kind_to_json (Int64Value v) = JInteger (sint v)"
| "kind_to_json (Float64Value v) = (if f64_is_finite v then JFloat v else JNull)"
| "kind_to_json (BoolValue v) = JBool v"
| "kind_to_json (StringValue v) = JString v"
| "kind_to_json (TimestampValue v) = JInteger (sint v)"
| "kind_to_json (BytesValue v) = JArray (map (\<lambda>b. JInteger (uint b)) v)"

definition value_to_json :: "ProtoValue \<Rightarrow> Json" where
  "value_to_json v = (case pv_kind v of Some k \<Rightarrow> kind_to_json k | None \<Rightarrow> JNull)"

definition fields_to_json :: "hash_order \<Rightarrow> (string, ProtoValue) fmap \<Rightarrow> Json" where
  "fields_to_json ho values =
     JObject (hm_collect (map (\<lambda>(name, v). (name, value_to_json v)) (hm_iter ho values)))"

definition node_properties_to_json :: "hash_order \<Rightarrow> NodeProperties \<Rightarrow> Json" where
  "node_properties_to_json ho props =
     JObject (fmap_of_list [(''label'', JString (npr_label props)), (''properties'', fields_to_json ho (npr_fields props))])"

definition edge_properties_to_json :: "hash_order \<Rightarrow> EdgeProperties \<Rightarrow> Json" where
  "edge_properties_to_json ho props =
     JObject (fmap_of_list [(''edge_type'', JString (epr_edge_type props)),
       (''properties'', fields_to_json ho (epr_fields props))])"

section \<open>Rows\<close>

definition row_entry :: "hash_order \<Rightarrow> QueryResult \<Rightarrow> string \<Rightarrow> ProtoValue \<Rightarrow> Json" where
  "row_entry ho result alias v =
     (if CHR ''.'' \<in> set alias then value_to_json v
      else case fmlookup (qr_properties result) alias of
        Some props \<Rightarrow> node_properties_to_json ho props
      | None \<Rightarrow>
          (case fmlookup (qr_edge_properties result) alias of
             Some props \<Rightarrow> edge_properties_to_json ho props
           | None \<Rightarrow> JObject (fmap_of_list [(''node_id'', value_to_json v)])))"

definition row_to_json :: "hash_order \<Rightarrow> QueryResult \<Rightarrow> Json" where
  "row_to_json ho result =
     JObject (hm_collect (map (\<lambda>(alias, v). (alias, row_entry ho result alias v)) (hm_iter ho (qr_projection result))))"

section \<open>The handler\<close>

datatype QueryError = Connect string | Grpc Status

text \<open>A call either fails or yields a stream, each element of which may be an error.\<close>

type_synonym GraphServiceClient = "string \<Rightarrow> (Status, (Status, QueryResult) res list) res"

definition viewer_execute ::
  "hash_order \<Rightarrow> (string \<Rightarrow> (string, GraphServiceClient) res) \<Rightarrow> string \<Rightarrow> string \<Rightarrow> (QueryError, Json list) res" where
  "viewer_execute ho connect addr dsl =
     res_bind (map_err Connect (connect addr)) (\<lambda>client.
     res_bind (map_err Grpc (client dsl)) (\<lambda>stream.
     collect_res (\<lambda>result. res_map (row_to_json ho) (map_err Grpc result)) stream))"

datatype HttpStatus = HTTP_OK | BAD_REQUEST | BAD_GATEWAY | INTERNAL_SERVER_ERROR

definition http_status :: "StatusCode \<Rightarrow> HttpStatus" where
  "http_status code =
     (case code of
        InvalidArgument \<Rightarrow> BAD_REQUEST
      | Unavailable \<Rightarrow> BAD_GATEWAY
      | DeadlineExceeded \<Rightarrow> BAD_GATEWAY
      | _ \<Rightarrow> INTERNAL_SERVER_ERROR)"

definition json_of :: "string \<Rightarrow> Json \<Rightarrow> Json" where
  "json_of key v = JObject (fmap_of_list [(key, v)])"

definition run_query ::
  "hash_order \<Rightarrow> (string \<Rightarrow> (string, GraphServiceClient) res) \<Rightarrow> string \<Rightarrow> string \<Rightarrow> ('e, HttpStatus \<times> Json) res" where
  "run_query ho connect addr dsl =
     (case viewer_execute ho connect addr dsl of
        Ok rows \<Rightarrow> Ok (HTTP_OK, json_of ''rows'' (JArray rows))
      | Err (Connect err) \<Rightarrow>
          Ok (BAD_GATEWAY, json_of ''error'' (JString (''couldn't reach graph-coordinator at '' @ addr @ '': '' @ err)))
      | Err (Grpc status) \<Rightarrow> Ok (http_status (st_code status), json_of ''error'' (JString (st_message status)))
      | Panic m \<Rightarrow> Panic m)"

section \<open>What the maps become\<close>

lemma hm_collect_iter:
  assumes "valid_hash_order ho"
  shows "hm_collect (map (\<lambda>(k, v). (k, f k v)) (hm_iter ho m)) = fmmap_keys f m"
proof (rule fmap_ext)
  fix k
  have keys: "map fst (map (\<lambda>(k, v). (k, f k v)) (hm_iter ho m)) = map fst (hm_iter ho m)"
    by (simp add: comp_def case_prod_beta)
  have "fmlookup (hm_collect (map (\<lambda>(k, v). (k, f k v)) (hm_iter ho m))) k = Some w \<longleftrightarrow>
      fmlookup (fmmap_keys f m) k = Some w" for w
    using hm_collect_Some_iff [of "map (\<lambda>(k, v). (k, f k v)) (hm_iter ho m)" k w, unfolded keys]
      distinct_keys_hm_iter [OF assms, of m] set_hm_iter [OF assms, of m]
    by (auto simp del: fmlookup_hm_collect)
  then show "fmlookup (hm_collect (map (\<lambda>(k, v). (k, f k v)) (hm_iter ho m))) k = fmlookup (fmmap_keys f m) k"
    by (metis not_Some_eq)
qed

lemma row_to_json_entries:
  "valid_hash_order ho \<Longrightarrow> row_to_json ho r = JObject (fmmap_keys (row_entry ho r) (qr_projection r))"
  by (simp add: row_to_json_def hm_collect_iter)

lemma fields_to_json_values:
  "valid_hash_order ho \<Longrightarrow> fields_to_json ho m = JObject (fmmap value_to_json m)"
  by (simp add: fields_to_json_def hm_collect_iter fmap_ext)

section \<open>Bindings of the graph\<close>

definition edge_ids :: "Dataset \<Rightarrow> EdgeId set" where
  "edge_ids D = er_id ` snd ` set (ds_edges D)"

text \<open>Everything a binding of a plan names is in the graph.\<close>

definition names_existing :: "Dataset \<Rightarrow> Binding \<Rightarrow> bool" where
  "names_existing D b \<longleftrightarrow> fmpred (\<lambda>_ n. n \<in> ds_ids D) (b_nodes b) \<and> fmpred (\<lambda>_ i. i \<in> edge_ids D) (b_edges b)"

lemma node_view_existing: "n \<in> ds_ids D \<Longrightarrow> up n \<Longrightarrow> node_view D up n \<noteq> None"
  by (auto simp: node_view_def node_rec_def map_of_eq_None_iff ds_ids_def node_record_entry_def image_iff case_prod_beta)

lemma edge_view_existing: "i \<in> edge_ids D \<Longrightarrow> edge_view D (\<lambda>_. True) i \<noteq> None"
proof -
  assume "i \<in> edge_ids D"
  then obtain ty row where row: "(ty, row) \<in> set (ds_edges D)" "i = er_id row" by (auto simp: edge_ids_def)
  have "edge_source D i \<noteq> None" "edge_rec D i \<noteq> None"
    unfolding edge_source_def edge_rec_def map_of_eq_None_iff edge_record_entry_def
    by (use row in \<open>force simp: image_iff\<close>)+
  then show ?thesis by (auto simp: edge_view_def)
qed

lemma links_existing:
  assumes "wf_dataset D" "(i, n) \<in> set (links D direction want m)"
  shows "n \<in> ds_ids D" "i \<in> edge_ids D"
proof -
  obtain ty row where row: "(ty, row) \<in> set (ds_edges D)" "i = er_id row" "n = edge_far (direction = Outgoing) row"
    using assms(2) by (auto simp: links_def)
  then show "i \<in> edge_ids D" by (force simp: edge_ids_def)
  have "er_src row \<in> ds_ids D" "er_dst row \<in> ds_ids D"
    using assms(1) row(1) by (auto simp: wf_dataset_def list_all_iff)
  then show "n \<in> ds_ids D" by (simp add: row(3) edge_far_def)
qed

lemma walk_ends_existing:
  assumes "wf_dataset D" "m \<in> ds_ids D"
  shows "n \<in> walk_ends D up s d m \<Longrightarrow> n \<in> ds_ids D"
  using assms(2) links_existing(1) [OF assms(1)] by (induction d arbitrary: n) (auto split: if_splits)

lemma spec_hop_existing:
  assumes "wf_dataset D" "names_existing D b" "b' \<in> spec_hop D up s b"
  shows "names_existing D b'"
proof -
  obtain m where m: "fmlookup (b_nodes b) (eh_from_alias s) = Some m" "m \<in> ds_ids D"
    using assms(2,3) by (auto simp: spec_hop_def names_existing_def fmpred_iff split: option.splits)
  have node: "names_existing D (bind_node a n b)" if "n \<in> ds_ids D" for a n
    using assms(2) that by (auto simp: names_existing_def intro: fmpred_upd)
  have edge: "names_existing D (extend_binding s i n b)" if "n \<in> ds_ids D" "i \<in> edge_ids D" for i n
    using assms(2) that
    by (auto simp: names_existing_def extend_binding_def bind_edge_def intro: fmpred_upd split: option.split)
  show ?thesis
    using assms(3) m node edge links_existing [OF assms(1)] walk_ends_existing [OF assms(1) m(2)]
    by (auto simp: spec_hop_def split: if_splits)
qed

lemma spec_start_existing: "b \<in> spec_start D up st \<Longrightarrow> names_existing D b"
  by (cases st) (force simp: names_existing_def start_matches_def labelled_def ds_ids_def fmpred_iff split: if_splits)+

lemma spec_steps_existing:
  assumes "wf_dataset D" "\<forall>b \<in> B. names_existing D b"
  shows "\<forall>b \<in> foldl (spec_step D up rfc) B steps. names_existing D b"
  using assms(2)
proof (induction steps arbitrary: B)
  case (Cons st steps)
  have "\<forall>b \<in> spec_step D up rfc B st. names_existing D b"
    using Cons.prems spec_hop_existing [OF assms(1)] by (cases st) (auto simp: spec_expand_def)
  then show ?case using Cons.IH by simp
qed simp

lemma spec_plan_existing:
  "wf_dataset D \<Longrightarrow> b \<in> spec_plan D up rfc steps \<Longrightarrow> names_existing D b"
  by (cases steps) (use spec_steps_existing spec_start_existing in \<open>auto, blast\<close>)

section \<open>The shapes of a row\<close>

text \<open>
  A key of a row is a returned alias that comes with its record, or a returned property; an alias
  has no dot.
\<close>

definition key_shaped :: "ReturnItem list \<Rightarrow> QueryResult \<Rightarrow> string \<Rightarrow> bool" where
  "key_shaped project row k \<longleftrightarrow>
     (\<exists>item \<in> set project.
       case ri_property item of
         Some property \<Rightarrow> k = ri_alias item @ ''.'' @ property
       | None \<Rightarrow> k = ri_alias item \<and> (k |\<in>| fmdom (qr_properties row) \<or> k |\<in>| fmdom (qr_edge_properties row)))"

definition shaped_row :: "ReturnItem list \<Rightarrow> QueryResult \<Rightarrow> bool" where
  "shaped_row project row \<longleftrightarrow> fmpred (\<lambda>k _. key_shaped project row k) (qr_projection row)"

lemma key_shaped_mono:
  assumes "key_shaped project row k"
    and "fmdom (qr_properties row) |\<subseteq>| fmdom (qr_properties row')"
    and "fmdom (qr_edge_properties row) |\<subseteq>| fmdom (qr_edge_properties row')"
  shows "key_shaped project row' k"
proof -
  obtain item where "item \<in> set project" and item: "case ri_property item of
         Some property \<Rightarrow> k = ri_alias item @ ''.'' @ property
       | None \<Rightarrow> k = ri_alias item \<and> (k |\<in>| fmdom (qr_properties row) \<or> k |\<in>| fmdom (qr_edge_properties row))"
    using assms(1) by (auto simp: key_shaped_def)
  then show ?thesis
    unfolding key_shaped_def
    by (intro bexI [of _ item]) (use assms(2,3) in \<open>auto split: option.splits\<close>)
qed

lemma shaped_row_upd:
  assumes "shaped_row project row" "key_shaped project row' k" "qr_projection row' = fmupd k v (qr_projection row)"
    and "fmdom (qr_properties row) |\<subseteq>| fmdom (qr_properties row')"
    and "fmdom (qr_edge_properties row) |\<subseteq>| fmdom (qr_edge_properties row')"
  shows "shaped_row project row'"
  using assms(1,2) key_shaped_mono [OF _ assms(4,5)]
  by (auto simp: shaped_row_def assms(3) fmpred_iff split: if_splits)

lemma key_shapedI:
  "item \<in> set project \<Longrightarrow> ri_property item = Some property \<Longrightarrow> key_shaped project row (ri_alias item @ ''.'' @ property)"
  "item \<in> set project \<Longrightarrow> ri_property item = None \<Longrightarrow>
   ri_alias item |\<in>| fmdom (qr_properties row) \<or> ri_alias item |\<in>| fmdom (qr_edge_properties row) \<Longrightarrow>
   key_shaped project row (ri_alias item)"
  by (auto simp: key_shaped_def intro!: bexI [of _ item])

lemma spec_item_shaped:
  assumes "names_existing D b" "shaped_row project row" "item \<in> set project"
  shows "shaped_row project (spec_item D (\<lambda>_. True) b row item)"
proof (cases "ri_property item")
  case None
  show ?thesis
  proof (cases "fmlookup (b_edges b) (ri_alias item)")
    case (Some i)
    then have "i \<in> edge_ids D" using assms(1) by (auto simp: names_existing_def fmpred_iff)
    then obtain r where "edge_view D (\<lambda>_. True) i = Some r" using edge_view_existing by blast
    then show ?thesis using None Some
      by (intro shaped_row_upd [OF assms(2) key_shapedI(2) [OF assms(3)], where v = "int64_value (edge_raw i)"])
        (auto simp: spec_item_def)
  next
    case no_edge: None
    show ?thesis
    proof (cases "fmlookup (b_nodes b) (ri_alias item)")
      case (Some n)
      then have "n \<in> ds_ids D" using assms(1) by (auto simp: names_existing_def fmpred_iff)
      then obtain r where r: "node_view D (\<lambda>_. True) n = Some r"
        using node_view_existing [of n D "\<lambda>_. True"] by auto
      have "spec_item D (\<lambda>_. True) b row item =
          row\<lparr>qr_projection := fmupd (ri_alias item) (int64_value (node_raw n)) (qr_projection row),
              qr_properties := fmupd (ri_alias item) (coord_node_record_to_proto r) (qr_properties row)\<rparr>"
        unfolding spec_item_def None no_edge Some by (simp add: r)
      then show ?thesis
        by (intro shaped_row_upd [OF assms(2) key_shapedI(2) [OF assms(3) None], where v = "int64_value (node_raw n)"])
          auto
    qed (use assms(2) None no_edge in \<open>simp add: spec_item_def\<close>)
  qed
next
  case (Some property)
  show ?thesis
  proof (cases "Option.bind (outer_value D (\<lambda>_. True) b \<lparr>pr_alias = ri_alias item, pr_property = property\<rparr>)
      coord_property_value_to_proto")
    case (Some v)
    then show ?thesis using \<open>ri_property item = Some property\<close>
      by (intro shaped_row_upd [OF assms(2) key_shapedI(1) [OF assms(3)], of property _ v]) (auto simp: spec_item_def)
  qed (use assms(2) Some in \<open>simp add: spec_item_def\<close>)
qed

lemma spec_row_shaped:
  assumes "names_existing D b"
  shows "shaped_row project (spec_row D (\<lambda>_. True) project b)"
proof -
  have "shaped_row project (foldl (spec_item D (\<lambda>_. True) b) row items)"
    if "set items \<subseteq> set project" "shaped_row project row" for items row
    using that spec_item_shaped [OF assms] by (induction items arbitrary: row) auto
  then show ?thesis by (simp add: spec_row_def shaped_row_def)
qed

text \<open>So the viewer shows a record for every returned alias and a scalar for every returned property.\<close>

definition documented_shape :: "hash_order \<Rightarrow> QueryResult \<Rightarrow> string \<Rightarrow> ProtoValue \<Rightarrow> Json \<Rightarrow> bool" where
  "documented_shape ho row k v j \<longleftrightarrow>
     (if CHR ''.'' \<in> set k then j = value_to_json v
      else (\<exists>props. fmlookup (qr_properties row) k = Some props \<and> j = node_properties_to_json ho props) \<or>
        (\<exists>props. fmlookup (qr_edge_properties row) k = Some props \<and> j = edge_properties_to_json ho props))"

lemma shaped_row_entries:
  assumes "shaped_row project row" "\<forall>item \<in> set project. CHR ''.'' \<notin> set (ri_alias item)"
    and "fmlookup (qr_projection row) k = Some v"
  shows "documented_shape ho row k v (row_entry ho row k v)"
proof -
  obtain item where "item \<in> set project" and item: "case ri_property item of
         Some property \<Rightarrow> k = ri_alias item @ ''.'' @ property
       | None \<Rightarrow> k = ri_alias item \<and> (k |\<in>| fmdom (qr_properties row) \<or> k |\<in>| fmdom (qr_edge_properties row))"
    using assms(1,3) by (auto simp: shaped_row_def key_shaped_def fmpred_iff)
  show ?thesis
  proof (cases "ri_property item")
    case None
    then have "CHR ''.'' \<notin> set k" "k |\<in>| fmdom (qr_properties row) \<or> k |\<in>| fmdom (qr_edge_properties row)"
      using item assms(2) \<open>item \<in> set project\<close> by auto
    then show ?thesis
      by (cases "fmlookup (qr_properties row) k"; cases "fmlookup (qr_edge_properties row) k")
        (simp_all add: documented_shape_def row_entry_def fmlookup_dom_iff)
  next
    case (Some property)
    then have "CHR ''.'' \<in> set k" using item by simp
    then show ?thesis by (simp add: documented_shape_def row_entry_def)
  qed
qed

section \<open>Answering through the coordinator\<close>

text \<open>
  What a client receives of a handler's answer: the rows as a stream, its status, or, when the
  handler panicked, the status the transport makes of the lost connection.
\<close>

definition streamed :: "Status \<Rightarrow> (Status, QueryResult list) res \<Rightarrow> (Status, (Status, QueryResult) res list) res" where
  "streamed aborted answer =
     (case answer of Ok rows \<Rightarrow> Ok (map Ok rows) | Err st \<Rightarrow> Err st | Panic m \<Rightarrow> Err aborted)"

lemma collect_rows: "collect_res (\<lambda>r. res_map f (map_err g r)) (map Ok xs) = Ok (map f xs)"
  by (induction xs) simp_all

lemma run_query_answers:
  assumes "connect addr = Ok client" "client dsl = streamed aborted answer"
  shows "run_query ho connect addr dsl =
    (case answer of
       Ok rows \<Rightarrow> Ok (HTTP_OK, json_of ''rows'' (JArray (map (row_to_json ho) rows)))
     | Err st \<Rightarrow> Ok (http_status (st_code st), json_of ''error'' (JString (st_message st)))
     | Panic m \<Rightarrow> Ok (http_status (st_code aborted), json_of ''error'' (JString (st_message aborted))))"
  using assms by (cases answer) (simp_all add: run_query_def viewer_execute_def streamed_def collect_rows)

lemma set_limited_ordered: "set (limited limit (ordered_rows D up order_by bs)) \<subseteq> set bs"
  using set_ordered_rows [of D up order_by bs] by (auto simp: limited_def dest: in_set_takeD split: option.splits)

section \<open>The outcome of a text\<close>

text \<open>A text is answered, refused, or makes the coordinator panic; the three exclude each other.\<close>

definition answerable :: "(string \<Rightarrow> (PestError, Rule Pair list) res) \<Rightarrow> Schema \<Rightarrow> string \<Rightarrow> bool" where
  "answerable pest schema dsl \<longleftrightarrow>
     (\<exists>q. parse pest dsl = Ok q \<and> validate q schema = Ok () \<and> plan_supported q)"

definition refused :: "(string \<Rightarrow> (PestError, Rule Pair list) res) \<Rightarrow> Schema \<Rightarrow> string \<Rightarrow> bool" where
  "refused pest schema dsl \<longleftrightarrow>
     (\<exists>e. pest dsl = Err e) \<or> (\<exists>q es. parse pest dsl = Ok q \<and> validate q schema = Err es)"

lemma query_verdict:
  assumes c: "networked_ok c" "gs_discovery S = Ok (dp_map (nt_dep c))"
    "gs_executor S = \<lparr>sg_rpc = networked_rpc c, sg_hasher = dp_hasher (nt_dep c)\<rparr>"
    "edge_def (gs_schema S) (EdgeType []) = None" "pest_conforms pest"
    "\<forall>q. parse pest dsl = Ok q \<longrightarrow> runnable c q"
  shows "case execute_query (dp_hash (nt_dep c)) (dp_order (nt_dep c)) (dp_rfc (nt_dep c)) pest S dsl of
      Ok rows \<Rightarrow> answerable pest (gs_schema S) dsl \<and> \<not> refused pest (gs_schema S) dsl
    | Err st \<Rightarrow> st_code st = InvalidArgument \<and> refused pest (gs_schema S) dsl \<and> \<not> answerable pest (gs_schema S) dsl
    | Panic _ \<Rightarrow> \<not> answerable pest (gs_schema S) dsl \<and> \<not> refused pest (gs_schema S) dsl"
proof -
  note out = query_outcomes [OF c]
  show ?thesis
  proof (rule parse_cases [OF c(5), where dsl = dsl], goal_cases err panics parsed)
    case (parsed t q)
    then show ?case using out by (auto simp: answerable_def refused_def split: res.splits)
  qed (use out in \<open>auto simp: answerable_def refused_def split: res.splits\<close>)
qed

end
