(* ===== verification/Sample_Operations.thy ===== *)
theory Sample_Operations
  imports Sample_Queries Rebalance Running_System Viewer
begin

text \<open>
  Concrete inputs for the properties of placement, configuration and rebuilding: three
  machines, an environment with only the schema's path, a partition node that starts on
  the sample catalog, and a viewer connected to the sample coordinator.
\<close>

section \<open>Machines\<close>

text \<open>A score that ranks \<open>m3\<close> over \<open>m2\<close> over \<open>m1\<close>.\<close>

definition last_byte :: "u8 list \<Rightarrow> u64" where
  "last_byte bytes = ucast (last bytes)"

definition hosted_on :: "string list \<Rightarrow> PartitionMap" where
  "hosted_on machines =
     fmupd (PartitionId 0) (map (\<lambda>m. \<lparr>re_replica = ReplicaId m, re_address = m, re_healthy = True\<rparr>) machines) fmempty"

definition sample_planner :: RendezvousRebalancePlanner where
  "sample_planner = \<lparr>rp_n_partitions = 1, rp_replication_factor = 2\<rparr>"

lemma sample_scores:
  "rendezvous_score last_byte p ''m1'' = 49" "rendezvous_score last_byte p ''m2'' = 50"
  "rendezvous_score last_byte p ''m3'' = 51"
  by (simp_all add: rendezvous_score_def last_byte_def as_bytes_def)

lemma sample_targets:
  "target_machines last_byte p [''m1'', ''m2''] 2 = [''m2'', ''m1'']"
  "target_machines last_byte p [''m1'', ''m2'', ''m3''] 2 = [''m3'', ''m2'']"
  by (simp_all add: target_machines_def sample_scores score_order_def cmp_ord_def)

lemma sample_hosts: "current_machines (hosted_on ms) (PartitionId 0) = fset_of_list ms"
  by (simp add: current_machines_def hosted_on_def comp_def)

lemma sample_planner_sel [simp]:
  "rp_n_partitions sample_planner = 1" "rp_replication_factor sample_planner = 2"
  by (simp_all add: sample_planner_def)

lemma sample_placed:
  "placed_on last_byte sample_planner [''m1'', ''m2''] (hosted_on [''m1'', ''m2''])"
  "placed_on last_byte sample_planner [''m1'', ''m2'', ''m3''] (hosted_on [''m3'', ''m2''])"
  by (auto simp: placed_on_def sample_hosts sample_targets fset_of_list.rep_eq less_one)

section \<open>Environments\<close>

lemma sample_ids: "show_nat 0 = ''0''" "show_nat (Suc 0) = ''1''"
  by (simp_all add: show_nat.simps digit_char_def, code_simp+)

definition sample_env :: Environment where
  "sample_env = [''GRAPH_SCHEMA_PATH'' \<mapsto> ''graph.schema'']"

definition sample_files :: "string \<Rightarrow> string option" where
  "sample_files = [''graph.schema'' \<mapsto> sample_idl]"

definition sample_coordinator :: "GraphServiceImpl option" where
  "sample_coordinator = coordinator_main insertion_order
     (sample_env(''GRAPH_PARTITION_NODE_ADDRS'' \<mapsto> ''0=10.0.0.1:7001,1=10.0.0.2:7001''))
     Some sample_files sample_schema_pest (\<lambda>_ _. None) (networked_rpc sample_networked)"

text \<open>A catalog store: the namespaces created so far.\<close>

definition sample_sql :: "(string set, unit) sql_ops" where
  "sample_sql =
     \<lparr>sql_load = (\<lambda>uri location s. (Ok (), s)), sql_namespace_exists = (\<lambda>c n s. (Ok (n \<in> s), s)),
      sql_create_namespace = (\<lambda>c n s. (Ok (), insert n s))\<rparr>"

definition sample_world :: "Environment \<Rightarrow> (string set, unit, PropertyValue list) NodeWorld" where
  "sample_world env =
     \<lparr>ow_hash = (\<lambda>x. x), ow_env = env, ow_parse_addr = Some, ow_read_file = sample_files,
      ow_current_dir = Ok ''/srv/graph'', ow_schema_pest = sample_schema_pest, ow_sql = sample_sql, ow_store = {},
      ow_tables = (\<lambda>_ _. sample_catalog), ow_arrow = sample_arrow, ow_now = 0\<rparr>"

lemma sample_sql_keeps: "keeps_namespaces sample_sql"
  by (simp add: keeps_namespaces_def sample_sql_def)

definition sample_process_config :: "u64 \<Rightarrow> ProcessConfig" where
  "sample_process_config interval =
     \<lparr>pc_hash = (\<lambda>x. x), pc_schema = sample_schema, pc_n_partitions = 1, pc_partition = PartitionId 0,
      pc_labels = [Label ''Person''], pc_rebuild_interval_secs = interval\<rparr>"

lemma sample_process_config_sel [simp]:
  "pc_hash (sample_process_config i) = (\<lambda>x. x)" "pc_n_partitions (sample_process_config i) = 1"
  "pc_partition (sample_process_config i) = PartitionId 0" "pc_labels (sample_process_config i) = [Label ''Person'']"
  "pc_rebuild_interval_secs (sample_process_config i) = i" "pc_schema (sample_process_config i) = sample_schema"
  by (simp_all add: sample_process_config_def)

abbreviation "sample_reading \<equiv> IcebergCatalogReader sample_arrow sample_catalog"

lemma builder_at_sample: "builder_at (sample_process_config i) sample_reading = sample_builder"
  by (simp add: builder_at_def sample_builder_def)

lemma sample_labels: "map fst (sorted_list_of_fmap (sch_nodes sample_schema)) = [Label ''Person'']"
  by (simp add: sample_schema_def)

lemma sample_catalog_opens:
  "open_sql_catalog sample_sql (Ok ''/srv/graph'') ''./catalog.sqlite'' ''./warehouse'' ''graph'' {} = (Ok (), {''graph''})"
  by (simp add: open_sql_catalog_def absolute_warehouse_rooted has_root_def sample_sql_def)

lemma sample_node_starts:
  "node_main (sample_world sample_env) =
     Some (sample_process_config 30, process_new (sample_process_config 30) built_sample)"
  "node_main (sample_world (sample_env(''GRAPH_REBUILD_INTERVAL_SECS'' \<mapsto> ''0''))) =
     Some (sample_process_config 0, process_new (sample_process_config 0) built_sample)"
proof -
  have "node_process_config (\<lambda>x. x)
     \<lparr>nc_schema_path = ''graph.schema'', nc_warehouse_path = ''./warehouse'', nc_catalog_db_path = ''./catalog.sqlite'',
      nc_namespace = ''graph'', nc_partition_id = 0, nc_n_partitions = 1, nc_rebuild_interval_secs = i,
      nc_listen_addr = ''0.0.0.0:7001'', nc_metrics_listen_addr = ''0.0.0.0:9101''\<rparr> sample_schema =
     sample_process_config i" for i
    by (simp add: node_process_config_def sample_process_config_def sample_labels)
  moreover have "parse_u64 ''0'' = Some 0"
    by (simp add: parse_u64_def parse_unsigned_def is_ascii_digit_def digit_val_def Let_def)
  ultimately show "node_main (sample_world sample_env) =
     Some (sample_process_config 30, process_new (sample_process_config 30) built_sample)"
    "node_main (sample_world (sample_env(''GRAPH_REBUILD_INTERVAL_SECS'' \<mapsto> ''0''))) =
     Some (sample_process_config 0, process_new (sample_process_config 0) built_sample)"
    by (simp_all add: sample_world_def sample_catalog_opens node_main_def node_from_env_def sample_env_def sample_files_def
        parse_env_def env_or_def env_addr_def schema_parse_sample builder_at_sample bootstrap_def build_sample(1) Let_def)
qed

text \<open>A tick over the same tables, and a request that began before it.\<close>

definition sample_started :: "u64 \<Rightarrow> Process" where
  "sample_started i = process_new (sample_process_config i) built_sample"

definition sample_requested :: "u64 \<Rightarrow> Process" where
  "sample_requested i = (sample_started i)\<lparr>pr_requests := fmupd 1 built_sample fmempty\<rparr>"

lemma sample_process_sel [simp]:
  "gh_current (pr_handle (sample_started i)) = built_sample" "pr_requests (sample_started i) = fmempty"
  "pr_loop_alive (sample_started i) \<longleftrightarrow> i \<noteq> 0" "pr_handle (sample_requested i) = pr_handle (sample_started i)"
  "pr_requests (sample_requested i) = fmupd 1 built_sample fmempty"
  by (simp_all add: sample_started_def sample_requested_def process_new_def generation_handle_new_def)

lemma sample_steps:
  "process_step (sample_process_config i) (sample_started i) (Acquire 1) (sample_requested i)"
  "process_step (sample_process_config 30) (sample_requested 30) (Tick 0 sample_reading) (sample_requested 30)"
proof -
  show "process_step (sample_process_config i) (sample_started i) (Acquire 1) (sample_requested i)"
    using process_step.acquires [of 1 "sample_started i" "sample_process_config i"]
    by (simp add: sample_requested_def acquire_def)
  have "rebuild_tick (\<lambda>x. x) 0 sample_builder (PartitionId 0) [Label ''Person''] (pr_handle (sample_requested 30)) =
      Some (pr_handle (sample_requested 30))"
    by (simp add: rebuild_tick_def build_sample(1) swap_def)
  then show "process_step (sample_process_config 30) (sample_requested 30) (Tick 0 sample_reading) (sample_requested 30)"
    using process_step.tick [of "sample_requested 30" "sample_process_config 30" 0 sample_reading
        "pr_handle (sample_requested 30)"]
    by (simp add: builder_at_sample) (simp add: sample_requested_def sample_started_def process_new_def)
qed

lemma sample_runs:
  "runs (sample_process_config i) (sample_started i) [Acquire 1] (sample_requested i)"
  "runs (sample_process_config 30) (sample_started 30) [Acquire 1, Tick 0 sample_reading] (sample_requested 30)"
  by (blast intro: runs.intros sample_steps)+

lemma node_starts_sample: "starts (sample_process_config i) 0 sample_reading (sample_started i)"
  using starts.start [of "sample_process_config i" 0 sample_reading built_sample]
  by (simp add: bootstrap_def builder_at_sample build_sample(1) sample_started_def)

text \<open>The dataset the sample catalog holds.\<close>

definition catalog_data :: Dataset where
  "catalog_data = \<lparr>ds_schema = sample_schema, ds_nodes = [sample_node 2 ''Alice'' 1970], ds_edges = []\<rparr>"

lemma read_sample: "read_tables sample_builder [Label ''Person''] = Ok catalog_data"
  using scan_people scan_knows by (simp add: read_tables_def catalog_data_def)

lemma wf_catalog_data: "wf_dataset catalog_data"
  by (simp add: wf_dataset_def catalog_data_def sample_node_def index_bounds_def ds_ids_def)

section \<open>A running system\<close>

text \<open>
  A coordinator with the default addresses over one partition node, which has been rebuilt once
  since it started.
\<close>

definition sample_placement :: PartitionMap where
  "sample_placement = sd_map (static_discovery insertion_order [(0, ''127.0.0.1:7001'')])"

definition sample_running :: Networked where
  "sample_running =
     \<lparr>nt_dep = \<lparr>dp_hash = (\<lambda>x. x), dp_order = insertion_order, dp_rfc = (\<lambda>_. None),
        dp_hasher = \<lparr>ph_n_partitions = 1\<rparr>, dp_map = sample_placement, dp_data = catalog_data\<rparr>,
      nt_network = \<lparr>nw_connect = (\<lambda>_. Ok \<lparr>psi_generation = acquire (pr_handle (sample_requested 30)),
          psi_partition = PartitionId 0\<rparr>),
        nw_show_status = st_message, nw_aborted = internal ''handler panicked''\<rparr>,
      nt_clients = fmempty\<rparr>"

definition running_service :: GraphServiceImpl where
  "running_service =
     \<lparr>gs_schema = sample_schema, gs_schema_idl = sample_idl, gs_discovery = Ok sample_placement,
      gs_executor = \<lparr>sg_rpc = networked_rpc sample_running, sg_hasher = \<lparr>ph_n_partitions = 1\<rparr>\<rparr>\<rparr>"

lemma sample_running_sel [simp]:
  "dp_hash (nt_dep sample_running) = (\<lambda>x. x)" "dp_order (nt_dep sample_running) = insertion_order"
  "dp_rfc (nt_dep sample_running) = (\<lambda>_. None)" "dp_hasher (nt_dep sample_running) = \<lparr>ph_n_partitions = 1\<rparr>"
  "dp_map (nt_dep sample_running) = sample_placement" "dp_data (nt_dep sample_running) = catalog_data"
  by (simp_all add: sample_running_def)

lemma pick_placement: "pick_replica sample_placement (PartitionId p) \<noteq> None \<longleftrightarrow> p = 0"
  using static_discovery_routes [OF valid_insertion_order, of "[(0, ''127.0.0.1:7001'')]" p]
  by (cases "pick_replica sample_placement (PartitionId p)") (auto simp: sample_placement_def split: if_splits)

lemma sample_running_available: "fully_available (nt_dep sample_running)"
  using pick_placement by (simp add: fully_available_def less_one)

lemma sample_running_ok: "running_cluster sample_running"
proof -
  have "running_replica sample_running p r" if "pick_replica sample_placement p = Some r" for p r
  proof -
    have p: "p = PartitionId 0" using pick_placement [of "partition_raw p"] that by (cases p) auto
    show ?thesis
      unfolding p
      by (rule running_replicaI [OF _ node_starts_sample sample_runs(2)])
        (simp_all add: configured_for_def run_sources_def shows_tables_def builder_at_sample read_sample
          rpc_client_def sample_running_def)
  qed
  then show ?thesis by (simp add: running_cluster_def wf_catalog_data)
qed

lemma running_service_starts:
  "coordinator_main insertion_order sample_env Some sample_files sample_schema_pest (\<lambda>_ _. None)
     (networked_rpc sample_running) = Some running_service"
proof -
  have "parse_static_partition_addrs Some ''0=127.0.0.1:7001'' = Ok [(0, ''127.0.0.1:7001'')]"
    using static_addrs_roundtrip [of "[(0, ''127.0.0.1:7001'')]" Some]
    by (simp add: show_partition_addr_def sample_ids)
  then show ?thesis
    by (simp add: coordinator_main_def coordinator_from_env_def sample_env_def sample_files_def
        parse_env_def env_or_def env_addr_def discovery_from_env_def schema_parse_sample discovery_new_def
        running_service_def sample_placement_def static_current_map_def)
qed

lemma running_service_facts:
  "coordinates sample_running running_service" "gs_schema running_service = sample_schema"
  by (simp_all add: coordinates_def running_service_def)

text \<open>Alice has no friends in the catalog.\<close>

lemma no_friends: "spec_plan catalog_data up rfc (qp_steps friends_plan) = {}"
proof -
  have l: "links catalog_data d e n = []" for d e n
    by (cases d) (simp_all add: links_def catalog_data_def)
  have "walk_ends catalog_data up st d m = {}" if "1 \<le> d" for st d m
    using that by (cases d) (simp_all add: l)
  then have "spec_hop catalog_data up st b = {}" if "1 \<le> unat (hr_min (eh_hops st))" for st b
    using that unfolding spec_hop_def by (auto simp: l split: option.split)
  then show ?thesis by (simp add: friends_plan_def spec_expand_def)
qed

section \<open>A viewer\<close>

text \<open>A connection to the sample coordinator.\<close>

definition sample_connect :: "string \<Rightarrow> (string, GraphServiceClient) res" where
  "sample_connect addr = Ok (\<lambda>dsl. streamed (internal ''aborted'')
     (execute_query (\<lambda>x. x) insertion_order (\<lambda>_. None) sample_pest sample_service dsl))"

end
