(* ===== verification/Local_Pipeline.thy ===== *)
theory Local_Pipeline
  imports Built_Index
begin

text \<open>
  A plan run in one process against a single generation, as \<open>examples/demo\<close> does: no partitions,
  no coordinator, hop ranges walked and filters answered by the index itself. The lemmas say when
  this gives the meaning of the plan, the one the distributed execution computes.
\<close>

section \<open>The run\<close>

fun run_hops ::
  "hash_order \<Rightarrow> IndexGeneration \<Rightarrow> PlanStep list \<Rightarrow> Binding list \<Rightarrow> (ExecutionError, Binding list) res" where
  "run_hops ho g [] bindings = Ok bindings"
| "run_hops ho g (step # steps) bindings =
     res_bind (expand_hop ho g step bindings) (\<lambda>frontier. run_hops ho g steps (fr_local frontier))"

definition run_steps :: "hash_order \<Rightarrow> IndexGeneration \<Rightarrow> PlanStep list \<Rightarrow> (ExecutionError, Binding list) res" where
  "run_steps ho g steps =
     (case steps of
        [] \<Rightarrow> Panic ''index out of bounds: the len is 0 but the index is 0''
      | step # steps \<Rightarrow> res_bind (resolve_start g step) (run_hops ho g steps))"

section \<open>One partition hands nothing over\<close>

lemma homed_one: "homed h 1 (PartitionId 0) n"
  by (simp add: homed_def)

definition all_local :: "(NodeId \<Rightarrow> AdjacencyEntry list) \<Rightarrow> bool" where
  "all_local adj \<longleftrightarrow> (\<forall>n. \<forall>e \<in> set (adj n). ae_dst_remote e = None)"

lemma all_local_one: "all_local (built_adj h 1 D (PartitionId 0) direction)"
  by (auto simp: all_local_def built_adj_def adjacency_entry_def Let_def)

lemma expand_entry_remote:
  "ae_dst_remote e = None \<Longrightarrow> hs_remote (snd (expand_entry s i b (nx, st) e)) = hs_remote st"
  by (auto simp: expand_entry_def split: option.split)

lemma expand_entries_remote:
  "\<forall>e \<in> set es. ae_dst_remote e = None \<Longrightarrow>
   hs_remote (snd (foldl (expand_entry s i b) acc es)) = hs_remote (snd acc)"
  by (induction es arbitrary: acc) (auto simp: expand_entry_remote split: prod.split)

lemma accept_nodes_remote: "hs_remote (foldl (accept_node s i b) st ns) = hs_remote st"
  by (induction ns arbitrary: st) (simp_all add: accept_node_def)

lemma expand_nodes_remote:
  assumes "adjacency t (eh_direction s) adj" "all_local adj"
    and "fold_res (expand_node t s i b) acc ns = Ok acc'"
  shows "hs_remote (snd acc') = hs_remote (snd acc)"
proof (rule fold_res_invariant [OF assms(3)])
  fix a m a' assume "hs_remote (snd a) = hs_remote (snd acc)" "expand_node t s i b a m = Ok a'"
  moreover have "directed_neighbors t (eh_direction s) m = Ok (adj m)" "\<forall>e \<in> set (adj m). ae_dst_remote e = None"
    using assms(1,2) by (auto simp: adjacency_def all_local_def)
  ultimately show "hs_remote (snd a') = hs_remote (snd acc)"
    using expand_entries_remote [of "adj m" s i b a] by (simp add: expand_node_def)
qed simp

lemma expand_depths_remote:
  assumes "adjacency t (eh_direction s) adj" "all_local adj"
    and "expand_depths ho t s i b current st ds = Ok st'"
  shows "hs_remote st' = hs_remote st"
  using assms(3)
proof (induction ds arbitrary: current st)
  case (Cons d ds)
  then obtain nx st1 where n: "fold_res (expand_node t s i b) ({||}, st) (hs_iter ho current) = Ok (nx, st1)"
    by (auto simp: res_bind_Ok_iff)
  have "hs_remote st1 = hs_remote st" using expand_nodes_remote [OF assms(1,2) n] by simp
  with Cons n show ?case
    by (auto simp: Let_def accept_nodes_remote split: if_splits)
qed simp

lemma expand_bindings_remote:
  assumes "adjacency t (eh_direction s) adj" "all_local adj"
    and "fold_res (expand_binding ho t s) st ibs = Ok st'"
  shows "hs_remote st' = hs_remote st"
  by (rule fold_res_invariant [OF assms(3)])
    (use expand_depths_remote [OF assms(1,2)] in \<open>auto simp: expand_binding_def res_bind_Ok_iff split: prod.splits\<close>)

section \<open>Walks\<close>

text \<open>Over the index of a single partition, a level of the walk is a level of the graph's walk.\<close>

lemma one_entry:
  assumes "wf_dataset D" "(ty, row) \<in> set (ds_edges D)"
  shows "ae_dst_local (adjacency_entry h 1 (PartitionId 0) (local_ids h 1 (PartitionId 0) (ds_nodes D)) out (ty, row)) =
    Some (edge_far out row)"
  using wf_dataset_endpoints [OF assms]
  by (simp add: adjacency_entry_def Let_def local_ids_ds homed_one edge_far_def)

lemma hop_set_one:
  assumes "wf_dataset D"
  shows "hop_set s (built_adj h 1 D (PartitionId 0) (eh_direction s)) N =
    (\<Union>m \<in> N. snd ` set (links D (eh_direction s) (eh_edge_type s) m))"
proof -
  have "(\<Union>e \<in> set (built_adj h 1 D (PartitionId 0) (eh_direction s) m). local_targets s e) =
      snd ` set (links D (eh_direction s) (eh_edge_type s) m)" for m
    unfolding built_adj_at [OF assms homed_one] set_links
    by (force simp: local_targets_def one_entry [OF assms])
  then show ?thesis by (simp add: hop_set_def)
qed

lemma level_output_one:
  assumes "wf_dataset D"
  shows "level_output s (built_adj h 1 D (PartitionId 0) (eh_direction s)) b N =
    (if eh_edge_alias s = None then {}
     else \<Union>m \<in> N. (\<lambda>(i, n). extend_binding s i n b) ` set (links D (eh_direction s) (eh_edge_type s) m))"
proof -
  have "(\<Union>e \<in> set (built_adj h 1 D (PartitionId 0) (eh_direction s) m). entry_output s b e) =
      (if eh_edge_alias s = None then {}
       else (\<lambda>(i, n). extend_binding s i n b) ` set (links D (eh_direction s) (eh_edge_type s) m))" for m
    unfolding built_adj_at [OF assms homed_one] set_links
    by (force simp: entry_output_def one_entry [OF assms] entry_target_def)
  then show ?thesis by (simp add: level_output_def)
qed

lemma hop_output_walks:
  assumes "wf_dataset D" "eh_edge_alias s = None"
  shows "hop_output s (built_adj h 1 D (PartitionId 0) (eh_direction s)) b (walk_ends D (\<lambda>_. True) s d m) [Suc d..<k] =
    (\<Union>j \<in> {j. d < j \<and> j < k \<and> unat (hr_min (eh_hops s)) \<le> j}.
      (\<lambda>n. bind_node (eh_to_alias s) n b) ` walk_ends D (\<lambda>_. True) s j m)"
proof (induction "k - Suc d" arbitrary: d)
  case 0
  then show ?case by (auto simp: )
next
  case (Suc x)
  have "hop_set s (built_adj h 1 D (PartitionId 0) (eh_direction s)) (walk_ends D (\<lambda>_. True) s d m) =
      walk_ends D (\<lambda>_. True) s (Suc d) m"
    by (simp add: hop_set_one [OF assms(1)])
  moreover have "[Suc d..<k] = Suc d # [Suc (Suc d)..<k]" using Suc.hyps(2) by (simp add: upt_conv_Cons)
  moreover have "x = k - Suc (Suc d)" using Suc.hyps(2) by simp
  moreover have "{j. d < j \<and> j < k \<and> unat (hr_min (eh_hops s)) \<le> j} =
      {j. Suc d < j \<and> j < k \<and> unat (hr_min (eh_hops s)) \<le> j} \<union>
      (if unat (hr_min (eh_hops s)) \<le> Suc d then {Suc d} else {})"
    using Suc.hyps(2) by (auto simp: less_Suc_eq_le Suc_le_eq)
  ultimately show ?case
    using Suc.hyps(1) [of "Suc d"] assms(2)
    by (simp add: level_output_one [OF assms(1)] accepted_output_def del: walk_ends.simps)
      (auto simp del: walk_ends.simps)
qed

lemma step_output_one:
  assumes "wf_dataset D" "eh_edge_alias s \<noteq> None \<longrightarrow> eh_hops s = \<lparr>hr_min = 1, hr_max = 1\<rparr>"
    and "fmlookup (b_nodes b) (eh_from_alias s) = Some m"
  shows "step_output s (built_adj h 1 D (PartitionId 0) (eh_direction s)) b = spec_hop D (\<lambda>_. True) s b"
proof (cases "eh_edge_alias s")
  case None
  have "{j. 0 < j \<and> j < Suc (unat (hr_max (eh_hops s))) \<and> unat (hr_min (eh_hops s)) \<le> j} =
      set (filter (\<lambda>d. unat (hr_min (eh_hops s)) \<le> d) (hop_depths (eh_hops s)))"
    by (auto simp: hop_depths_def)
  then show ?thesis
    using hop_output_walks [OF assms(1) None, of h b 0 m "Suc (unat (hr_max (eh_hops s)))"]
    by (simp add: step_output_def spec_hop_def assms(3) None hop_depths_def)
next
  case (Some ea)
  then have "hop_depths (eh_hops s) = [1]" using assms(2) by (simp add: hop_depths_def)
  then show ?thesis
    by (simp add: step_output_def spec_hop_def assms(3) Some level_output_one [OF assms(1)] accepted_output_def)
qed

section \<open>Filters\<close>

text \<open>
  A filter the index can answer: its property is indexed, only nodes of the target's label hold the property,
  and their values are of the literal's type; \<open><>\<close> is not supported.
\<close>

fun same_type :: "PropertyValue \<Rightarrow> Literal \<Rightarrow> bool" where
  "same_type (VInt64 _) (LInt64 _) = True"
| "same_type (VBool _) (LBool _) = True"
| "same_type (VString _) (LString _) = True"
| "same_type _ _ = False"

fun float_valued :: "Literal \<Rightarrow> bool" where
  "float_valued (LFloat64 _) = True"
| "float_valued _ = False"

definition index_answers :: "Dataset \<Rightarrow> string \<Rightarrow> PropertyFilter \<Rightarrow> bool" where
  "index_answers D l f \<longleftrightarrow>
     indexed_property (ds_schema D) (Label l) (pf_property f) \<and> pf_op f \<noteq> Ne \<and>
     \<not> float_valued (pf_value f) \<and>
     list_all (\<lambda>(lbl, row). case fmlookup (nr_properties row) (pf_property f) of
         Some v \<Rightarrow> lbl = Label l \<and> same_type v (pf_value f) | None \<Rightarrow> True) (ds_nodes D)"

text \<open>On values of one type, the order of the index keys is the order of the filter.\<close>

definition op_bounds :: "ComparisonOp \<Rightarrow> PropertyKey \<Rightarrow> PropertyKey \<Rightarrow> bool" where
  "op_bounds op key k \<longleftrightarrow>
     (case op of Eq \<Rightarrow> k = key | Gt \<Rightarrow> key < k | Gte \<Rightarrow> key \<le> k | Lt \<Rightarrow> k < key | Lte \<Rightarrow> k \<le> key | Ne \<Rightarrow> False)"

lemma same_type_order:
  assumes "same_type v lit" "literal_to_property_key lit = (Ok key :: ('e, _) res)" "op \<noteq> Ne"
  shows "literal_matches rfc v op lit \<longleftrightarrow> (\<exists>k. property_key v = Some k \<and> op_bounds op key k)"
  using assms
  by (cases "(v, lit)" rule: same_type.cases; cases op)
    (auto simp: literal_matches_def literal_ordering_def op_bounds_def less_PropertyKey_def less_eq_PropertyKey_def
      i64_cmp_def cmp_ord_def less_prod_def less_eq_prod_def split: if_splits intro: signed_word_eqI)

lemma property_filter_matches_index:
  assumes "literal_to_property_key (pf_value f) = (Ok key :: (ExecutionError, _) res)" "pf_op f \<noteq> Ne"
  obtains M where "property_filter_matches idx l f = Ok M"
    "\<And>n. n \<in> M \<longleftrightarrow> (\<exists>k. op_bounds (pf_op f) key k \<and> n \<in> set (lookup_eq idx l (pf_property f) k))"
proof -
  have range: "\<exists>ids. lookup_range idx l p lo hi = (Ok ids :: (ExecutionError, _) res)"
    if "lo = Unbounded \<or> hi = Unbounded" for p lo hi
    using that by (cases lo; cases hi) (auto simp: lookup_range_def btree_range_def split: option.split)
  show thesis
  proof (cases "pf_op f")
    case Eq
    with assms that [of "set (lookup_eq idx l (pf_property f) key)"] show thesis
      by (simp add: property_filter_matches_def op_bounds_def)
  next
    case Lt
    obtain ids where "lookup_range idx l (pf_property f) Unbounded (Excluded key) = (Ok ids :: (ExecutionError, _) res)"
      using range by blast
    with Lt assms that [of "set ids"] show thesis
      by (simp add: property_filter_matches_def op_bounds_def lookup_range_exact)
  next
    case Lte
    obtain ids where "lookup_range idx l (pf_property f) Unbounded (Included key) = (Ok ids :: (ExecutionError, _) res)"
      using range by blast
    with Lte assms that [of "set ids"] show thesis
      by (simp add: property_filter_matches_def op_bounds_def lookup_range_exact)
  next
    case Gt
    obtain ids where "lookup_range idx l (pf_property f) (Excluded key) Unbounded = (Ok ids :: (ExecutionError, _) res)"
      using range by blast
    with Gt assms that [of "set ids"] show thesis
      by (simp add: property_filter_matches_def op_bounds_def lookup_range_exact)
  next
    case Gte
    obtain ids where "lookup_range idx l (pf_property f) (Included key) Unbounded = (Ok ids :: (ExecutionError, _) res)"
      using range by blast
    with Gte assms that [of "set ids"] show thesis
      by (simp add: property_filter_matches_def op_bounds_def lookup_range_exact)
  next
    case Ne
    with assms show thesis by simp
  qed
qed

text \<open>So the nodes the index gives for a filter are those whose record passes it.\<close>

lemma node_rec_row:
  assumes "wf_dataset D"
  shows "node_rec D n = Some r \<longleftrightarrow> (\<exists>lbl row. (lbl, row) \<in> set (ds_nodes D) \<and> nr_id row = n \<and>
    r = \<lparr>nrec_label = lbl, nrec_properties = nr_properties row\<rparr>)"
proof -
  have "distinct (map fst (map node_record_entry (ds_nodes D)))"
    using assms by (simp add: wf_dataset_def node_record_entry_def o_def)
  then show ?thesis
    unfolding node_rec_def by (subst map_of_eq_Some_iff, simp, force simp: node_record_entry_def)
qed

lemma start_matches_row:
  "n \<in> start_matches D l p k \<longleftrightarrow> indexed_property (ds_schema D) (Label l) p \<and>
    (\<exists>row. (Label l, row) \<in> set (ds_nodes D) \<and> nr_id row = n \<and> row_has_key row p k)"
  by (force simp: start_matches_def)

definition record_passes :: "Dataset \<Rightarrow> (string \<Rightarrow> i64 option) \<Rightarrow> PropertyFilter \<Rightarrow> NodeId \<Rightarrow> bool" where
  "record_passes D rfc f n \<longleftrightarrow>
     (case node_rec D n of Some r \<Rightarrow> evaluate_filter rfc (nrec_properties r) f | None \<Rightarrow> False)"

lemma record_passes_row:
  assumes "wf_dataset D"
  shows "record_passes D rfc f n \<longleftrightarrow>
    (\<exists>lbl row. (lbl, row) \<in> set (ds_nodes D) \<and> nr_id row = n \<and> evaluate_filter rfc (nr_properties row) f)"
proof -
  have "record_passes D rfc f n \<longleftrightarrow> (\<exists>r. node_rec D n = Some r \<and> evaluate_filter rfc (nrec_properties r) f)"
    by (auto simp: record_passes_def split: option.split)
  also have "\<dots> \<longleftrightarrow> (\<exists>lbl row. (lbl, row) \<in> set (ds_nodes D) \<and> nr_id row = n \<and>
      evaluate_filter rfc (nrec_properties \<lparr>nrec_label = lbl, nrec_properties = nr_properties row\<rparr>) f)"
    unfolding node_rec_row [OF assms] by blast
  finally show ?thesis by simp
qed

lemma filter_matches_built:
  assumes "wf_dataset D" "built_for h 1 D (PartitionId 0) g" "index_answers D l f"
  obtains M where "property_filter_matches (ig_properties g) l f = Ok M" "\<And>n. n \<in> M \<longleftrightarrow> record_passes D rfc f n"
proof -
  obtain key where key: "literal_to_property_key (pf_value f) = (Ok key :: (ExecutionError, _) res)"
    using assms(3) by (cases "pf_value f") (auto simp: index_answers_def)
  have op: "pf_op f \<noteq> Ne" using assms(3) by (simp add: index_answers_def)
  obtain M where M: "property_filter_matches (ig_properties g) l f = Ok M"
    "\<And>n. n \<in> M \<longleftrightarrow> (\<exists>k. op_bounds (pf_op f) key k \<and> n \<in> set (lookup_eq (ig_properties g) l (pf_property f) k))"
    by (rule property_filter_matches_index [OF key op, where idx = "ig_properties g" and l = l])
      (rule that, assumption, blast)
  have row: "(\<exists>k. op_bounds (pf_op f) key k \<and> row_has_key row (pf_property f) k \<and> lbl = Label l) \<longleftrightarrow>
      evaluate_filter rfc (nr_properties row) f" if "(lbl, row) \<in> set (ds_nodes D)" for lbl row
  proof (cases "fmlookup (nr_properties row) (pf_property f)")
    case (Some v)
    then have "lbl = Label l" "same_type v (pf_value f)"
      using assms(3) that by (auto simp: index_answers_def list_all_iff split: option.splits)
    with same_type_order [OF this(2) key op, of rfc] Some show ?thesis
      by (auto simp: row_has_key_def evaluate_filter_def)
  qed (simp add: row_has_key_def evaluate_filter_def)
  have "n \<in> M \<longleftrightarrow> record_passes D rfc f n" for n
  proof -
    have "n \<in> M \<longleftrightarrow> (\<exists>lbl row. (lbl, row) \<in> set (ds_nodes D) \<and> nr_id row = n \<and>
        (\<exists>k. op_bounds (pf_op f) key k \<and> row_has_key row (pf_property f) k \<and> lbl = Label l))"
      using assms(3) by (auto simp: M(2) lookup_eq_built [OF _ assms(1,2)] homed_one start_matches_row index_answers_def)
    also have "\<dots> \<longleftrightarrow> (\<exists>lbl row. (lbl, row) \<in> set (ds_nodes D) \<and> nr_id row = n \<and> evaluate_filter rfc (nr_properties row) f)"
      using row by blast
    also have "\<dots> \<longleftrightarrow> record_passes D rfc f n"
      by (rule record_passes_row [OF assms(1), symmetric])
    finally show ?thesis .
  qed
  with M(1) that show thesis by blast
qed

definition index_step :: "Dataset \<Rightarrow> ExpandHopStep \<Rightarrow> bool" where
  "index_step D s \<longleftrightarrow>
     eh_filters s = [] \<or>
     (case eh_to_label s of Some l \<Rightarrow> list_all (index_answers D l) (eh_filters s) | None \<Rightarrow> False)"

lemma fold_filter_matches:
  assumes "wf_dataset D" "built_for h 1 D (PartitionId 0) g" "list_all (index_answers D l) fs"
  shows "\<exists>A. fold_res (\<lambda>allowed flt. res_map (\<lambda>ms. Some (case allowed of None \<Rightarrow> ms | Some prev \<Rightarrow> prev \<inter> ms))
        (property_filter_matches (ig_properties g) l flt)) allowed fs = Ok A \<and>
    (\<forall>n. (case A of Some a \<Rightarrow> n \<in> a | None \<Rightarrow> True) \<longleftrightarrow>
       (case allowed of Some a \<Rightarrow> n \<in> a | None \<Rightarrow> True) \<and> list_all (\<lambda>f. record_passes D rfc f n) fs) \<and>
    (A = None \<longleftrightarrow> allowed = None \<and> fs = [])"
  using assms(3)
proof (induction fs arbitrary: allowed)
  case (Cons f fs)
  obtain M where M: "property_filter_matches (ig_properties g) l f = Ok M" "\<And>n. n \<in> M \<longleftrightarrow> record_passes D rfc f n"
    using filter_matches_built [OF assms(1,2), of l f] Cons.prems by auto
  let ?a = "Some (case allowed of None \<Rightarrow> M | Some prev \<Rightarrow> prev \<inter> M)"
  obtain A where "fold_res (\<lambda>allowed flt. res_map (\<lambda>ms. Some (case allowed of None \<Rightarrow> ms | Some prev \<Rightarrow> prev \<inter> ms))
        (property_filter_matches (ig_properties g) l flt)) ?a fs = Ok A"
    "\<forall>n. (case A of Some a \<Rightarrow> n \<in> a | None \<Rightarrow> True) \<longleftrightarrow>
       (case ?a of Some a \<Rightarrow> n \<in> a | None \<Rightarrow> True) \<and> list_all (\<lambda>f. record_passes D rfc f n) fs" "A \<noteq> None"
    using Cons.IH [of ?a] Cons.prems by auto
  with M show ?case by (auto split: option.splits)
qed (auto split: option.split)

lemma apply_filters_built:
  assumes "wf_dataset D" "built_for h 1 D (PartitionId 0) g" "index_step D s"
    and "\<forall>b \<in> set bs. fmlookup (b_nodes b) (eh_to_alias s) \<noteq> None"
  shows "apply_filters (ig_properties g) (eh_to_label s) (eh_to_alias s) (eh_filters s) bs =
    Ok (filter (spec_passes D (\<lambda>_. True) rfc s) bs)"
proof (cases "eh_filters s = []")
  case False
  then obtain l where l: "eh_to_label s = Some l" "list_all (index_answers D l) (eh_filters s)"
    using assms(3) by (auto simp: index_step_def split: option.splits)
  obtain A where A: "fold_res (\<lambda>allowed flt. res_map (\<lambda>ms. Some (case allowed of None \<Rightarrow> ms | Some prev \<Rightarrow> prev \<inter> ms))
        (property_filter_matches (ig_properties g) l flt)) None (eh_filters s) = Ok (Some A)"
    "\<And>n. n \<in> A \<longleftrightarrow> list_all (\<lambda>f. record_passes D rfc f n) (eh_filters s)"
    using fold_filter_matches [OF assms(1,2) l(2), of None rfc] False by auto
  have pass: "spec_passes D (\<lambda>_. True) rfc s b \<longleftrightarrow> n \<in> A" if "fmlookup (b_nodes b) (eh_to_alias s) = Some n" for b n
    using that False by (cases "node_rec D n") (auto simp: spec_passes_def A(2) record_passes_def neq_Nil_conv list_all_iff)
  show ?thesis
    using assms(4) False
    by (auto simp: apply_filters_def l(1) A(1) pass intro!: retain_res_Ok_all)
qed (simp add: apply_filters_def spec_passes_def)

section \<open>The run means the plan\<close>

definition index_plan :: "Dataset \<Rightarrow> PlanStep list \<Rightarrow> bool" where
  "index_plan D steps \<longleftrightarrow>
     (case steps of
        ResolveStart _ _ _ _ # hops \<Rightarrow>
          list_all (\<lambda>step. case step of ExpandHop s \<Rightarrow> index_step D s | _ \<Rightarrow> False) hops
      | _ \<Rightarrow> False)"

lemma expand_hop_one:
  assumes "wf_dataset D" "built_for h 1 D (PartitionId 0) g" "valid_hash_order ho" "index_step D s"
    and "eh_edge_alias s \<noteq> None \<longrightarrow> eh_hops s = \<lparr>hr_min = 1, hr_max = 1\<rparr>"
    and "\<forall>b \<in> set bs. fmlookup (b_nodes b) (eh_from_alias s) \<noteq> None"
  shows "\<exists>fr. expand_hop ho g (ExpandHop s) bs = Ok fr \<and> set (fr_local fr) = spec_expand D (\<lambda>_. True) rfc s (set bs)"
proof -
  let ?adj = "built_adj h 1 D (PartitionId 0) (eh_direction s)"
  have adj: "adjacency (ig_topology g) (eh_direction s) ?adj" by (rule built_for_facts(1) [OF _ assms(1,2)]) simp
  have "seen_below 0 empty_hop_state" by (simp add: seen_below_def empty_hop_state_def)
  then obtain st where st: "fold_res (expand_binding ho (ig_topology g) s) empty_hop_state (enumerate 0 bs) = Ok st"
    "emitted st = emitted empty_hop_state \<union> (\<Union>b \<in> set bs. step_output s ?adj b)"
    using expand_bindings [OF adj assms(3,6)] by blast
  have "hs_remote st = []"
    using expand_bindings_remote [OF adj all_local_one st(1)] by (simp add: empty_hop_state_def)
  moreover have "(\<Union>b \<in> set bs. step_output s ?adj b) = (\<Union>b \<in> set bs. spec_hop D (\<lambda>_. True) s b)"
    using step_output_one [OF assms(1,5)] assms(6) by (intro SUP_cong) auto
  ultimately have out: "set (hs_local st) = (\<Union>b \<in> set bs. spec_hop D (\<lambda>_. True) s b)"
    using st(2) by (simp add: emitted_def empty_hop_state_def)
  then have "\<forall>b \<in> set (hs_local st). fmlookup (b_nodes b) (eh_to_alias s) \<noteq> None"
    by (auto simp: spec_hop_def extend_binding_def bind_edge_def split: option.splits if_splits)
  from apply_filters_built [OF assms(1,2,4) this, of rfc] show ?thesis
    using st(1) out by (auto simp: expand_hop_def spec_expand_def)
qed

lemma run_hops_means:
  assumes "wf_dataset D" "built_for h 1 D (PartitionId 0) g" "valid_hash_order ho"
    and "list_all (\<lambda>step. case step of ExpandHop s \<Rightarrow> index_step D s | _ \<Rightarrow> False) steps"
    and "wf_steps N E steps" "\<forall>b \<in> set bs. scoped N E b"
  shows "\<exists>out. run_hops ho g steps bs = Ok out \<and> set out = foldl (spec_step D (\<lambda>_. True) rfc) (set bs) steps"
  using assms(4-6)
proof (induction steps arbitrary: bs N E)
  case (Cons step steps)
  then obtain s where s: "step = ExpandHop s" "index_step D s"
    by (cases step) auto
  with Cons.prems have wf: "eh_from_alias s \<in> N" "eh_edge_alias s \<noteq> None \<longrightarrow> eh_hops s = \<lparr>hr_min = 1, hr_max = 1\<rparr>"
    "wf_steps (insert (eh_to_alias s) N) (E \<union> set_option (eh_edge_alias s)) steps" by simp_all
  have "\<forall>b \<in> set bs. fmlookup (b_nodes b) (eh_from_alias s) \<noteq> None"
    using Cons.prems(3) wf(1) scoped_node by fastforce
  then obtain fr where fr: "expand_hop ho g (ExpandHop s) bs = Ok fr"
    "set (fr_local fr) = spec_expand D (\<lambda>_. True) rfc s (set bs)"
    using expand_hop_one [OF assms(1-3) s(2) wf(2)] by blast
  have "\<forall>b \<in> set (fr_local fr). scoped (insert (eh_to_alias s) N) (E \<union> set_option (eh_edge_alias s)) b"
    unfolding fr(2) using scoped_expand [OF Cons.prems(3)] by blast
  from Cons.IH [OF _ wf(3) this] Cons.prems(1) fr s(1) show ?case by simp
qed simp

lemma run_steps_means:
  assumes "wf_dataset D" "built_for h 1 D (PartitionId 0) g" "valid_hash_order ho" "index_plan D steps" "wf_plan steps"
  shows "\<exists>out. run_steps ho g steps = Ok out \<and> set out = spec_plan D (\<lambda>_. True) rfc steps"
proof -
  obtain a l k v hops where steps: "steps = ResolveStart a l k v # hops"
    "list_all (\<lambda>step. case step of ExpandHop s \<Rightarrow> index_step D s | _ \<Rightarrow> False) hops"
    using assms(4) by (auto simp: index_plan_def split: list.splits PlanStep.splits)
  obtain bs where bs: "resolve_start g (ResolveStart a l k v) = Ok bs"
    "set bs = spec_start D (\<lambda>_. True) (ResolveStart a l k v)"
    using resolve_start_answer [OF _ assms(1,2), of a l k v] by (auto simp: homed_one)
  have "\<forall>b \<in> set bs. scoped {a} {} b" unfolding bs(2) using scoped_start by fastforce
  with run_hops_means [OF assms(1-3) steps(2), of "{a}" "{}" bs rfc] assms(5) steps(1) bs show ?thesis
    by (simp add: run_steps_def)
qed

end
