(* ===== verification/Iceberg_Tables.thy ===== *)
theory Iceberg_Tables
  imports Rebuild
begin

text \<open>
  How the example programs write tables (\<open>write_table\<close>, \<open>edge_schema\<close> and \<open>edge_batch\<close> of
  \<open>examples/demo/src/main.rs\<close>, which \<open>examples/ingest-cloud-cost/src/main.rs\<close> repeats), and what the index
  builder reads back from them. The \<open>iceberg\<close> and \<open>arrow\<close> crates are parameters; what is assumed of them is
  that a table that was written is read back.
\<close>

section \<open>Writing tables\<close>

text \<open>
  What the code calls of the crates: making an array of a column, a batch of a schema's columns, creating
  a table, and appending a batch as one data file.
\<close>

datatype PrimitiveType = PLong | PString | PBoolean | PTimestamp

type_synonym NestedField = "nat \<times> string \<times> PrimitiveType"

record ('s, 'arr) IcebergCrate =
  ic_int64_array :: "i64 list \<Rightarrow> 'arr"
  ic_string_array :: "string list \<Rightarrow> 'arr"
  ic_boolean_array :: "bool list \<Rightarrow> 'arr"
  ic_timestamp_array :: "i64 list \<Rightarrow> 'arr"
  ic_try_new :: "NestedField list \<Rightarrow> 'arr list \<Rightarrow> (string, 'arr RecordBatch) res"
  ic_create_table :: "string \<Rightarrow> NestedField list \<Rightarrow> 's \<Rightarrow> (string, 's) res"
  ic_append :: "string \<Rightarrow> 'arr RecordBatch \<Rightarrow> 's \<Rightarrow> (string, 's) res"
  ic_tables :: "'s \<Rightarrow> 'arr catalog_ops"
  ic_arrow :: "'arr arrow_ops"

definition write_table ::
  "('s, 'arr) IcebergCrate \<Rightarrow> string \<Rightarrow> NestedField list \<Rightarrow> 'arr RecordBatch \<Rightarrow> 's \<Rightarrow> (string, 's) res" where
  "write_table K table_name schema batch s =
     res_bind (ic_create_table K table_name schema s) (ic_append K table_name batch)"

definition ingest_table ::
  "('s, 'arr) IcebergCrate \<Rightarrow> string \<Rightarrow> NestedField list \<Rightarrow> (string, 'arr RecordBatch) res \<Rightarrow> 's \<Rightarrow> (string, 's) res" where
  "ingest_table K table_name schema batch s = res_bind batch (\<lambda>b. write_table K table_name schema b s)"

definition edge_schema :: "NestedField list" where
  "edge_schema = [(1, ''edge_id'', PLong), (2, ''src_node_id'', PLong), (3, ''dst_node_id'', PLong)]"

definition edge_batch ::
  "('s, 'arr) IcebergCrate \<Rightarrow> (i64 \<times> i64 \<times> i64) list \<Rightarrow> (string, 'arr RecordBatch) res" where
  "edge_batch K edges =
     ic_try_new K edge_schema
       [ic_int64_array K (map (\<lambda>(i, src, dst). i) edges), ic_int64_array K (map (\<lambda>(i, src, dst). src) edges),
        ic_int64_array K (map (\<lambda>(i, src, dst). dst) edges)]"

section \<open>Columns\<close>

datatype Column = Longs "i64 list" | Strings "string list" | Bools "bool list" | Stamps "i64 list"

fun column_array :: "('s, 'arr) IcebergCrate \<Rightarrow> Column \<Rightarrow> 'arr" where
  "column_array K (Longs xs) = ic_int64_array K xs"
| "column_array K (Strings xs) = ic_string_array K xs"
| "column_array K (Bools xs) = ic_boolean_array K xs"
| "column_array K (Stamps xs) = ic_timestamp_array K xs"

fun column_length :: "Column \<Rightarrow> nat" where
  "column_length (Longs xs) = length xs"
| "column_length (Strings xs) = length xs"
| "column_length (Bools xs) = length xs"
| "column_length (Stamps xs) = length xs"

fun column_type :: "Column \<Rightarrow> PrimitiveType" where
  "column_type (Longs xs) = PLong"
| "column_type (Strings xs) = PString"
| "column_type (Bools xs) = PBoolean"
| "column_type (Stamps xs) = PTimestamp"

fun scalar_of :: "PrimitiveType \<Rightarrow> ScalarType" where
  "scalar_of PLong = TInt64"
| "scalar_of PString = TString"
| "scalar_of PBoolean = TBool"
| "scalar_of PTimestamp = TTimestamp"

fun cell :: "Column \<Rightarrow> nat \<Rightarrow> PropertyValue" where
  "cell (Longs xs) i = VInt64 (xs ! i)"
| "cell (Strings xs) i = VString (xs ! i)"
| "cell (Bools xs) i = VBool (xs ! i)"
| "cell (Stamps xs) i = VTimestamp (xs ! i)"

fun id_at :: "Column \<Rightarrow> nat \<Rightarrow> u64" where
  "id_at (Longs xs) i = xs ! i"
| "id_at _ i = 0"

definition column_fits :: "nat \<Rightarrow> NestedField \<Rightarrow> Column \<Rightarrow> bool" where
  "column_fits n f c \<longleftrightarrow> column_length c = n \<and> snd (snd f) = column_type c"

text \<open>An array that reads as the column, in the slots below \<open>n\<close>.\<close>

fun column_reads :: "('s, 'arr) IcebergCrate \<Rightarrow> nat \<Rightarrow> Column \<Rightarrow> 'arr \<Rightarrow> bool" where
  "column_reads K n (Longs xs) a \<longleftrightarrow>
     (\<exists>f. as_Int64Array (ic_arrow K) a = Some f \<and> (\<forall>i < n. f i = xs ! i \<and> \<not> arr_is_null (ic_arrow K) a i))"
| "column_reads K n (Strings xs) a \<longleftrightarrow>
     (\<exists>f. as_StringArray (ic_arrow K) a = Some f \<and> (\<forall>i < n. f i = xs ! i \<and> \<not> arr_is_null (ic_arrow K) a i))"
| "column_reads K n (Bools xs) a \<longleftrightarrow>
     (\<exists>f. as_BooleanArray (ic_arrow K) a = Some f \<and> (\<forall>i < n. f i = xs ! i \<and> \<not> arr_is_null (ic_arrow K) a i))"
| "column_reads K n (Stamps xs) a \<longleftrightarrow>
     (\<exists>f. as_TimestampMicrosecondArray (ic_arrow K) a = Some f \<and>
        (\<forall>i < n. f i = xs ! i \<and> \<not> arr_is_null (ic_arrow K) a i))"

definition batch_reads ::
  "('s, 'arr) IcebergCrate \<Rightarrow> NestedField list \<Rightarrow> Column list \<Rightarrow> nat \<Rightarrow> 'arr RecordBatch \<Rightarrow> bool" where
  "batch_reads K schema columns n b \<longleftrightarrow>
     num_rows b = n \<and>
     list_all2 (\<lambda>(_, name, _) c. \<exists>a. column_by_name b name = Some a \<and> column_reads K n c a) schema columns"

lemma read_cell:
  assumes "column_reads K n c a" "i < n"
  shows "read_property_value (ic_arrow K) a i (scalar_of (column_type c)) = Ok (cell c i)"
    and "column_type c = PLong \<Longrightarrow> read_id (ic_arrow K) a i = Ok (id_at c i)"
  using assms by (cases c; auto simp: read_property_value.simps downcast_def read_id_def)+

section \<open>What is assumed of the crates\<close>

definition table_absent :: "('s, 'arr) IcebergCrate \<Rightarrow> 's \<Rightarrow> string \<Rightarrow> bool" where
  "table_absent K s name \<longleftrightarrow> (\<exists>e. cat_load_table (ic_tables K s) name = Err e)"

definition table_holds :: "('s, 'arr) IcebergCrate \<Rightarrow> 's \<Rightarrow> string \<Rightarrow> 'arr RecordBatch \<Rightarrow> bool" where
  "table_holds K s name b \<longleftrightarrow>
     (\<exists>t snap. cat_load_table (ic_tables K s) name = Ok t \<and> cat_current_snapshot (ic_tables K s) t = Some snap \<and>
        cat_scan (ic_tables K s) t snap = Ok [Ok b])"

text \<open>
  The documented behaviour of the crates: columns that fit a schema make a batch that reads as them; a
  table that does not exist can be created and appended to, then holds the batch, and the others stay.
\<close>

definition stores_tables :: "('s, 'arr) IcebergCrate \<Rightarrow> bool" where
  "stores_tables K \<longleftrightarrow>
     (\<forall>schema columns n. columns \<noteq> [] \<longrightarrow> distinct (map (fst \<circ> snd) schema) \<longrightarrow>
        list_all2 (column_fits n) schema columns \<longrightarrow>
        (\<exists>b. ic_try_new K schema (map (column_array K) columns) = Ok b \<and> batch_reads K schema columns n b)) \<and>
     (\<forall>name schema b s. table_absent K s name \<longrightarrow>
        (\<exists>t u. ic_create_table K name schema s = Ok t \<and> ic_append K name b t = Ok u \<and> table_holds K u name b \<and>
           (\<forall>m. m \<noteq> name \<longrightarrow> (\<forall>c. table_holds K s m c \<longrightarrow> table_holds K u m c) \<and>
              (table_absent K s m \<longrightarrow> table_absent K u m))))"

lemma ingest_table_Ok:
  assumes "stores_tables K" "table_absent K s name" "distinct (map (fst \<circ> snd) schema)" "columns \<noteq> []"
    and "list_all2 (column_fits n) schema columns" "batch = ic_try_new K schema (map (column_array K) columns)"
  obtains b u where "ingest_table K name schema batch s = Ok u" "table_holds K u name b" "batch_reads K schema columns n b"
    "\<And>m c. m \<noteq> name \<Longrightarrow> table_holds K s m c \<Longrightarrow> table_holds K u m c"
    "\<And>m. m \<noteq> name \<Longrightarrow> table_absent K s m \<Longrightarrow> table_absent K u m"
proof -
  obtain b where b: "batch = Ok b" "batch_reads K schema columns n b"
    using assms(1,3-6) unfolding stores_tables_def by blast
  obtain t u where u: "ic_create_table K name schema s = Ok t" "ic_append K name b t = Ok u" "table_holds K u name b"
    "\<And>m c. m \<noteq> name \<Longrightarrow> table_holds K s m c \<Longrightarrow> table_holds K u m c"
    "\<And>m. m \<noteq> name \<Longrightarrow> table_absent K s m \<Longrightarrow> table_absent K u m"
    using assms(1,2) unfolding stores_tables_def by metis
  have "ingest_table K name schema batch s = Ok u"
    by (simp add: ingest_table_def write_table_def b(1) u(1,2))
  then show thesis using that u(3-5) b(2) by blast
qed

section \<open>Tables that are written one after the other\<close>

text \<open>A table as its name, its schema and its columns.\<close>

type_synonym Written = "string \<times> NestedField list \<times> Column list"

definition rows_of :: "Column list \<Rightarrow> nat" where
  "rows_of columns = (case columns of [] \<Rightarrow> 0 | c # _ \<Rightarrow> column_length c)"

definition write_columns :: "('s, 'arr) IcebergCrate \<Rightarrow> 's \<Rightarrow> Written \<Rightarrow> (string, 's) res" where
  "write_columns K s = (\<lambda>(name, schema, columns).
     ingest_table K name schema (ic_try_new K schema (map (column_array K) columns)) s)"

definition writable :: "Written \<Rightarrow> bool" where
  "writable = (\<lambda>(name, schema, columns).
     distinct (map (fst \<circ> snd) schema) \<and> columns \<noteq> [] \<and> list_all2 (column_fits (rows_of columns)) schema columns)"

definition written :: "('s, 'arr) IcebergCrate \<Rightarrow> 's \<Rightarrow> Written \<Rightarrow> bool" where
  "written K s = (\<lambda>(name, schema, columns).
     \<exists>b. table_holds K s name b \<and> batch_reads K schema columns (rows_of columns) b)"

lemma write_all:
  assumes "stores_tables K" "distinct (map fst ts)" "list_all writable ts" "list_all (\<lambda>t. table_absent K s (fst t)) ts"
  shows "\<exists>u. fold_res (write_columns K) s ts = Ok u \<and> list_all (written K u) ts \<and>
    (\<forall>m c. m \<notin> fst ` set ts \<longrightarrow> table_holds K s m c \<longrightarrow> table_holds K u m c)"
  using assms(2-4)
proof (induction ts arbitrary: s)
  case (Cons t ts)
  obtain name schema columns where t: "t = (name, schema, columns)" by (cases t)
  obtain b u where u: "write_columns K s t = Ok u" "table_holds K u name b"
    "batch_reads K schema columns (rows_of columns) b"
    "\<And>m c. m \<noteq> name \<Longrightarrow> table_holds K s m c \<Longrightarrow> table_holds K u m c"
    "\<And>m. m \<noteq> name \<Longrightarrow> table_absent K s m \<Longrightarrow> table_absent K u m"
    by (rule ingest_table_Ok [OF assms(1), where s = s and name = name and schema = schema
          and n = "rows_of columns" and columns = columns])
      (use Cons.prems t in \<open>auto simp: writable_def write_columns_def\<close>)
  have "list_all (\<lambda>t. table_absent K u (fst t)) ts"
    using Cons.prems(1,3) t unfolding list_all_iff by (intro ballI u(5)) auto
  then obtain v where v: "fold_res (write_columns K) u ts = Ok v" "list_all (written K v) ts"
    "\<And>m c. m \<notin> fst ` set ts \<Longrightarrow> table_holds K u m c \<Longrightarrow> table_holds K v m c"
    using Cons.IH [of u] Cons.prems by auto
  have "written K v t" using v(3) [OF _ u(2)] u(3) Cons.prems(1) t by (auto simp: written_def)
  then show ?case using u v t by (auto simp: image_iff)
qed simp

section \<open>What is written is read back\<close>

text \<open>The rows of a table of nodes, and of one of edges, by its columns.\<close>

definition cells :: "PropertyDef list \<Rightarrow> Column list \<Rightarrow> nat \<Rightarrow> (string, PropertyValue) fmap" where
  "cells props columns i = hm_collect (map2 (\<lambda>p c. (pd_name p, cell c i)) props columns)"

definition column_nodes :: "NodeDef \<Rightarrow> Column list \<Rightarrow> NodeRow list" where
  "column_nodes nd columns =
     map (\<lambda>i. \<lparr>nr_id = NodeId (id_at (hd columns) i), nr_properties = cells (nd_properties nd) (tl columns) i\<rparr>)
       [0..<rows_of columns]"

definition column_edges :: "EdgeDef \<Rightarrow> Column list \<Rightarrow> EdgeRow list" where
  "column_edges ed columns =
     map (\<lambda>i. \<lparr>er_id = EdgeId (id_at (columns ! 0) i), er_src = NodeId (id_at (columns ! 1) i),
         er_dst = NodeId (id_at (columns ! 2) i), er_properties = cells (ed_properties ed) (drop 3 columns) i\<rparr>)
       [0..<rows_of columns]"

text \<open>When every column lists a component of the same rows, each row of the table is one of them.\<close>

lemma column_nodes_map:
  assumes "\<And>i. i < length xs \<Longrightarrow> \<lparr>nr_id = NodeId (id_at c i), nr_properties = cells (nd_properties nd) cs i\<rparr> = row (xs ! i)"
    and "column_length c = length xs"
  shows "column_nodes nd (c # cs) = map row xs"
  by (rule nth_equalityI) (simp_all add: column_nodes_def rows_of_def assms)

abbreviation edge_columns :: "(i64 \<times> i64 \<times> i64) list \<Rightarrow> Column list" where
  "edge_columns es \<equiv>
    [Longs (map (\<lambda>(i, src, dst). i) es), Longs (map (\<lambda>(i, src, dst). src) es), Longs (map (\<lambda>(i, src, dst). dst) es)]"

definition plain_edge :: "i64 \<times> i64 \<times> i64 \<Rightarrow> EdgeRow" where
  "plain_edge = (\<lambda>(i, src, dst).
     \<lparr>er_id = EdgeId i, er_src = NodeId src, er_dst = NodeId dst, er_properties = fmempty\<rparr>)"

lemma column_edges_map:
  assumes "\<And>i. i < length xs \<Longrightarrow> \<lparr>er_id = EdgeId (id_at c1 i), er_src = NodeId (id_at c2 i), er_dst = NodeId (id_at c3 i),
      er_properties = cells (ed_properties ed) cs i\<rparr> = row (xs ! i)"
    and "column_length c1 = length xs"
  shows "column_edges ed (c1 # c2 # c3 # cs) = map row xs"
  by (rule nth_equalityI) (simp_all add: column_edges_def rows_of_def assms)

lemma column_edges_plain: "ed_properties ed = [] \<Longrightarrow> column_edges ed (edge_columns es) = map plain_edge es"
  by (rule column_edges_map) (simp_all add: plain_edge_def cells_def hm_collect_def split_beta)

text \<open>A table's schema has the id columns and then those of the declared properties.\<close>

definition field_of :: "PropertyDef \<Rightarrow> NestedField \<Rightarrow> bool" where
  "field_of p f \<longleftrightarrow> pd_name p = fst (snd f) \<and> pd_ty p = scalar_of (snd (snd f))"

definition describes_nodes :: "NodeDef \<Rightarrow> NestedField list \<Rightarrow> bool" where
  "describes_nodes nd schema \<longleftrightarrow>
     schema \<noteq> [] \<and> snd (hd schema) = (''node_id'', PLong) \<and> list_all2 field_of (nd_properties nd) (tl schema)"

definition describes_edges :: "EdgeDef \<Rightarrow> NestedField list \<Rightarrow> bool" where
  "describes_edges ed schema \<longleftrightarrow>
     map snd (take 3 schema) = map snd edge_schema \<and> list_all2 field_of (ed_properties ed) (drop 3 schema)"

lemma read_properties_written:
  assumes "list_all2 field_of props fs" "list_all2 (column_fits n) fs cs"
    and "list_all2 (\<lambda>(_, name, _) c. \<exists>a. column_by_name b name = Some a \<and> column_reads K n c a) fs cs" "i < n"
  shows "read_properties (ic_arrow K) b i props = Ok (cells props cs i)"
proof -
  let ?read = "\<lambda>prop. res_bind (ok_or (NonConformingRow (''missing column '' @ pd_name prop))
      (column_by_name b (pd_name prop))) (\<lambda>column.
      res_map (\<lambda>v. (pd_name prop, v)) (read_property_value (ic_arrow K) column i (pd_ty prop)))"
  have "collect_res ?read props = Ok (map2 (\<lambda>p c. (pd_name p, cell c i)) props cs)"
    using assms(1-3)
  proof (induction props arbitrary: fs cs)
    case (Cons p props)
    then obtain f fs' c cs' where eq: "fs = f # fs'" "cs = c # cs'" by (auto simp: list_all2_Cons1 list_all2_Cons2)
    obtain k name ty where f: "f = (k, name, ty)" by (cases f)
    obtain a where a: "column_by_name b name = Some a" "column_reads K n c a"
      using Cons.prems(3) by (auto simp: eq f)
    have "pd_name p = name" "pd_ty p = scalar_of (column_type c)"
      using Cons.prems(1,2) by (simp_all add: eq f field_of_def column_fits_def)
    then have "?read p = Ok (pd_name p, cell c i)"
      using read_cell(1) [OF a(2) assms(4)] a(1) by simp
    then show ?case using Cons.IH [of fs' cs'] Cons.prems by (simp add: eq)
  qed simp
  then show ?thesis by (simp add: read_properties_def cells_def)
qed

lemma node_rows_written:
  assumes "writable (name, schema, columns)" "describes_nodes nd schema"
    and "batch_reads K schema columns (rows_of columns) b"
  shows "batch_to_node_rows (ic_arrow K) (Ok b) nd = map Ok (column_nodes nd columns)"
proof -
  obtain k fs where schema: "schema = (k, ''node_id'', PLong) # fs"
    using assms(2) by (cases schema) (auto simp: describes_nodes_def)
  obtain c cs where columns: "columns = c # cs" using assms(1) by (cases columns) (auto simp: writable_def)
  obtain n where n: "rows_of columns = n" by blast
  have fits: "column_fits n (k, ''node_id'', PLong) c" "list_all2 (column_fits n) fs cs"
    and reads: "\<exists>a. column_by_name b ''node_id'' = Some a \<and> column_reads K n c a" "num_rows b = n"
    "list_all2 (\<lambda>(_, name, _) c. \<exists>a. column_by_name b name = Some a \<and> column_reads K n c a) fs cs"
    using assms(1,3) by (simp_all add: writable_def batch_reads_def schema n [unfolded columns] columns)
  obtain a where a: "column_by_name b ''node_id'' = Some a" "column_reads K n c a" using reads(1) by blast
  have "list_all2 field_of (nd_properties nd) fs" using assms(2) by (simp add: describes_nodes_def schema)
  note props = read_properties_written [OF this fits(2) reads(3)]
  have "column_type c = PLong" using fits(1) by (simp add: column_fits_def)
  then show ?thesis
    by (simp add: batch_to_node_rows_def column_nodes_def a(1) reads(2) read_cell(2) [OF a(2)] props comp_def n)
      (simp add: columns)
qed

lemma edge_rows_written:
  assumes "writable (name, schema, columns)" "describes_edges ed schema"
    and "batch_reads K schema columns (rows_of columns) b"
  shows "batch_to_edge_rows (ic_arrow K) (Ok b) ed = map Ok (column_edges ed columns)"
proof -
  have "length (map snd (take 3 schema)) = 3" using assms(2) by (simp add: describes_edges_def edge_schema_def)
  then obtain f1 f2 f3 fs where fields: "schema = f1 # f2 # f3 # fs"
    by (cases schema; cases "tl schema"; cases "tl (tl schema)") auto
  then obtain k1 k2 k3 where schema: "schema = (k1, ''edge_id'', PLong) # (k2, ''src_node_id'', PLong) #
      (k3, ''dst_node_id'', PLong) # fs"
    using assms(2) by (cases f1; cases f2; cases f3) (auto simp: describes_edges_def edge_schema_def)
  obtain c1 c2 c3 cs where columns: "columns = c1 # c2 # c3 # cs"
    using assms(1) by (auto simp: writable_def schema list_all2_Cons1)
  obtain n where n: "rows_of columns = n" by blast
  have fits: "column_fits n (k1, ''edge_id'', PLong) c1" "column_fits n (k2, ''src_node_id'', PLong) c2"
    "column_fits n (k3, ''dst_node_id'', PLong) c3" "list_all2 (column_fits n) fs cs"
    and reads: "\<exists>a. column_by_name b ''edge_id'' = Some a \<and> column_reads K n c1 a"
    "\<exists>a. column_by_name b ''src_node_id'' = Some a \<and> column_reads K n c2 a"
    "\<exists>a. column_by_name b ''dst_node_id'' = Some a \<and> column_reads K n c3 a" "num_rows b = n"
    "list_all2 (\<lambda>(_, name, _) c. \<exists>a. column_by_name b name = Some a \<and> column_reads K n c a) fs cs"
    using assms(1,3) by (simp_all add: writable_def batch_reads_def schema n [unfolded columns] columns)
  obtain a1 a2 a3 where a: "column_by_name b ''edge_id'' = Some a1" "column_reads K n c1 a1"
    "column_by_name b ''src_node_id'' = Some a2" "column_reads K n c2 a2"
    "column_by_name b ''dst_node_id'' = Some a3" "column_reads K n c3 a3" using reads(1-3) by blast
  have "list_all2 field_of (ed_properties ed) fs" using assms(2) by (simp add: describes_edges_def schema)
  note props = read_properties_written [OF this fits(4) reads(5)]
  have "column_type c1 = PLong" "column_type c2 = PLong" "column_type c3 = PLong"
    using fits(1-3) by (simp_all add: column_fits_def)
  then show ?thesis
    by (simp add: batch_to_edge_rows_def column_edges_def a(1,3,5) reads(4) read_cell(2) [OF a(2)]
        read_cell(2) [OF a(4)] read_cell(2) [OF a(6)] props comp_def n)
      (simp add: columns)
qed

text \<open>The scan of a table that was written.\<close>

lemma collect_map_Ok: "collect_res (\<lambda>row. row) (map (\<lambda>x. Ok (f x)) xs) = Ok (map f xs)"
  by (induction xs) simp_all

definition holds_nodes :: "('s, 'arr) IcebergCrate \<Rightarrow> 's \<Rightarrow> Schema \<Rightarrow> Label \<Rightarrow> NodeRow list \<Rightarrow> bool" where
  "holds_nodes K u schema l rows \<longleftrightarrow>
     (\<exists>nd b. node_def schema l = Some nd \<and> table_holds K u (node_table_name l) b \<and>
        batch_to_node_rows (ic_arrow K) (Ok b) nd = map Ok rows)"

definition holds_edges :: "('s, 'arr) IcebergCrate \<Rightarrow> 's \<Rightarrow> Schema \<Rightarrow> EdgeDef \<Rightarrow> EdgeRow list \<Rightarrow> bool" where
  "holds_edges K u schema ed rows \<longleftrightarrow>
     edge_def schema (ed_edge_type ed) = Some ed \<and>
     (\<exists>b. table_holds K u (edge_table_name (ed_edge_type ed)) b \<and>
        batch_to_edge_rows (ic_arrow K) (Ok b) ed = map Ok rows)"

lemma holds_written:
  assumes "written K u (name, sch, columns)" "writable (name, sch, columns)"
  shows "node_table_name l = name \<Longrightarrow> node_def schema l = Some nd \<Longrightarrow> describes_nodes nd sch \<Longrightarrow>
      holds_nodes K u schema l (column_nodes nd columns)"
    and "edge_table_name (ed_edge_type ed) = name \<Longrightarrow> edge_def schema (ed_edge_type ed) = Some ed \<Longrightarrow>
      describes_edges ed sch \<Longrightarrow> holds_edges K u schema ed (column_edges ed columns)"
proof -
  obtain b where b: "table_holds K u name b" "batch_reads K sch columns (rows_of columns) b"
    using assms(1) by (auto simp: written_def)
  show "node_table_name l = name \<Longrightarrow> node_def schema l = Some nd \<Longrightarrow> describes_nodes nd sch \<Longrightarrow>
      holds_nodes K u schema l (column_nodes nd columns)"
    using node_rows_written [OF assms(2) _ b(2), of nd] b(1) unfolding holds_nodes_def by blast
  show "edge_table_name (ed_edge_type ed) = name \<Longrightarrow> edge_def schema (ed_edge_type ed) = Some ed \<Longrightarrow>
      describes_edges ed sch \<Longrightarrow> holds_edges K u schema ed (column_edges ed columns)"
    using edge_rows_written [OF assms(2) _ b(2), of ed] b(1) unfolding holds_edges_def by blast
qed

lemma scan_written:
  assumes "ib_reader B = IcebergCatalogReader (ic_arrow K) (ic_tables K u)"
  shows "holds_nodes K u (ib_schema B) l rows \<Longrightarrow>
      \<exists>snaps'. scan_label B (snaps, acc) l = Ok (snaps', acc @ map (Pair l) rows)"
    and "holds_edges K u (ib_schema B) ed es \<Longrightarrow>
      \<exists>snaps'. scan_edge_type B (snaps, acc') ed = Ok (snaps', acc' @ map (Pair (ed_edge_type ed)) es)"
  by (auto simp: assms holds_nodes_def holds_edges_def table_holds_def scan_label_def scan_edge_type_def
      IcebergCatalogReader_def catalog_latest_snapshot_def catalog_scan_nodes_def catalog_scan_edges_def
      arrow_stream_def load_table_def collect_map_Ok comp_def)

text \<open>What the builder reads is what the tables of the labels and the edge types hold.\<close>

lemma read_written:
  assumes "ib_reader B = IcebergCatalogReader (ic_arrow K) (ic_tables K u)"
    and "list_all (\<lambda>(l, rows). holds_nodes K u (ib_schema B) l rows) nodes"
    and "list_all (\<lambda>(ed, rows). holds_edges K u (ib_schema B) ed rows) edges"
    and "map fst edges = map snd (sorted_list_of_fmap (sch_edges (ib_schema B)))"
  shows "read_tables B (map fst nodes) =
    Ok \<lparr>ds_schema = ib_schema B, ds_nodes = concat (map (\<lambda>(l, rows). map (Pair l) rows) nodes),
        ds_edges = concat (map (\<lambda>(ed, rows). map (Pair (ed_edge_type ed)) rows) edges)\<rparr>"
proof -
  have nodes: "\<exists>snaps'. fold_res (scan_label B) (snaps, acc) (map fst ns) =
      Ok (snaps', acc @ concat (map (\<lambda>(l, rows). map (Pair l) rows) ns))"
    if "list_all (\<lambda>(l, rows). holds_nodes K u (ib_schema B) l rows) ns" for ns snaps acc
    using that
  proof (induction ns arbitrary: snaps acc)
    case (Cons lr ns)
    obtain l rows where lr: "lr = (l, rows)" by (cases lr)
    have "holds_nodes K u (ib_schema B) l rows" using Cons.prems by (simp add: lr)
    then obtain s' where "scan_label B (snaps, acc) l = Ok (s', acc @ map (Pair l) rows)"
      using scan_written(1) [OF assms(1)] by blast
    then show ?case using Cons.IH [of s' "acc @ map (Pair l) rows"] Cons.prems by (simp add: lr)
  qed simp
  have edges: "\<exists>snaps'. fold_res (scan_edge_type B) (snaps, acc) (map fst es) =
      Ok (snaps', acc @ concat (map (\<lambda>(ed, rows). map (Pair (ed_edge_type ed)) rows) es))"
    if "list_all (\<lambda>(ed, rows). holds_edges K u (ib_schema B) ed rows) es" for es snaps acc
    using that
  proof (induction es arbitrary: snaps acc)
    case (Cons er es)
    obtain ed rows where er: "er = (ed, rows)" by (cases er)
    have "holds_edges K u (ib_schema B) ed rows" using Cons.prems by (simp add: er)
    then obtain s' where "scan_edge_type B (snaps, acc) ed = Ok (s', acc @ map (Pair (ed_edge_type ed)) rows)"
      using scan_written(2) [OF assms(1)] by blast
    then show ?case using Cons.IH [of s' "acc @ map (Pair (ed_edge_type ed)) rows"] Cons.prems by (simp add: er)
  qed simp
  obtain s1 where s1: "fold_res (scan_label B) (fmempty, []) (map fst nodes) =
      Ok (s1, concat (map (\<lambda>(l, rows). map (Pair l) rows) nodes))"
    using nodes [OF assms(2), of fmempty "[]"] by auto
  obtain s2 where "fold_res (scan_edge_type B) (s1, []) (map fst edges) =
      Ok (s2, concat (map (\<lambda>(ed, rows). map (Pair (ed_edge_type ed)) rows) edges))"
    using edges [OF assms(3), of s1 "[]"] by auto
  with s1 show ?thesis by (simp add: read_tables_def assms(4))
qed

end
