(* ===== verification/Demo.thy ===== *)
theory Demo
  imports Local_Pipeline Dsl_Parser Dsl_Validator Schema_Grammar Iceberg_Tables
begin

text \<open>
  \<open>examples/demo/src/main.rs\<close>: the end-to-end run in one process. It writes three node and three
  edge tables, builds the index from them, and answers one query on it.
\<close>

section \<open>The texts\<close>

definition unlines :: "string list \<Rightarrow> string" where
  "unlines ls = concat (map (\<lambda>l. l @ [CHR 0x0A]) ls)"

definition SCHEMA_IDL :: string where
  "SCHEMA_IDL = unlines
    ['''',
     ''schema graph_v1 {'',
     ''  node CloudAccount {'',
     ''    id: NodeId'',
     ''    @indexed account_id: String'',
     ''    provider: String'',
     ''  }'',
     '''',
     ''  node Resource {'',
     ''    id: NodeId'',
     ''    @indexed name: String'',
     ''    resource_type: String'',
     ''    region: String'',
     ''  }'',
     '''',
     ''  node CostRecord {'',
     ''    id: NodeId'',
     ''    @indexed amount_usd: Int64'',
     ''    period: String'',
     ''  }'',
     '''',
     ''  edge OWNS {'',
     ''    from: CloudAccount'',
     ''    to: Resource'',
     ''  }'',
     '''',
     ''  edge CONTAINS {'',
     ''    from: Resource'',
     ''    to: Resource'',
     ''  }'',
     '''',
     ''  edge HAS_COST {'',
     ''    from: Resource'',
     ''    to: CostRecord'',
     ''  }'',
     ''}'']"

definition DEMO_QUERY :: string where
  "DEMO_QUERY = unlines
    ['''',
     (''MATCH (a:CloudAccount {account_id: '' @ [CHR 0x22] @ ''123456789012'' @ [CHR 0x22] @ ''})-[:OWNS]->(vpc:Resource)-[:CONTAINS*1..3]->(r:Resource)-[:HAS_COST]->(c:CostRecord)''),
     ''WHERE c.amount_usd > 100'',
     ''RETURN r'']"

text \<open>Their token trees, by the rules of the two grammars.\<close>

definition idl_span :: "nat \<Rightarrow> nat \<Rightarrow> string" where
  "idl_span i j = take (j - i) (drop i SCHEMA_IDL)"

definition query_span :: "nat \<Rightarrow> nat \<Rightarrow> string" where
  "query_span i j = take (j - i) (drop i DEMO_QUERY)"

definition demo_idl_tree :: "SRule Pair" where
  "demo_idl_tree =
    Pair S_schema_file (idl_span 0 493) [
      Pair S_schema_decl (idl_span 1 492) [
        Pair S_ident ''graph_v1'' [],
        Pair S_node_decl (idl_span 21 112) [
          Pair S_ident ''CloudAccount'' [],
          Pair S_id_field (idl_span 45 55) [],
          Pair S_property_decl (idl_span 60 92) [
            Pair S_indexed_marker (idl_span 60 68) [],
            Pair S_ident ''account_id'' [],
            Pair S_scalar_type (idl_span 81 87) [Pair S_simple_type ''String'' []]],
          Pair S_property_decl (idl_span 92 111) [
            Pair S_ident ''provider'' [],
            Pair S_scalar_type (idl_span 102 108) [Pair S_simple_type ''String'' []]]],
        Pair S_node_decl (idl_span 116 221) [
          Pair S_ident ''Resource'' [],
          Pair S_id_field (idl_span 136 146) [],
          Pair S_property_decl (idl_span 151 177) [
            Pair S_indexed_marker (idl_span 151 159) [],
            Pair S_ident ''name'' [],
            Pair S_scalar_type (idl_span 166 172) [Pair S_simple_type ''String'' []]],
          Pair S_property_decl (idl_span 177 203) [
            Pair S_ident ''resource_type'' [],
            Pair S_scalar_type (idl_span 192 198) [Pair S_simple_type ''String'' []]],
          Pair S_property_decl (idl_span 203 220) [
            Pair S_ident ''region'' [],
            Pair S_scalar_type (idl_span 211 217) [Pair S_simple_type ''String'' []]]],
        Pair S_node_decl (idl_span 225 311) [
          Pair S_ident ''CostRecord'' [],
          Pair S_id_field (idl_span 247 257) [],
          Pair S_property_decl (idl_span 262 293) [
            Pair S_indexed_marker (idl_span 262 270) [],
            Pair S_ident ''amount_usd'' [],
            Pair S_scalar_type (idl_span 283 288) [Pair S_simple_type ''Int64'' []]],
          Pair S_property_decl (idl_span 293 310) [
            Pair S_ident ''period'' [],
            Pair S_scalar_type (idl_span 301 307) [Pair S_simple_type ''String'' []]]],
        Pair S_edge_decl (idl_span 315 370) [
          Pair S_ident ''OWNS'' [],
          Pair S_from_field (idl_span 331 349) [Pair S_ident ''CloudAccount'' []],
          Pair S_to_field (idl_span 354 366) [Pair S_ident ''Resource'' []]],
        Pair S_edge_decl (idl_span 374 429) [
          Pair S_ident ''CONTAINS'' [],
          Pair S_from_field (idl_span 394 408) [Pair S_ident ''Resource'' []],
          Pair S_to_field (idl_span 413 425) [Pair S_ident ''Resource'' []]],
        Pair S_edge_decl (idl_span 433 490) [
          Pair S_ident ''HAS_COST'' [],
          Pair S_from_field (idl_span 453 467) [Pair S_ident ''Resource'' []],
          Pair S_to_field (idl_span 472 486) [Pair S_ident ''CostRecord'' []]]],
      Pair S_EOI '''' []]"

definition demo_query_tree :: "Rule Pair" where
  "demo_query_tree =
    Pair R_query (query_span 0 170) [
      Pair R_pattern (query_span 7 135) [
        Pair R_node_pattern (query_span 7 52) [
          Pair R_ident ''a'' [],
          Pair R_ident ''CloudAccount'' [],
          Pair R_property_map (query_span 23 51) [
            Pair R_property_kv (query_span 24 50) [
              Pair R_ident ''account_id'' [],
              Pair R_literal (query_span 36 50) [
                Pair R_string_literal ([CHR 0x22] @ ''123456789012'' @ [CHR 0x22]) []]]]],
        Pair R_edge_pattern (query_span 52 62) [
          Pair R_outgoing_edge (query_span 52 62) [Pair R_edge_detail (query_span 53 60) [Pair R_ident ''OWNS'' []]]],
        Pair R_node_pattern (query_span 62 76) [Pair R_ident ''vpc'' [], Pair R_ident ''Resource'' []],
        Pair R_edge_pattern (query_span 76 95) [
          Pair R_outgoing_edge (query_span 76 95) [
            Pair R_edge_detail (query_span 77 93) [
              Pair R_ident ''CONTAINS'' [],
              Pair R_hop_range (query_span 87 92) [Pair R_number ''1'' [], Pair R_number ''3'' []]]]],
        Pair R_node_pattern (query_span 95 107) [Pair R_ident ''r'' [], Pair R_ident ''Resource'' []],
        Pair R_edge_pattern (query_span 107 121) [
          Pair R_outgoing_edge (query_span 107 121) [
            Pair R_edge_detail (query_span 108 119) [Pair R_ident ''HAS_COST'' []]]],
        Pair R_node_pattern (query_span 121 135) [Pair R_ident ''c'' [], Pair R_ident ''CostRecord'' []]],
      Pair R_where_clause (query_span 136 161) [
        Pair R_where_condition (query_span 142 160) [
          Pair R_property_condition (query_span 142 160) [
            Pair R_ident ''c'' [],
            Pair R_ident ''amount_usd'' [],
            Pair R_comparison_op ''>'' [],
            Pair R_literal (query_span 157 160) [Pair R_int_literal ''100'' []]]]],
      Pair R_return_clause (query_span 161 170) [Pair R_return_item (query_span 168 170) [Pair R_ident ''r'' []]],
      Pair R_EOI '''' []]"

section \<open>The dataset\<close>

definition account_schema :: "NestedField list" where
  "account_schema = [(1, ''node_id'', PLong), (2, ''account_id'', PString), (3, ''provider'', PString)]"

definition account_batch :: "('s, 'arr) IcebergCrate \<Rightarrow> (string, 'arr RecordBatch) res" where
  "account_batch K =
     ic_try_new K account_schema
       [ic_int64_array K [1], ic_string_array K [''123456789012''], ic_string_array K [''aws'']]"

definition resources :: "(i64 \<times> string \<times> string \<times> string) list" where
  "resources =
     [(2, ''vpc-prod'', ''vpc'', ''us-east-1''),
      (3, ''subnet-prod-a'', ''subnet'', ''us-east-1''),
      (4, ''i-checkout-api-1'', ''ec2_instance'', ''us-east-1''),
      (5, ''i-checkout-api-2'', ''ec2_instance'', ''us-east-1''),
      (6, ''vol-checkout-api-1'', ''ebs_volume'', ''us-east-1''),
      (7, ''snap-checkout-api-1'', ''ebs_snapshot'', ''us-east-1''),
      (8, ''rds-orders-db'', ''rds_instance'', ''us-east-1'')]"

definition resource_schema :: "NestedField list" where
  "resource_schema =
     [(1, ''node_id'', PLong), (2, ''name'', PString), (3, ''resource_type'', PString), (4, ''region'', PString)]"

definition resource_batch :: "('s, 'arr) IcebergCrate \<Rightarrow> (string, 'arr RecordBatch) res" where
  "resource_batch K =
     ic_try_new K resource_schema
       [ic_int64_array K (map (\<lambda>(i, name, ty, region). i) resources),
        ic_string_array K (map (\<lambda>(i, name, ty, region). name) resources),
        ic_string_array K (map (\<lambda>(i, name, ty, region). ty) resources),
        ic_string_array K (map (\<lambda>(i, name, ty, region). region) resources)]"

definition costs :: "(i64 \<times> i64 \<times> string) list" where
  "costs =
     [(101, 5, ''2024-06''), (102, 245, ''2024-06''), (103, 40, ''2024-06''),
      (104, 12, ''2024-06''), (105, 500, ''2024-06''), (106, 340, ''2024-06'')]"

definition cost_schema :: "NestedField list" where
  "cost_schema = [(1, ''node_id'', PLong), (2, ''amount_usd'', PLong), (3, ''period'', PString)]"

definition cost_batch :: "('s, 'arr) IcebergCrate \<Rightarrow> (string, 'arr RecordBatch) res" where
  "cost_batch K =
     ic_try_new K cost_schema
       [ic_int64_array K (map (\<lambda>(i, amount, period). i) costs),
        ic_int64_array K (map (\<lambda>(i, amount, period). amount) costs),
        ic_string_array K (map (\<lambda>(i, amount, period). period) costs)]"

definition owns_edges :: "(i64 \<times> i64 \<times> i64) list" where
  "owns_edges = [(1000, 1, 2)]"

definition contains_edges :: "(i64 \<times> i64 \<times> i64) list" where
  "contains_edges = [(1001, 2, 3), (1002, 2, 8), (1003, 3, 4), (1004, 3, 5), (1005, 4, 6), (1006, 6, 7)]"

definition has_cost_edges :: "(i64 \<times> i64 \<times> i64) list" where
  "has_cost_edges = [(1007, 3, 101), (1008, 4, 102), (1009, 5, 103), (1010, 6, 104), (1011, 7, 105), (1012, 8, 106)]"

text \<open>\<open>ingest\<close>, from the empty catalog with its namespace: each batch is made before its table is written.\<close>

definition ingest ::
  "('s, 'arr) IcebergCrate \<Rightarrow> 's \<Rightarrow> (string, 's \<times> (i64, string) fmap) res" where
  "ingest K s =
     res_bind (ingest_table K (node_table_name (Label ''CloudAccount'')) account_schema (account_batch K) s) (\<lambda>s.
     res_bind (ingest_table K (node_table_name (Label ''Resource'')) resource_schema (resource_batch K) s) (\<lambda>s.
     res_bind (ingest_table K (node_table_name (Label ''CostRecord'')) cost_schema (cost_batch K) s) (\<lambda>s.
     res_bind (ingest_table K (edge_table_name (EdgeType ''OWNS'')) edge_schema (edge_batch K owns_edges) s) (\<lambda>s.
     res_bind (ingest_table K (edge_table_name (EdgeType ''CONTAINS'')) edge_schema (edge_batch K contains_edges) s) (\<lambda>s.
     res_bind (ingest_table K (edge_table_name (EdgeType ''HAS_COST'')) edge_schema (edge_batch K has_cost_edges) s) (\<lambda>s.
     Ok (s, hm_collect (map (\<lambda>(i, name, ty, region). (i, name)) resources))))))))"

section \<open>The run\<close>

text \<open>
  What \<open>main\<close> finds outside: the parsers, the crates, the catalog once its directory, the catalog itself
  and its namespace are made (or why they were not), hash and iteration order, and the clock.
\<close>

record ('s, 'arr) DemoWorld =
  dw_hash :: "u64 \<Rightarrow> u64"
  dw_order :: hash_order
  dw_schema_pest :: "string \<Rightarrow> (string, SRule Pair list) res"
  dw_pest :: "string \<Rightarrow> (PestError, Rule Pair list) res"
  dw_crate :: "('s, 'arr) IcebergCrate"
  dw_catalog :: "(string, 's) res"
  dw_now :: i64

datatype DemoError =
    DemoSchema SchemaError
  | DemoIngest string
  | DemoRebuild RebuildError
  | DemoSyntax DslError
  | DemoValidation "ValidationError list"
  | DemoExecution ExecutionError
  | DemoNoReturn

text \<open>What the run prints: the counts of the index and a line for each row.\<close>

definition demo_row :: "(i64, string) fmap \<Rightarrow> string \<Rightarrow> Binding \<Rightarrow> ('e, string) res" where
  "demo_row resource_names alias binding =
     res_map (\<lambda>node_id.
       case fmlookup resource_names (node_raw node_id) of
         Some name \<Rightarrow> ''   - '' @ name @ '' (NodeId('' @ show_nat (unat (node_raw node_id)) @ ''))''
       | None \<Rightarrow> ''   - NodeId('' @ show_nat (unat (node_raw node_id)) @ '')'')
     (expect ''no entry found for key'' (fmlookup (b_nodes binding) alias))"

definition demo_main :: "('s, 'arr) DemoWorld \<Rightarrow> (DemoError, u64 \<times> u64 \<times> string list) res" where
  "demo_main W =
     res_bind (map_err DemoSchema (schema_parse (dw_schema_pest W) SCHEMA_IDL)) (\<lambda>schema.
     res_bind (map_err DemoIngest (res_bind (dw_catalog W) (ingest (dw_crate W)))) (\<lambda>(catalog, resource_names).
     let reader = IcebergCatalogReader (ic_arrow (dw_crate W)) (ic_tables (dw_crate W) catalog);
         builder = \<lparr>ib_reader = reader, ib_schema = schema, ib_n_partitions = 1\<rparr> in
     res_bind (map_err DemoRebuild (build (dw_hash W) (dw_now W) builder (PartitionId 0)
                 [Label ''CloudAccount'', Label ''Resource'', Label ''CostRecord''])) (\<lambda>generation.
     res_bind (map_err DemoSyntax (parse (dw_pest W) DEMO_QUERY)) (\<lambda>query.
     res_bind (map_err DemoValidation (validate query schema)) (\<lambda>_.
     res_bind (plan query) (\<lambda>p.
     res_bind (map_err DemoExecution (run_steps (dw_order W) generation (qp_steps p))) (\<lambda>bindings.
     res_bind (ok_or DemoNoReturn (case qp_project p of item # _ \<Rightarrow> Some item | [] \<Rightarrow> None)) (\<lambda>return_alias.
     res_map (\<lambda>rows. (gm_node_count (ig_meta generation), gm_edge_count (ig_meta generation), rows))
       (collect_res (demo_row resource_names (ri_alias return_alias)) bindings)))))))))"

section \<open>The dataset that is read\<close>

definition account_def :: NodeDef where
  "account_def = \<lparr>nd_label = Label ''CloudAccount'', nd_properties =
     [\<lparr>pd_name = ''account_id'', pd_ty = TString, pd_optional = False, pd_indexed = True\<rparr>,
      \<lparr>pd_name = ''provider'', pd_ty = TString, pd_optional = False, pd_indexed = False\<rparr>]\<rparr>"

definition resource_def :: NodeDef where
  "resource_def = \<lparr>nd_label = Label ''Resource'', nd_properties =
     [\<lparr>pd_name = ''name'', pd_ty = TString, pd_optional = False, pd_indexed = True\<rparr>,
      \<lparr>pd_name = ''resource_type'', pd_ty = TString, pd_optional = False, pd_indexed = False\<rparr>,
      \<lparr>pd_name = ''region'', pd_ty = TString, pd_optional = False, pd_indexed = False\<rparr>]\<rparr>"

definition cost_def :: NodeDef where
  "cost_def = \<lparr>nd_label = Label ''CostRecord'', nd_properties =
     [\<lparr>pd_name = ''amount_usd'', pd_ty = TInt64, pd_optional = False, pd_indexed = True\<rparr>,
      \<lparr>pd_name = ''period'', pd_ty = TString, pd_optional = False, pd_indexed = False\<rparr>]\<rparr>"

definition demo_edge_def :: "string \<Rightarrow> string \<Rightarrow> string \<Rightarrow> EdgeDef" where
  "demo_edge_def name src dst =
     \<lparr>ed_edge_type = EdgeType name, ed_from = Label src, ed_to = Label dst, ed_properties = []\<rparr>"

definition demo_schema :: Schema where
  "demo_schema =
     \<lparr>sch_version = ''graph_v1'',
      sch_nodes = fmupd (Label ''CostRecord'') cost_def (fmupd (Label ''Resource'') resource_def
        (fmupd (Label ''CloudAccount'') account_def fmempty)),
      sch_edges = fmupd (EdgeType ''HAS_COST'') (demo_edge_def ''HAS_COST'' ''Resource'' ''CostRecord'')
        (fmupd (EdgeType ''CONTAINS'') (demo_edge_def ''CONTAINS'' ''Resource'' ''Resource'')
        (fmupd (EdgeType ''OWNS'') (demo_edge_def ''OWNS'' ''CloudAccount'' ''Resource'') fmempty))\<rparr>"

definition account_row :: "i64 \<times> string \<times> string \<Rightarrow> NodeRow" where
  "account_row = (\<lambda>(i, account, provider). \<lparr>nr_id = NodeId i, nr_properties =
     hm_collect [(''account_id'', VString account), (''provider'', VString provider)]\<rparr>)"

definition resource_row :: "i64 \<times> string \<times> string \<times> string \<Rightarrow> NodeRow" where
  "resource_row = (\<lambda>(i, name, ty, region). \<lparr>nr_id = NodeId i, nr_properties =
     hm_collect [(''name'', VString name), (''resource_type'', VString ty), (''region'', VString region)]\<rparr>)"

definition cost_row :: "i64 \<times> i64 \<times> string \<Rightarrow> NodeRow" where
  "cost_row = (\<lambda>(i, amount, period). \<lparr>nr_id = NodeId i, nr_properties =
     hm_collect [(''amount_usd'', VInt64 amount), (''period'', VString period)]\<rparr>)"

definition demo_data :: Dataset where
  "demo_data =
     \<lparr>ds_schema = demo_schema,
      ds_nodes = map (\<lambda>r. (Label ''CloudAccount'', account_row r)) [(1, ''123456789012'', ''aws'')] @
        map (\<lambda>r. (Label ''Resource'', resource_row r)) resources @
        map (\<lambda>r. (Label ''CostRecord'', cost_row r)) costs,
      ds_edges = map (\<lambda>e. (EdgeType ''CONTAINS'', plain_edge e)) contains_edges @
        map (\<lambda>e. (EdgeType ''HAS_COST'', plain_edge e)) has_cost_edges @
        map (\<lambda>e. (EdgeType ''OWNS'', plain_edge e)) owns_edges\<rparr>"

lemma demo_node_rows:
  "column_nodes account_def [Longs [1], Strings [''123456789012''], Strings [''aws'']] =
     map account_row [(1, ''123456789012'', ''aws'')]"
  "column_nodes resource_def
     [Longs (map (\<lambda>(i, name, ty, region). i) rs), Strings (map (\<lambda>(i, name, ty, region). name) rs),
      Strings (map (\<lambda>(i, name, ty, region). ty) rs), Strings (map (\<lambda>(i, name, ty, region). region) rs)] =
     map resource_row rs"
  "column_nodes cost_def
     [Longs (map (\<lambda>(i, amount, period). i) cs), Longs (map (\<lambda>(i, amount, period). amount) cs),
      Strings (map (\<lambda>(i, amount, period). period) cs)] = map cost_row cs"
  by (rule column_nodes_map; simp add: account_row_def account_def_def resource_row_def resource_def_def
      cost_row_def cost_def_def cells_def split_beta)+

section \<open>The tables hold the dataset\<close>

lemma demo_table_names:
  "node_table_name (Label ''CloudAccount'') = ''nodes_cloudaccount''"
  "node_table_name (Label ''Resource'') = ''nodes_resource''"
  "node_table_name (Label ''CostRecord'') = ''nodes_costrecord''"
  "edge_table_name (EdgeType ''OWNS'') = ''edges_owns''"
  "edge_table_name (EdgeType ''CONTAINS'') = ''edges_contains''"
  "edge_table_name (EdgeType ''HAS_COST'') = ''edges_has_cost''"
  by (simp_all add: node_table_name_def edge_table_name_def to_lowercase_def, code_simp+)

definition demo_tables :: "Written list" where
  "demo_tables =
     [(''nodes_cloudaccount'', account_schema, [Longs [1], Strings [''123456789012''], Strings [''aws'']]),
      (''nodes_resource'', resource_schema,
       [Longs (map (\<lambda>(i, name, ty, region). i) resources), Strings (map (\<lambda>(i, name, ty, region). name) resources),
        Strings (map (\<lambda>(i, name, ty, region). ty) resources), Strings (map (\<lambda>(i, name, ty, region). region) resources)]),
      (''nodes_costrecord'', cost_schema,
       [Longs (map (\<lambda>(i, amount, period). i) costs), Longs (map (\<lambda>(i, amount, period). amount) costs),
        Strings (map (\<lambda>(i, amount, period). period) costs)]),
      (''edges_owns'', edge_schema, edge_columns owns_edges),
      (''edges_contains'', edge_schema, edge_columns contains_edges),
      (''edges_has_cost'', edge_schema, edge_columns has_cost_edges)]"

lemma res_map_bind: "res_map f (res_bind m k) = res_bind m (\<lambda>x. res_map f (k x))"
  by (cases m) simp_all

lemma demo_tables_writable: "list_all writable demo_tables"
  by (simp add: demo_tables_def writable_def account_schema_def resource_schema_def cost_schema_def edge_schema_def
      column_fits_def rows_of_def)

lemma ingest_Ok:
  assumes "stores_tables K" "\<forall>name. table_absent K s name"
  obtains u where "ingest K s = Ok (u, hm_collect (map (\<lambda>(i, name, ty, region). (i, name)) resources))"
    "list_all (written K u) demo_tables"
proof -
  have "distinct (map fst demo_tables)" by (simp add: demo_tables_def)
  then obtain u where u: "fold_res (write_columns K) s demo_tables = Ok u" "list_all (written K u) demo_tables"
    using write_all [OF assms(1), of demo_tables s] demo_tables_writable assms(2) by (auto simp: list.pred_True)
  have "ingest K s = res_map (\<lambda>u. (u, hm_collect (map (\<lambda>(i, name, ty, region). (i, name)) resources)))
      (fold_res (write_columns K) s demo_tables)"
    by (simp add: ingest_def demo_tables_def write_columns_def demo_table_names account_batch_def resource_batch_def
        cost_batch_def edge_batch_def res_map_bind)
  with u that show thesis by simp
qed

lemma demo_edge_types: "map snd (sorted_list_of_fmap (sch_edges demo_schema)) =
    [demo_edge_def ''CONTAINS'' ''Resource'' ''Resource'', demo_edge_def ''HAS_COST'' ''Resource'' ''CostRecord'',
     demo_edge_def ''OWNS'' ''CloudAccount'' ''Resource'']"
  by (simp add: sorted_list_of_fmap_def sorted_list_of_fset.rep_eq demo_schema_def less_eq_EdgeType_def)

lemma demo_tables_hold:
  assumes "list_all (written K u) demo_tables"
  shows "list_all (\<lambda>(l, rows). holds_nodes K u demo_schema l rows)
      [(Label ''CloudAccount'', map account_row [(1, ''123456789012'', ''aws'')]),
       (Label ''Resource'', map resource_row resources), (Label ''CostRecord'', map cost_row costs)]"
    and "list_all (\<lambda>(ed, rows). holds_edges K u demo_schema ed rows)
      [(demo_edge_def ''CONTAINS'' ''Resource'' ''Resource'', map plain_edge contains_edges),
       (demo_edge_def ''HAS_COST'' ''Resource'' ''CostRecord'', map plain_edge has_cost_edges),
       (demo_edge_def ''OWNS'' ''CloudAccount'' ''Resource'', map plain_edge owns_edges)]"
proof -
  have nodes: "holds_nodes K u demo_schema l (column_nodes nd columns)"
    if "(node_table_name l, sch, columns) \<in> set demo_tables" "node_def demo_schema l = Some nd" "describes_nodes nd sch"
    for l nd sch columns
    using holds_written(1) [of K u "node_table_name l" sch columns l demo_schema nd] that assms demo_tables_writable
    by (simp add: list_all_iff)
  have edges: "holds_edges K u demo_schema ed (map plain_edge es)"
    if "(edge_table_name (ed_edge_type ed), edge_schema, edge_columns es) \<in> set demo_tables"
      "edge_def demo_schema (ed_edge_type ed) = Some ed" "ed_properties ed = []" for ed es
    using holds_written(2) [of K u "edge_table_name (ed_edge_type ed)" edge_schema "edge_columns es" ed demo_schema]
      column_edges_plain [OF that(3), of es] that assms demo_tables_writable
    by (simp add: list_all_iff describes_edges_def edge_schema_def)
  note shape = demo_tables_def demo_table_names node_def_def edge_def_def demo_schema_def describes_nodes_def field_of_def
    account_def_def resource_def_def cost_def_def account_schema_def resource_schema_def cost_schema_def demo_edge_def_def
  have "holds_nodes K u demo_schema (Label ''CloudAccount'') (map account_row [(1, ''123456789012'', ''aws'')])"
    unfolding demo_node_rows(1) [symmetric] by (rule nodes [where sch = account_schema]) (simp_all add: shape)
  moreover have "holds_nodes K u demo_schema (Label ''Resource'') (map resource_row resources)"
    unfolding demo_node_rows(2) [symmetric] by (rule nodes [where sch = resource_schema]) (simp_all add: shape)
  moreover have "holds_nodes K u demo_schema (Label ''CostRecord'') (map cost_row costs)"
    unfolding demo_node_rows(3) [symmetric] by (rule nodes [where sch = cost_schema]) (simp_all add: shape)
  ultimately show "list_all (\<lambda>(l, rows). holds_nodes K u demo_schema l rows)
      [(Label ''CloudAccount'', map account_row [(1, ''123456789012'', ''aws'')]),
       (Label ''Resource'', map resource_row resources), (Label ''CostRecord'', map cost_row costs)]" by simp
  show "list_all (\<lambda>(ed, rows). holds_edges K u demo_schema ed rows)
      [(demo_edge_def ''CONTAINS'' ''Resource'' ''Resource'', map plain_edge contains_edges),
       (demo_edge_def ''HAS_COST'' ''Resource'' ''CostRecord'', map plain_edge has_cost_edges),
       (demo_edge_def ''OWNS'' ''CloudAccount'' ''Resource'', map plain_edge owns_edges)]"
    by (simp, intro conjI edges) (simp_all add: shape)
qed

lemma demo_read:
  assumes "list_all (written K u) demo_tables" "ib_schema B = demo_schema"
    and "ib_reader B = IcebergCatalogReader (ic_arrow K) (ic_tables K u)"
  shows "read_tables B [Label ''CloudAccount'', Label ''Resource'', Label ''CostRecord''] = Ok demo_data"
  using read_written [OF assms(3), unfolded assms(2), OF demo_tables_hold [OF assms(1)]]
  by (simp add: demo_edge_types demo_data_def) (simp add: demo_edge_def_def comp_def)

section \<open>The texts, parsed\<close>

lemma demo_schema_parsed:
  assumes "schema_pest SCHEMA_IDL = Ok [demo_idl_tree]"
  shows "schema_parse schema_pest SCHEMA_IDL = Ok demo_schema"
  by (simp add: schema_parse_def assms demo_idl_tree_def expect_def parse_type_decl_def
      parse_node_decl_def parse_edge_decl_def parse_edge_part_def field_label_def parse_property_decl_def
      parse_property_part_def parse_scalar_type.simps parse_simple_type_def
      demo_schema_def account_def_def resource_def_def cost_def_def demo_edge_def_def check_endpoints_def
      sorted_list_of_fmap_def sorted_list_of_fset.rep_eq less_eq_EdgeType_def)

definition demo_query :: Query where
  "demo_query =
     \<lparr>q_pattern =
        [StepNode \<lparr>np_alias = ''a'', np_label = Some (Label ''CloudAccount''),
           np_property_filters = [\<lparr>pf_property = ''account_id'', pf_op = Eq, pf_value = LString ''123456789012''\<rparr>]\<rparr>,
         StepEdge \<lparr>ep_alias = None, ep_edge_type = Some (EdgeType ''OWNS''), ep_direction = Outgoing,
           ep_hops = \<lparr>hr_min = 1, hr_max = 1\<rparr>\<rparr>,
         StepNode \<lparr>np_alias = ''vpc'', np_label = Some (Label ''Resource''), np_property_filters = []\<rparr>,
         StepEdge \<lparr>ep_alias = None, ep_edge_type = Some (EdgeType ''CONTAINS''), ep_direction = Outgoing,
           ep_hops = \<lparr>hr_min = 1, hr_max = 3\<rparr>\<rparr>,
         StepNode \<lparr>np_alias = ''r'', np_label = Some (Label ''Resource''), np_property_filters = []\<rparr>,
         StepEdge \<lparr>ep_alias = None, ep_edge_type = Some (EdgeType ''HAS_COST''), ep_direction = Outgoing,
           ep_hops = \<lparr>hr_min = 1, hr_max = 1\<rparr>\<rparr>,
         StepNode \<lparr>np_alias = ''c'', np_label = Some (Label ''CostRecord''), np_property_filters = []\<rparr>],
      q_where_conditions = [WProperty ''c'' \<lparr>pf_property = ''amount_usd'', pf_op = Gt, pf_value = LInt64 100\<rparr>],
      q_returns = [\<lparr>ri_alias = ''r'', ri_property = None\<rparr>],
      q_order_by = None, q_limit = None\<rparr>"

definition demo_hop :: "string \<Rightarrow> string \<Rightarrow> string \<Rightarrow> string \<Rightarrow> u32 \<Rightarrow> PropertyFilter list \<Rightarrow> ExpandHopStep" where
  "demo_hop from_alias to_alias label edge_type hops filters =
     \<lparr>eh_from_alias = from_alias, eh_to_alias = to_alias, eh_to_label = Some label, eh_edge_type = Some edge_type,
      eh_direction = Outgoing, eh_hops = \<lparr>hr_min = 1, hr_max = hops\<rparr>, eh_filters = filters, eh_edge_alias = None\<rparr>"

definition demo_plan :: QueryPlan where
  "demo_plan =
     \<lparr>qp_steps =
        [ResolveStart ''a'' ''CloudAccount'' ''account_id'' (KString ''123456789012''),
         ExpandHop (demo_hop ''a'' ''vpc'' ''Resource'' ''OWNS'' 1 []),
         ExpandHop (demo_hop ''vpc'' ''r'' ''Resource'' ''CONTAINS'' 3 []),
         ExpandHop (demo_hop ''r'' ''c'' ''CostRecord'' ''HAS_COST'' 1
           [\<lparr>pf_property = ''amount_usd'', pf_op = Gt, pf_value = LInt64 100\<rparr>])],
      qp_project = [\<lparr>ri_alias = ''r'', ri_property = None\<rparr>]\<rparr>"

lemma demo_numbers:
  "parse_u32 ''1'' = Some 1" "parse_u32 ''3'' = Some 3" "parse_i64 ''100'' = Some 100"
  by (simp_all add: parse_u32_def parse_i64_def parse_unsigned_def is_ascii_digit_def digit_val_def Let_def)

lemma demo_query_parsed:
  assumes "pest DEMO_QUERY = Ok [demo_query_tree]"
  shows "parse pest DEMO_QUERY = Ok demo_query"
  by (simp add: parse_def assms demo_query_tree_def parse_query_part_def parse_pattern_def
      parse_node_pattern_def parse_property_map_def parse_literal_def unquote_def parse_edge_pattern_def
      parse_edge_detail_part_def parse_hop_range_def demo_numbers expect_def parse_where_clause.simps
      parse_where_condition.simps parse_property_condition_def parse_comparison_op_def
      parse_return_clause_def parse_return_item_def demo_query_def)

lemma demo_query_valid: "validate demo_query demo_schema = Ok ()"
  by (simp add: validate_def demo_query_def demo_schema_def account_def_def resource_def_def cost_def_def
      demo_edge_def_def validate_node_pattern_def
      validate_edge_pattern_def bind_pattern_node_def bind_edge_type_def node_def_def edge_def_def
      validate_property_ref_def validate_node_property_filter_def validate_property_def
      validate_return_item_def empty_scope_def)

lemma demo_query_planned: "plan demo_query = Ok demo_plan"
  by (simp add: plan_def demo_query_def demo_plan_def demo_hop_def resolve_start_or_all_step_def
      start_filter_def where_filters_def where_filter_on_def List.map_filter_simps not_exists_of_def
      expand_step_def)

section \<open>The plan on the dataset\<close>

lemma demo_plan_local: "wf_plan (qp_steps demo_plan)" "index_plan demo_data (qp_steps demo_plan)"
proof -
  show "wf_plan (qp_steps demo_plan)" by (simp add: demo_plan_def demo_hop_def)
  have "index_answers demo_data ''CostRecord'' \<lparr>pf_property = ''amount_usd'', pf_op = Gt, pf_value = LInt64 100\<rparr>"
    by (simp add: index_answers_def indexed_property_def node_def_def demo_data_def demo_schema_def cost_def_def
        account_row_def resource_row_def cost_row_def resources_def costs_def hm_collect_def)
  then show "index_plan demo_data (qp_steps demo_plan)"
    by (simp add: index_plan_def index_step_def demo_plan_def demo_hop_def)
qed

lemma wf_demo_data: "wf_dataset demo_data"
  by (simp add: wf_dataset_def demo_data_def ds_ids_def index_bounds_def account_row_def resource_row_def cost_row_def
      plain_edge_def resources_def costs_def contains_edges_def has_cost_edges_def owns_edges_def)

definition vpc_binding :: Binding where
  "vpc_binding = bind_node ''vpc'' (NodeId 2) (binding_from_node ''a'' (NodeId 1))"

definition cost_binding :: "u64 \<Rightarrow> u64 \<Rightarrow> Binding" where
  "cost_binding r c = bind_node ''c'' (NodeId c) (bind_node ''r'' (NodeId r) vpc_binding)"

lemma demo_links:
  "links demo_data Outgoing (Some ''OWNS'') (NodeId 1) = [(EdgeId 1000, NodeId 2)]"
  "links demo_data Outgoing (Some ''CONTAINS'') (NodeId i) =
     (if i = 2 then [(EdgeId 1001, NodeId 3), (EdgeId 1002, NodeId 8)]
      else if i = 3 then [(EdgeId 1003, NodeId 4), (EdgeId 1004, NodeId 5)]
      else if i = 4 then [(EdgeId 1005, NodeId 6)] else if i = 6 then [(EdgeId 1006, NodeId 7)] else [])"
  "links demo_data Outgoing (Some ''HAS_COST'') (NodeId i) =
     (if i = 3 then [(EdgeId 1007, NodeId 101)] else if i = 4 then [(EdgeId 1008, NodeId 102)]
      else if i = 5 then [(EdgeId 1009, NodeId 103)] else if i = 6 then [(EdgeId 1010, NodeId 104)]
      else if i = 7 then [(EdgeId 1011, NodeId 105)] else if i = 8 then [(EdgeId 1012, NodeId 106)] else [])"
  by (simp_all add: links_def demo_data_def contains_edges_def has_cost_edges_def owns_edges_def plain_edge_def
      edge_owner_def edge_far_def edge_type_is_def)

lemma demo_single_hop:
  assumes "fmlookup (b_nodes b) from_alias = Some m"
  shows "spec_hop D up (demo_hop from_alias to_alias label ty 1 fs) b =
    (if up m then (\<lambda>n. bind_node to_alias n b) ` snd ` set (links D Outgoing (Some ty) m) else {})"
  using assms by (auto simp: spec_hop_def demo_hop_def hop_depths_def)

lemma demo_costs:
  "spec_passes demo_data (\<lambda>_. True) rfc (demo_hop a ''c'' l t 1 [\<lparr>pf_property = ''amount_usd'', pf_op = Gt, pf_value = LInt64 100\<rparr>])
     (cost_binding r c) \<longleftrightarrow> c \<in> {102, 105, 106}"
  by (simp add: spec_passes_def demo_hop_def cost_binding_def node_rec_def demo_data_def node_record_entry_def
      account_row_def resource_row_def cost_row_def resources_def costs_def hm_collect_def evaluate_filter_def
      literal_matches_def literal_ordering_def)

lemma demo_meaning:
  "spec_plan demo_data (\<lambda>_. True) rfc (qp_steps demo_plan) = {cost_binding 4 102, cost_binding 8 106}"
proof -
  let ?up = "\<lambda>_ :: NodeId. True"
  let ?owns = "demo_hop ''a'' ''vpc'' ''Resource'' ''OWNS'' 1 []"
    and ?contains = "demo_hop ''vpc'' ''r'' ''Resource'' ''CONTAINS'' 3 []"
    and ?cost = "demo_hop ''r'' ''c'' ''CostRecord'' ''HAS_COST'' 1
      [\<lparr>pf_property = ''amount_usd'', pf_op = Gt, pf_value = LInt64 100\<rparr>]"
  have start: "start_matches demo_data ''CloudAccount'' ''account_id'' (KString ''123456789012'') = {NodeId 1}"
    by (auto simp: start_matches_def indexed_property_def row_has_key_def node_def_def demo_data_def demo_schema_def
        account_def_def account_row_def hm_collect_def)
  have owns: "spec_expand demo_data ?up rfc ?owns {binding_from_node ''a'' (NodeId 1)} = {vpc_binding}"
    by (auto simp: spec_expand_def demo_single_hop demo_links vpc_binding_def spec_passes_def)
      (simp_all add: demo_hop_def)
  have depths: "hop_depths \<lparr>hr_min = 1, hr_max = 3\<rparr> = [1, 2, 3]" by (simp add: hop_depths_def upt_rec)
  have "walk_ends demo_data ?up ?contains (Suc 0) (NodeId 2) = {NodeId 3, NodeId 8}"
    "walk_ends demo_data ?up ?contains (Suc (Suc 0)) (NodeId 2) = {NodeId 4, NodeId 5}"
    "walk_ends demo_data ?up ?contains (Suc (Suc (Suc 0))) (NodeId 2) = {NodeId 6}"
    by (simp_all add: demo_links demo_hop_def)
  then have walks: "walk_ends demo_data ?up ?contains 1 (NodeId 2) = {NodeId 3, NodeId 8}"
    "walk_ends demo_data ?up ?contains 2 (NodeId 2) = {NodeId 4, NodeId 5}"
    "walk_ends demo_data ?up ?contains 3 (NodeId 2) = {NodeId 6}"
    by (simp_all only: One_nat_def numeral_2_eq_2 numeral_3_eq_3)
  have hops: "eh_hops ?contains = \<lparr>hr_min = 1, hr_max = 3\<rparr>" "eh_from_alias ?contains = ''vpc''"
    "eh_to_alias ?contains = ''r''" "eh_edge_alias ?contains = None" "eh_filters ?contains = []"
    "eh_direction ?contains = Outgoing" "eh_edge_type ?contains = Some ''CONTAINS''"
    by (simp_all add: demo_hop_def)
  have at_vpc: "fmlookup (b_nodes vpc_binding) ''vpc'' = Some (NodeId 2)" by (simp add: vpc_binding_def)
  have "set (filter (\<lambda>d. unat (hr_min \<lparr>hr_min = 1, hr_max = 3\<rparr>) \<le> d) [1, 2, 3]) = {1, 2, 3}" by auto
  then have "spec_hop demo_data ?up ?contains vpc_binding =
      (\<lambda>n. bind_node ''r'' n vpc_binding) ` (walk_ends demo_data ?up ?contains 1 (NodeId 2) \<union>
        walk_ends demo_data ?up ?contains 2 (NodeId 2) \<union> walk_ends demo_data ?up ?contains 3 (NodeId 2))"
    unfolding spec_hop_def hops depths at_vpc option.case by (simp only: simp_thms if_True) blast
  then have contains: "spec_expand demo_data ?up rfc ?contains {vpc_binding} =
      (\<lambda>r. bind_node ''r'' (NodeId r) vpc_binding) ` {3, 8, 4, 5, 6}"
    unfolding spec_expand_def spec_passes_def hops walks by auto
  have cost: "spec_hop demo_data ?up ?cost (bind_node ''r'' (NodeId r) vpc_binding) =
      (\<lambda>n. bind_node ''c'' n (bind_node ''r'' (NodeId r) vpc_binding)) `
        snd ` set (links demo_data Outgoing (Some ''HAS_COST'') (NodeId r))" for r
    by (subst demo_single_hop [where m = "NodeId r"]) simp_all
  have "spec_expand demo_data ?up rfc ?cost ((\<lambda>r. bind_node ''r'' (NodeId r) vpc_binding) ` {3, 8, 4, 5, 6}) =
      {b \<in> {cost_binding 3 101, cost_binding 8 106, cost_binding 4 102, cost_binding 5 103, cost_binding 6 104}.
        spec_passes demo_data ?up rfc ?cost b}"
    by (simp add: spec_expand_def cost demo_links flip: cost_binding_def) blast
  also have "\<dots> = {cost_binding 4 102, cost_binding 8 106}"
    using demo_costs by auto
  finally show ?thesis by (simp add: demo_plan_def start owns contains)
qed

section \<open>The run\<close>

text \<open>One partition holds every row of the scan, which the counts of its generation say.\<close>

lemma assemble_counts:
  assumes "assemble h schema 1 now (PartitionId 0) snaps nodes edges = (Ok g :: ('e, _) res)"
  shows "gm_node_count (ig_meta g) = of_nat (length nodes)" "gm_edge_count (ig_meta g) = of_nat (length edges)"
proof -
  have owned: "owned_by h 1 (PartitionId 0) n = (Ok True :: ('e, bool) res)" for n
    by (simp add: owned_by_def partition_of_Ok)
  have all: "retain_res (\<lambda>(_, row). owned_by h 1 (PartitionId 0) (f row)) xs = (Ok xs :: ('e, _) res)" for f xs
    by (induction xs) (simp_all add: owned split_beta)
  show "gm_node_count (ig_meta g) = of_nat (length nodes)" "gm_edge_count (ig_meta g) = of_nat (length edges)"
    using assms by (auto simp: assemble_def all res_bind_Ok_iff)
qed

lemma demo_build:
  assumes "list_all (written K u) demo_tables" "ib_schema B = demo_schema" "ib_n_partitions B = 1"
    and "ib_reader B = IcebergCatalogReader (ic_arrow K) (ic_tables K u)"
  obtains g where "build h now B (PartitionId 0) [Label ''CloudAccount'', Label ''Resource'', Label ''CostRecord''] = Ok g"
    "built_for h 1 demo_data (PartitionId 0) g" "gm_node_count (ig_meta g) = 14" "gm_edge_count (ig_meta g) = 13"
proof -
  obtain snaps where b: "\<And>h now part. build h now B part [Label ''CloudAccount'', Label ''Resource'', Label ''CostRecord''] =
      assemble h demo_schema 1 now part snaps (ds_nodes demo_data) (ds_edges demo_data)"
    using build_read [OF demo_read [OF assms(1,2,4)]] assms(3) by (auto simp: demo_data_def)
  obtain g where g: "assemble h demo_schema 1 now (PartitionId 0) snaps (ds_nodes demo_data) (ds_edges demo_data) =
      (Ok g :: (RebuildError, _) res)"
    by (rule assemble_Ok [where np = 1]) (use wf_demo_data in \<open>auto simp: wf_dataset_def\<close>)
  have "built_for h 1 demo_data (PartitionId 0) g"
    using g unfolding built_for_def by (auto simp: demo_data_def)
  moreover have "gm_node_count (ig_meta g) = 14" "gm_edge_count (ig_meta g) = 13"
    using assemble_counts [OF g]
    by (simp_all add: demo_data_def resources_def costs_def contains_edges_def has_cost_edges_def owns_edges_def)
  ultimately show thesis using that g b by simp
qed

lemma demo_ids: "show_nat 4 = ''4''" "show_nat 8 = ''8''"
  by (simp_all add: show_nat.simps digit_char_def, code_simp+)

lemma demo_rows:
  assumes "set bs = {cost_binding 4 102, cost_binding 8 106}"
  shows "\<exists>rows. collect_res (demo_row (hm_collect (map (\<lambda>(i, name, ty, region). (i, name)) resources)) ''r'') bs = Ok rows \<and>
    set rows = {''   - i-checkout-api-1 (NodeId(4))'', ''   - rds-orders-db (NodeId(8))''}"
proof -
  let ?names = "hm_collect (map (\<lambda>(i, name, ty, region). (i, name)) resources)"
  have row: "demo_row ?names ''r'' (cost_binding 4 102) = Ok ''   - i-checkout-api-1 (NodeId(4))''"
    "demo_row ?names ''r'' (cost_binding 8 106) = Ok ''   - rds-orders-db (NodeId(8))''"
    by (simp_all add: demo_row_def cost_binding_def expect_def hm_collect_def resources_def demo_ids)
  let ?show = "\<lambda>b. if b = cost_binding 4 102 then ''   - i-checkout-api-1 (NodeId(4))''
    else ''   - rds-orders-db (NodeId(8))''"
  have "collect_res (demo_row ?names ''r'') bs = Ok (map ?show bs)"
    using assms row by (intro collect_res_Ok_all) auto
  moreover have "cost_binding 8 106 \<noteq> cost_binding 4 102"
  proof
    assume "cost_binding 8 106 = cost_binding 4 102"
    then have "fmlookup (b_nodes (cost_binding 8 106)) ''r'' = fmlookup (b_nodes (cost_binding 4 102)) ''r''" by simp
    then show False by (simp add: cost_binding_def)
  qed
  ultimately show ?thesis using assms by (intro exI [of _ "map ?show bs"]) auto
qed

lemma demo_run:
  assumes "stores_tables (dw_crate W)" "dw_catalog W = Ok s" "\<forall>name. table_absent (dw_crate W) s name"
    and "valid_hash_order (dw_order W)"
    and "dw_schema_pest W SCHEMA_IDL = Ok [demo_idl_tree]" "dw_pest W DEMO_QUERY = Ok [demo_query_tree]"
  shows "\<exists>rows. demo_main W = Ok (14, 13, rows) \<and>
    set rows = {''   - i-checkout-api-1 (NodeId(4))'', ''   - rds-orders-db (NodeId(8))''}"
proof -
  obtain u where u: "ingest (dw_crate W) s = Ok (u, hm_collect (map (\<lambda>(i, name, ty, region). (i, name)) resources))"
    "list_all (written (dw_crate W) u) demo_tables"
    by (rule ingest_Ok [OF assms(1,3)])
  let ?B = "\<lparr>ib_reader = IcebergCatalogReader (ic_arrow (dw_crate W)) (ic_tables (dw_crate W) u),
    ib_schema = demo_schema, ib_n_partitions = 1\<rparr>"
  obtain g where g: "build (dw_hash W) (dw_now W) ?B (PartitionId 0)
      [Label ''CloudAccount'', Label ''Resource'', Label ''CostRecord''] = Ok g"
    "built_for (dw_hash W) 1 demo_data (PartitionId 0) g"
    "gm_node_count (ig_meta g) = 14" "gm_edge_count (ig_meta g) = 13"
    by (rule demo_build [OF u(2), of ?B "dw_hash W" "dw_now W"]) simp_all
  obtain bs where bs: "run_steps (dw_order W) g (qp_steps demo_plan) = Ok bs"
    "set bs = {cost_binding 4 102, cost_binding 8 106}"
    using run_steps_means [OF wf_demo_data g(2) assms(4) demo_plan_local(2,1)] demo_meaning by auto
  obtain rows where rows: "collect_res (demo_row (hm_collect (map (\<lambda>(i, name, ty, region). (i, name)) resources)) ''r'') bs =
      (Ok rows :: (DemoError, _) res)"
    "set rows = {''   - i-checkout-api-1 (NodeId(4))'', ''   - rds-orders-db (NodeId(8))''}"
    using demo_rows [OF bs(2)] by blast
  note parsed = demo_schema_parsed [of "dw_schema_pest W", OF assms(5)] demo_query_parsed [of "dw_pest W", OF assms(6)]
  have "qp_project demo_plan = [\<lparr>ri_alias = ''r'', ri_property = None\<rparr>]" by (simp add: demo_plan_def)
  then have "demo_main W = Ok (14, 13, rows)"
    by (simp add: demo_main_def assms(2) parsed u(1) g(1,3,4) demo_query_valid demo_query_planned bs(1) rows(1))
  with rows(2) show ?thesis by blast
qed

end
