(* ===== verification/Sample_Demo.thy ===== *)
theory Sample_Demo
  imports Sample_Cluster Demo
begin

text \<open>
  A crate for the demo's witnesses, in which an array is its column and the catalog a map from table names
  to what was appended, and a world that accepts the demo's two texts.
\<close>

section \<open>The crate\<close>

definition column_arrow :: "Column arrow_ops" where
  "column_arrow =
     \<lparr>arr_is_null = (\<lambda>_ _. False), arr_len = column_length,
      as_Int64Array = (\<lambda>a. case a of Longs xs \<Rightarrow> Some (\<lambda>i. xs ! i) | _ \<Rightarrow> None),
      as_Float64Array = (\<lambda>_. None),
      as_BooleanArray = (\<lambda>a. case a of Bools xs \<Rightarrow> Some (\<lambda>i. xs ! i) | _ \<Rightarrow> None),
      as_StringArray = (\<lambda>a. case a of Strings xs \<Rightarrow> Some (\<lambda>i. xs ! i) | _ \<Rightarrow> None),
      as_TimestampMicrosecondArray = (\<lambda>a. case a of Stamps xs \<Rightarrow> Some (\<lambda>i. xs ! i) | _ \<Rightarrow> None),
      as_BinaryArray = (\<lambda>_. None), as_ListArray = (\<lambda>_. None)\<rparr>"

type_synonym SampleStore = "string \<Rightarrow> Column RecordBatch option option"

definition sample_crate :: "(SampleStore, Column) IcebergCrate" where
  "sample_crate =
     \<lparr>ic_int64_array = Longs, ic_string_array = Strings, ic_boolean_array = Bools, ic_timestamp_array = Stamps,
      ic_try_new = (\<lambda>schema arrays. case arrays of
          [] \<Rightarrow> Err ''must either specify a row count or at least one column''
        | a # _ \<Rightarrow> Ok \<lparr>column_by_name = map_of (zip (map (fst \<circ> snd) schema) arrays), num_rows = column_length a\<rparr>),
      ic_create_table = (\<lambda>name schema s. if s name = None then Ok (s(name \<mapsto> None)) else Err ''table exists''),
      ic_append = (\<lambda>name b s. Ok (s(name \<mapsto> Some b))),
      ic_tables = (\<lambda>s. \<lparr>cat_load_table = (\<lambda>name. if s name = None then Err ''no such table'' else Ok name),
        cat_current_snapshot = (\<lambda>t. case s t of Some (Some b) \<Rightarrow> Some 1 | _ \<Rightarrow> None),
        cat_scan = (\<lambda>t _. case s t of Some (Some b) \<Rightarrow> Ok [Ok b] | _ \<Rightarrow> Ok [])\<rparr>),
      ic_arrow = column_arrow\<rparr>"

lemma sample_crate_sel [simp]:
  "column_array sample_crate c = c" "ic_arrow sample_crate = column_arrow"
  "ic_append sample_crate name b s = Ok (s(name \<mapsto> Some b))"
  by (cases c; simp add: sample_crate_def) (simp_all add: sample_crate_def)

lemma column_reads_itself: "column_reads sample_crate n c c"
  by (cases c) (auto simp: column_arrow_def)

lemma column_fits_length: "column_fits n f c \<Longrightarrow> column_length c = n"
  by (simp add: column_fits_def)

lemma sample_table_absent: "table_absent sample_crate s name \<longleftrightarrow> s name = None"
  by (simp add: table_absent_def sample_crate_def)

lemma sample_table_holds: "table_holds sample_crate s name b \<longleftrightarrow> s name = Some (Some b)"
  by (auto simp: table_holds_def sample_crate_def split: option.splits)

lemma sample_batch_reads:
  assumes "columns \<noteq> []" "distinct (map (fst \<circ> snd) schema)" "list_all2 (column_fits n) schema columns"
  shows "\<exists>b. ic_try_new sample_crate schema (map (column_array sample_crate) columns) = Ok b \<and>
    batch_reads sample_crate schema columns n b"
proof -
  have arrays: "map (column_array sample_crate) columns = columns" by (rule map_idI) simp
  let ?b = "\<lparr>column_by_name = map_of (zip (map (fst \<circ> snd) schema) columns), num_rows = n\<rparr>"
  have "ic_try_new sample_crate schema columns = Ok ?b"
    using assms(1,3) column_fits_length by (cases columns) (auto simp: sample_crate_def list_all2_Cons2)
  moreover have "list_all2 (\<lambda>(_, name, _) c. \<exists>a. column_by_name ?b name = Some a \<and> column_reads sample_crate n c a) schema columns"
  proof (rule list_all2_all_nthI)
    show len: "length schema = length columns" using assms(3) by (rule list_all2_lengthD)
    fix i assume i: "i < length schema"
    have "map_of (zip (map (fst \<circ> snd) schema) columns) (fst (snd (schema ! i))) = Some (columns ! i)"
      using map_of_zip_nth [of "map (fst \<circ> snd) schema" columns i] assms(2) len i by simp
    moreover have "column_reads sample_crate n (columns ! i) (columns ! i)"
      by (rule column_reads_itself)
    ultimately show "(\<lambda>(_, name, _) c. \<exists>a. column_by_name ?b name = Some a \<and> column_reads sample_crate n c a)
        (schema ! i) (columns ! i)"
      by (simp add: split_beta)
  qed
  ultimately show ?thesis by (auto simp: arrays batch_reads_def)
qed

lemma sample_table_written:
  assumes "table_absent sample_crate s name"
  shows "\<exists>t u. ic_create_table sample_crate name schema s = Ok t \<and> ic_append sample_crate name b t = Ok u \<and>
      table_holds sample_crate u name b \<and>
      (\<forall>m. m \<noteq> name \<longrightarrow> (\<forall>c. table_holds sample_crate s m c \<longrightarrow> table_holds sample_crate u m c) \<and>
        (table_absent sample_crate s m \<longrightarrow> table_absent sample_crate u m))"
proof -
  have "s name = None" using assms by (simp add: sample_table_absent)
  then have "ic_create_table sample_crate name schema s = Ok (s(name \<mapsto> None))" by (simp add: sample_crate_def)
  moreover have "ic_append sample_crate name b (s(name \<mapsto> None)) = Ok (s(name \<mapsto> Some b))" by simp
  ultimately show ?thesis
    by (intro exI [of _ "s(name \<mapsto> None)"] exI [of _ "s(name \<mapsto> Some b)"])
      (simp add: sample_table_holds sample_table_absent)
qed

lemma sample_crate_stores: "stores_tables sample_crate"
  unfolding stores_tables_def using sample_batch_reads sample_table_written by simp

section \<open>The world\<close>

definition sample_demo_world :: "(SampleStore, Column) DemoWorld" where
  "sample_demo_world =
     \<lparr>dw_hash = (\<lambda>x. x), dw_order = insertion_order,
      dw_schema_pest = (\<lambda>s. if s = SCHEMA_IDL then Ok [demo_idl_tree] else Err ''expected schema_file''),
      dw_pest = (\<lambda>s. if s = DEMO_QUERY then Ok [demo_query_tree]
        else Err \<lparr>pe_location = Pos 0, pe_message = ''expected query''\<rparr>),
      dw_crate = sample_crate, dw_catalog = Ok (\<lambda>_. None), dw_now = 0\<rparr>"

lemma sample_demo_world_sel [simp]:
  "dw_order sample_demo_world = insertion_order" "dw_crate sample_demo_world = sample_crate"
  "dw_catalog sample_demo_world = Ok (\<lambda>_. None)"
  "dw_schema_pest sample_demo_world SCHEMA_IDL = Ok [demo_idl_tree]"
  "dw_pest sample_demo_world DEMO_QUERY = Ok [demo_query_tree]"
  by (simp_all add: sample_demo_world_def)

section \<open>The sample data in one process\<close>

lemma friends_plan_local: "index_plan sample_data (qp_steps friends_plan)"
proof -
  have "index_answers sample_data ''Person'' \<lparr>pf_property = ''birth_year'', pf_op = Gt, pf_value = LInt64 1990\<rparr>"
    by (simp add: index_answers_def indexed_property_def node_def_def sample_data_def sample_schema_def sample_node_def)
  then show ?thesis by (simp add: index_plan_def index_step_def friends_plan_def)
qed

end
