(* ===== verification/Ingest_Cloud_Cost.thy ===== *)
theory Ingest_Cloud_Cost
  imports Demo Configuration
begin

text \<open>
  \<open>examples/ingest-cloud-cost/src/main.rs\<close>: the ingestion of the cloud inventory into the catalog that a
  partition node reads. It writes five node and seven edge tables: the ones of the demo, with the posture
  columns and a generated fleet of workloads, and the roles, stores, grants and accesses of the fleet.
  Its copies of the demo's accounts, costs and hierarchy, and of \<open>edge_schema\<close>, \<open>edge_batch\<close> and
  \<open>write_table\<close>, are the definitions of \<open>Demo\<close> and \<open>Iceberg_Tables\<close>.
\<close>

section \<open>The fleet\<close>

type_synonym Workload = "i64 \<times> string \<times> string \<times> string \<times> bool \<times> i64"

definition hand_crafted :: "Workload list" where
  "hand_crafted =
     [(2, ''vpc-prod'', ''vpc'', ''us-east-1'', False, 0),
      (3, ''subnet-prod-a'', ''subnet'', ''us-east-1'', False, 0),
      (4, ''i-checkout-api-1'', ''ec2_instance'', ''us-east-1'', True, 94),
      (5, ''i-checkout-api-2'', ''ec2_instance'', ''us-east-1'', False, 94),
      (6, ''vol-checkout-api-1'', ''ebs_volume'', ''us-east-1'', False, 0),
      (7, ''snap-checkout-api-1'', ''ebs_snapshot'', ''us-east-1'', False, 0),
      (8, ''rds-orders-db'', ''rds_instance'', ''us-east-1'', True, 21)]"

definition role_groups :: "(i64 \<times> string \<times> nat \<times> bool) list" where
  "role_groups =
     [(201, ''i-checkout-api'', 393, True), (203, ''i-data-admin'', 200, True), (205, ''i-analytics'', 150, True),
      (206, ''i-batch-etl'', 150, True), (202, ''i-deploy'', 12, False), (204, ''i-rds-monitor'', 12, False),
      (207, ''i-web-frontend'', 12, False), (208, ''i-support-tools'', 13, False), (209, ''i-ci-runner'', 12, False),
      (210, ''i-sandbox'', 12, False)]"

definition pii_store_for_role :: "i64 \<Rightarrow> i64 option" where
  "pii_store_for_role role_id =
     (if role_id = 201 then Some 301 else if role_id = 203 then Some 301 else if role_id = 205 then Some 303
      else if role_id = 206 then Some 304 else None)"

text \<open>The variables of the generating loop.\<close>

record Fleet =
  fl_next_resource_id :: i64
  fl_resources :: "Workload list"
  fl_generated_workloads :: "(i64 \<times> i64) list"
  fl_generated_accessed :: "(i64 \<times> i64) list"

definition generate_workload :: "i64 \<Rightarrow> string \<Rightarrow> bool \<Rightarrow> nat \<Rightarrow> Fleet \<Rightarrow> nat \<Rightarrow> Fleet" where
  "generate_workload role_id prefix pii_capable start fleet i =
     (let id1 = fl_next_resource_id fleet in
      fleet\<lparr>fl_next_resource_id := id1 + 1,
        fl_resources := fl_resources fleet @
          [(id1, prefix @ ''-'' @ show_nat (start + i), ''ec2_instance'', ''us-east-1'', False, 0)],
        fl_generated_workloads := fl_generated_workloads fleet @ [(id1, role_id)],
        fl_generated_accessed := fl_generated_accessed fleet @
          (if pii_capable \<and> i mod 5 \<noteq> 0
           then (case pii_store_for_role role_id of Some store_id \<Rightarrow> [(id1, store_id)] | None \<Rightarrow> [])
           else [])\<rparr>)"

definition generate_group :: "Fleet \<Rightarrow> i64 \<times> string \<times> nat \<times> bool \<Rightarrow> Fleet" where
  "generate_group fleet = (\<lambda>(role_id, prefix, count, pii_capable).
     foldl (generate_workload role_id prefix pii_capable (if prefix = ''i-checkout-api'' then 3 else 1)) fleet [0..<count])"

definition generated_fleet :: Fleet where
  "generated_fleet = foldl generate_group
     \<lparr>fl_next_resource_id = 10000, fl_resources = hand_crafted, fl_generated_workloads = [],
      fl_generated_accessed = []\<rparr> role_groups"

section \<open>Roles, stores and edges\<close>

definition roles :: "(i64 \<times> string \<times> bool) list" where
  "roles =
     [(201, ''role-checkout-api'', False), (202, ''role-deploy'', False), (203, ''role-data-admin'', True),
      (204, ''role-rds-monitor'', False), (205, ''role-analytics'', False), (206, ''role-batch-etl'', False),
      (207, ''role-web-frontend'', False), (208, ''role-support-tools'', False), (209, ''role-ci-runner'', False),
      (210, ''role-sandbox'', False)]"

definition stores :: "(i64 \<times> string \<times> string) list" where
  "stores =
     [(301, ''s3-customer-exports'', ''pii''), (302, ''s3-ops-logs'', ''internal''),
      (303, ''s3-billing-records'', ''pii''), (304, ''s3-support-tickets'', ''pii''),
      (305, ''s3-build-artifacts'', ''internal''), (306, ''s3-terraform-state'', ''internal''),
      (307, ''s3-ci-cache'', ''internal''), (308, ''s3-app-logs'', ''internal''),
      (309, ''s3-metrics-export'', ''internal''), (310, ''s3-backup-staging'', ''internal'')]"

definition push_runs_as :: "(i64 \<times> i64 \<times> i64) list \<times> i64 \<Rightarrow> i64 \<times> i64 \<Rightarrow> (i64 \<times> i64 \<times> i64) list \<times> i64" where
  "push_runs_as = (\<lambda>(runs_as, next_edge_id) (resource_id, role_id).
     (runs_as @ [(next_edge_id, resource_id, role_id)], next_edge_id + 1))"

definition runs_as_loop :: "(i64 \<times> i64 \<times> i64) list \<times> i64" where
  "runs_as_loop =
     foldl push_runs_as ([(2000, 4, 201), (2001, 5, 201), (2002, 8, 204)], 100000) (fl_generated_workloads generated_fleet)"

definition can_assume :: "(i64 \<times> i64 \<times> i64) list" where
  "can_assume = [(2003, 201, 202), (2004, 202, 203)]"

definition can_read :: "(i64 \<times> i64 \<times> i64 \<times> string) list" where
  "can_read =
     [(2005, 203, 301, ''s3:GetObject''), (2006, 204, 302, ''s3:GetObject''), (2007, 201, 302, ''s3:GetObject''),
      (2008, 201, 301, ''s3:GetObject''), (2010, 205, 303, ''s3:GetObject''), (2011, 206, 304, ''s3:GetObject''),
      (2012, 202, 305, ''s3:GetObject''), (2013, 207, 306, ''s3:GetObject''), (2014, 208, 307, ''s3:GetObject''),
      (2015, 209, 308, ''s3:GetObject''), (2016, 210, 309, ''s3:GetObject'')]"

definition ACCESSED_LAST_SEEN :: i64 where
  "ACCESSED_LAST_SEEN = 1719792000000000"

text \<open>The ids, sources and destinations of the accesses, and the next edge id.\<close>

definition push_accessed ::
  "i64 list \<times> i64 list \<times> i64 list \<times> i64 \<Rightarrow> i64 \<times> i64 \<Rightarrow> i64 list \<times> i64 list \<times> i64 list \<times> i64" where
  "push_accessed = (\<lambda>(ids, srcs, dsts, next_edge_id) (resource_id, store_id).
     (ids @ [next_edge_id], srcs @ [resource_id], dsts @ [store_id], next_edge_id + 1))"

definition accessed_loop :: "i64 list \<times> i64 list \<times> i64 list \<times> i64" where
  "accessed_loop = foldl push_accessed ([2009], [4], [301], snd runs_as_loop) (fl_generated_accessed generated_fleet)"

section \<open>The tables\<close>

definition inventory_schema :: "NestedField list" where
  "inventory_schema =
     [(1, ''node_id'', PLong), (2, ''name'', PString), (3, ''resource_type'', PString), (4, ''region'', PString),
      (5, ''internet_facing'', PBoolean), (6, ''max_severity'', PLong)]"

definition inventory_batch :: "('s, 'arr) IcebergCrate \<Rightarrow> Workload list \<Rightarrow> (string, 'arr RecordBatch) res" where
  "inventory_batch K rs =
     ic_try_new K inventory_schema
       [ic_int64_array K (map (\<lambda>(i, name, ty, region, facing, severity). i) rs),
        ic_string_array K (map (\<lambda>(i, name, ty, region, facing, severity). name) rs),
        ic_string_array K (map (\<lambda>(i, name, ty, region, facing, severity). ty) rs),
        ic_string_array K (map (\<lambda>(i, name, ty, region, facing, severity). region) rs),
        ic_boolean_array K (map (\<lambda>(i, name, ty, region, facing, severity). facing) rs),
        ic_int64_array K (map (\<lambda>(i, name, ty, region, facing, severity). severity) rs)]"

definition role_schema :: "NestedField list" where
  "role_schema = [(1, ''node_id'', PLong), (2, ''role_name'', PString), (3, ''is_admin'', PBoolean)]"

definition role_batch :: "('s, 'arr) IcebergCrate \<Rightarrow> (string, 'arr RecordBatch) res" where
  "role_batch K =
     ic_try_new K role_schema
       [ic_int64_array K (map (\<lambda>(i, name, admin). i) roles), ic_string_array K (map (\<lambda>(i, name, admin). name) roles),
        ic_boolean_array K (map (\<lambda>(i, name, admin). admin) roles)]"

definition store_schema :: "NestedField list" where
  "store_schema = [(1, ''node_id'', PLong), (2, ''name'', PString), (3, ''classification'', PString)]"

definition store_batch :: "('s, 'arr) IcebergCrate \<Rightarrow> (string, 'arr RecordBatch) res" where
  "store_batch K =
     ic_try_new K store_schema
       [ic_int64_array K (map (\<lambda>(i, name, class). i) stores), ic_string_array K (map (\<lambda>(i, name, class). name) stores),
        ic_string_array K (map (\<lambda>(i, name, class). class) stores)]"

definition edge_schema_with :: "NestedField list \<Rightarrow> NestedField list" where
  "edge_schema_with extra_fields =
     [(1, ''edge_id'', PLong), (2, ''src_node_id'', PLong), (3, ''dst_node_id'', PLong)] @ extra_fields"

definition can_read_schema :: "NestedField list" where
  "can_read_schema = edge_schema_with [(4, ''action'', PString)]"

definition can_read_batch :: "('s, 'arr) IcebergCrate \<Rightarrow> (string, 'arr RecordBatch) res" where
  "can_read_batch K =
     ic_try_new K can_read_schema
       [ic_int64_array K (map (\<lambda>(i, src, dst, action). i) can_read),
        ic_int64_array K (map (\<lambda>(i, src, dst, action). src) can_read),
        ic_int64_array K (map (\<lambda>(i, src, dst, action). dst) can_read),
        ic_string_array K (map (\<lambda>(i, src, dst, action). action) can_read)]"

definition accessed_schema :: "NestedField list" where
  "accessed_schema = edge_schema_with [(4, ''action'', PString), (5, ''last_seen'', PTimestamp)]"

definition accessed_batch :: "('s, 'arr) IcebergCrate \<Rightarrow> (string, 'arr RecordBatch) res" where
  "accessed_batch K =
     (case accessed_loop of (ids, srcs, dsts, _) \<Rightarrow>
        let accessed_count = length ids in
        ic_try_new K accessed_schema
          [ic_int64_array K ids, ic_int64_array K srcs, ic_int64_array K dsts,
           ic_string_array K (replicate accessed_count ''s3:GetObject''),
           ic_timestamp_array K (replicate accessed_count ACCESSED_LAST_SEEN)])"

definition ingest_inventory :: "('s, 'arr) IcebergCrate \<Rightarrow> 's \<Rightarrow> (string, 's) res" where
  "ingest_inventory K s =
     res_bind (ingest_table K (node_table_name (Label ''CloudAccount'')) account_schema (account_batch K) s) (\<lambda>s.
     res_bind (ingest_table K (node_table_name (Label ''Resource'')) inventory_schema
                 (inventory_batch K (fl_resources generated_fleet)) s) (\<lambda>s.
     res_bind (ingest_table K (node_table_name (Label ''CostRecord'')) cost_schema (cost_batch K) s) (\<lambda>s.
     res_bind (ingest_table K (node_table_name (Label ''IAMRole'')) role_schema (role_batch K) s) (\<lambda>s.
     res_bind (ingest_table K (node_table_name (Label ''DataStore'')) store_schema (store_batch K) s) (\<lambda>s.
     res_bind (ingest_table K (edge_table_name (EdgeType ''OWNS'')) edge_schema (edge_batch K owns_edges) s) (\<lambda>s.
     res_bind (ingest_table K (edge_table_name (EdgeType ''CONTAINS'')) edge_schema (edge_batch K contains_edges) s) (\<lambda>s.
     res_bind (ingest_table K (edge_table_name (EdgeType ''HAS_COST'')) edge_schema (edge_batch K has_cost_edges) s) (\<lambda>s.
     res_bind (ingest_table K (edge_table_name (EdgeType ''RUNS_AS'')) edge_schema
                 (edge_batch K (fst runs_as_loop)) s) (\<lambda>s.
     res_bind (ingest_table K (edge_table_name (EdgeType ''CAN_ASSUME'')) edge_schema (edge_batch K can_assume) s) (\<lambda>s.
     res_bind (ingest_table K (edge_table_name (EdgeType ''CAN_READ'')) can_read_schema (can_read_batch K) s) (\<lambda>s.
     ingest_table K (edge_table_name (EdgeType ''ACCESSED'')) accessed_schema (accessed_batch K) s)))))))))))"

section \<open>The program\<close>

text \<open>
  What \<open>main\<close> finds outside: the environment, the file system's three calls (the two removals' results are
  ignored), the catalog crate, and, for an opened catalog and a namespace, the crates that write its tables.
\<close>

record ('s, 'c, 'arr) IngestWorld =
  iw_env :: "string \<Rightarrow> string option"
  iw_remove_file :: "string \<Rightarrow> 's \<Rightarrow> 's"
  iw_remove_dir_all :: "string \<Rightarrow> 's \<Rightarrow> 's"
  iw_create_dir_all :: "string \<Rightarrow> 's \<Rightarrow> (string, unit) res \<times> 's"
  iw_current_dir :: "(string, string) res"
  iw_sql :: "('s, 'c) sql_ops"
  iw_crate :: "'c \<Rightarrow> string \<Rightarrow> ('s, 'arr) IcebergCrate"

datatype IngestError = IngestIo string | IngestStorage StorageError | IngestTable string

definition ingest_main :: "('s, 'c, 'arr) IngestWorld \<Rightarrow> 's \<Rightarrow> (IngestError, 'c \<times> 's) res" where
  "ingest_main W s =
     (let catalog_db_path = env_or (iw_env W) ''GRAPH_CATALOG_DB_PATH'' ''./catalog.sqlite'';
          warehouse_path = env_or (iw_env W) ''GRAPH_WAREHOUSE_PATH'' ''./warehouse'';
          namespace = env_or (iw_env W) ''GRAPH_NAMESPACE'' ''graph'';
          s = iw_remove_dir_all W warehouse_path (iw_remove_file W catalog_db_path s);
          (created, s) = iw_create_dir_all W warehouse_path s in
      res_bind (map_err IngestIo created) (\<lambda>_.
      let (opened, s) = open_sql_catalog (iw_sql W) (iw_current_dir W) catalog_db_path warehouse_path namespace s in
      res_bind (map_err IngestStorage opened) (\<lambda>catalog.
      res_map (\<lambda>s. (catalog, s)) (map_err IngestTable (ingest_inventory (iw_crate W catalog namespace) s)))))"

end
