(* ===== verification/Cloud_Inventory.thy ===== *)
theory Cloud_Inventory
  imports Ingest_Cloud_Cost
begin

text \<open>
  What the ingestion of \<open>examples/ingest-cloud-cost\<close> leaves: the generated fleet in closed form, the schema
  of \<open>schema/cloud_cost.graphidl\<close>, and the dataset an index builder reads from the tables.
\<close>

section \<open>The fleet in closed form\<close>

text \<open>A workload of the fleet: its role, its prefix, its number in the group, and whether the group can read PII.\<close>

type_synonym Member = "i64 \<times> string \<times> nat \<times> bool"

definition members :: "Member list" where
  "members = concat (map (\<lambda>(role, prefix, count, pii). map (\<lambda>i. (role, prefix, i, pii)) [0..<count]) role_groups)"

definition member_name :: "Member \<Rightarrow> string" where
  "member_name = (\<lambda>(role, prefix, i, pii).
     prefix @ ''-'' @ show_nat ((if prefix = ''i-checkout-api'' then 3 else 1) + i))"

definition member_role :: "Member \<Rightarrow> i64" where
  "member_role = (\<lambda>(role, prefix, i, pii). role)"

text \<open>The store a member has accessed.\<close>

definition member_store :: "Member \<Rightarrow> i64 option" where
  "member_store = (\<lambda>(role, prefix, i, pii). if pii \<and> i mod 5 \<noteq> 0 then pii_store_for_role role else None)"

text \<open>The members with their resource ids.\<close>

definition numbered :: "i64 \<Rightarrow> 'a list \<Rightarrow> (i64 \<times> 'a) list" where
  "numbered first xs = zip (map (\<lambda>k. first + of_nat k) [0..<length xs]) xs"

definition generate_member :: "Fleet \<Rightarrow> Member \<Rightarrow> Fleet" where
  "generate_member fleet = (\<lambda>(role, prefix, i, pii).
     generate_workload role prefix pii (if prefix = ''i-checkout-api'' then 3 else 1) fleet i)"

lemma numbered_Nil [simp]: "numbered first [] = []"
  by (simp add: numbered_def)

lemma numbered_Cons [simp]: "numbered first (x # xs) = (first, x) # numbered (first + 1) xs"
  by (simp add: numbered_def map_upt_Suc add.assoc del: upt_Suc)

lemma length_numbered [simp]: "length (numbered first xs) = length xs"
  by (simp add: numbered_def)

lemma snd_numbered [simp]: "map snd (numbered first xs) = xs"
  by (simp add: numbered_def)

lemma generate_members:
  "foldl generate_member st ws =
     \<lparr>fl_next_resource_id = fl_next_resource_id st + of_nat (length ws),
      fl_resources = fl_resources st @ map (\<lambda>(i, w). (i, member_name w, ''ec2_instance'', ''us-east-1'', False, 0))
        (numbered (fl_next_resource_id st) ws),
      fl_generated_workloads = fl_generated_workloads st @
        map (\<lambda>(i, w). (i, member_role w)) (numbered (fl_next_resource_id st) ws),
      fl_generated_accessed = fl_generated_accessed st @
        List.map_filter (\<lambda>(i, w). map_option (\<lambda>s. (i, s)) (member_store w)) (numbered (fl_next_resource_id st) ws)\<rparr>"
proof (induction ws arbitrary: st)
  case (Cons w ws)
  obtain role prefix i pii where w: "w = (role, prefix, i, pii)" by (cases w)
  have "generate_member st w = st\<lparr>fl_next_resource_id := fl_next_resource_id st + 1,
      fl_resources := fl_resources st @ [(fl_next_resource_id st, member_name w, ''ec2_instance'', ''us-east-1'', False, 0)],
      fl_generated_workloads := fl_generated_workloads st @ [(fl_next_resource_id st, member_role w)],
      fl_generated_accessed := fl_generated_accessed st @
        (case member_store w of Some s \<Rightarrow> [(fl_next_resource_id st, s)] | None \<Rightarrow> [])\<rparr>"
    by (simp add: w generate_member_def generate_workload_def member_name_def member_role_def member_store_def Let_def)
  then show ?case
    by (simp add: Cons.IH List.map_filter_simps add.assoc split: option.split)
qed (simp add: List.map_filter_simps)

lemma generate_groups:
  "foldl generate_group st gs =
     foldl generate_member st
       (concat (map (\<lambda>(role, prefix, count, pii). map (\<lambda>i. (role, prefix, i, pii)) [0..<count]) gs))"
proof (induction gs arbitrary: st)
  case (Cons g gs)
  obtain role prefix count pii where g: "g = (role, prefix, count, pii)" by (cases g)
  have "generate_group st g = foldl generate_member st (map (\<lambda>i. (role, prefix, i, pii)) [0..<count])"
    by (simp add: g generate_group_def foldl_map generate_member_def)
  then show ?case by (simp add: Cons.IH g)
qed simp

definition fleet_members :: "(i64 \<times> Member) list" where
  "fleet_members = numbered 10000 members"

lemma fleet_closed:
  "fl_resources generated_fleet = hand_crafted @
     map (\<lambda>(i, w). (i, member_name w, ''ec2_instance'', ''us-east-1'', False, 0)) fleet_members"
  "fl_generated_workloads generated_fleet = map (\<lambda>(i, w). (i, member_role w)) fleet_members"
  "fl_generated_accessed generated_fleet = List.map_filter (\<lambda>(i, w). map_option (\<lambda>s. (i, s)) (member_store w)) fleet_members"
  by (simp_all add: generated_fleet_def generate_groups generate_members fleet_members_def flip: members_def)

lemma runs_as_closed:
  "foldl push_runs_as (es, n) ws = (es @ map (\<lambda>(k, r, role). (k, r, role)) (numbered n ws), n + of_nat (length ws))"
  by (induction ws arbitrary: es n) (auto simp: push_runs_as_def add.assoc split_beta)

lemma accessed_closed:
  "foldl push_accessed (ids, srcs, dsts, n) ws =
     (ids @ map fst (numbered n ws), srcs @ map (\<lambda>(k, r, store). r) (numbered n ws),
      dsts @ map (\<lambda>(k, r, store). store) (numbered n ws), n + of_nat (length ws))"
  by (induction ws arbitrary: ids srcs dsts n) (auto simp: push_accessed_def add.assoc split_beta)

text \<open>The fleet has 966 members, of whom 714 have accessed a store.\<close>

lemma length_members: "length members = 966"
  by (simp add: members_def role_groups_def length_concat comp_def split_beta)

lemma count_not_fifth: "length (filter (\<lambda>i. i mod 5 \<noteq> 0) [0..<n]) = n - (n + 4) div 5"
proof (induction n)
  case (Suc n)
  show ?case
  proof (cases "n mod 5 = 0")
    case True
    then obtain m where "n = 5 * m" by auto
    then show ?thesis using Suc by simp
  next
    case False
    then have e: "(Suc n + 4) div 5 = (n + 4) div 5" and le: "(n + 4) div 5 \<le> n" by presburger+
    have "length (filter (\<lambda>i. i mod 5 \<noteq> 0) [0..<Suc n]) = Suc (n - (n + 4) div 5)" using Suc False by simp
    then show ?thesis by (simp only: e Suc_diff_le [OF le])
  qed
qed simp

definition runs_as :: "(i64 \<times> i64 \<times> i64) list" where
  "runs_as = [(2000, 4, 201), (2001, 5, 201), (2002, 8, 204)] @
     numbered 100000 (map (\<lambda>(i, w). (i, member_role w)) fleet_members)"

definition accesses :: "(i64 \<times> i64 \<times> i64) list" where
  "accesses = (2009, 4, 301) # numbered 100966 (fl_generated_accessed generated_fleet)"

lemma length_fleet_members [simp]: "length fleet_members = 966"
  by (simp add: fleet_members_def length_members)

lemma loops_closed:
  "runs_as_loop = (runs_as, 100966)"
  "accessed_loop = (map (\<lambda>(k, r, store). k) accesses, map (\<lambda>(k, r, store). r) accesses,
     map (\<lambda>(k, r, store). store) accesses, 100966 + of_nat (length (fl_generated_accessed generated_fleet)))"
proof -
  show loop: "runs_as_loop = (runs_as, 100966)"
    by (simp add: runs_as_loop_def runs_as_closed runs_as_def fleet_closed(2) split_beta)
  have "map fst (numbered n ws) = map (\<lambda>(k, r, store). k) (numbered n ws)" for n and ws :: "(i64 \<times> i64) list"
    by (simp add: split_beta)
  then show "accessed_loop = (map (\<lambda>(k, r, store). k) accesses, map (\<lambda>(k, r, store). r) accesses,
     map (\<lambda>(k, r, store). store) accesses, 100966 + of_nat (length (fl_generated_accessed generated_fleet)))"
    by (simp add: accessed_loop_def loop accessed_closed accesses_def)
qed

section \<open>The schema\<close>

definition indexed :: "string \<Rightarrow> ScalarType \<Rightarrow> PropertyDef" where
  "indexed name ty = \<lparr>pd_name = name, pd_ty = ty, pd_optional = False, pd_indexed = True\<rparr>"

definition unindexed :: "string \<Rightarrow> ScalarType \<Rightarrow> PropertyDef" where
  "unindexed name ty = \<lparr>pd_name = name, pd_ty = ty, pd_optional = False, pd_indexed = False\<rparr>"

definition inventory_def :: NodeDef where
  "inventory_def = \<lparr>nd_label = Label ''Resource'', nd_properties =
     [indexed ''name'' TString, unindexed ''resource_type'' TString, unindexed ''region'' TString,
      indexed ''internet_facing'' TBool, indexed ''max_severity'' TInt64]\<rparr>"

definition role_def :: NodeDef where
  "role_def = \<lparr>nd_label = Label ''IAMRole'', nd_properties =
     [indexed ''role_name'' TString, indexed ''is_admin'' TBool]\<rparr>"

definition store_def :: NodeDef where
  "store_def = \<lparr>nd_label = Label ''DataStore'', nd_properties =
     [indexed ''name'' TString, indexed ''classification'' TString]\<rparr>"

definition can_read_def :: EdgeDef where
  "can_read_def = \<lparr>ed_edge_type = EdgeType ''CAN_READ'', ed_from = Label ''IAMRole'', ed_to = Label ''DataStore'',
     ed_properties = [unindexed ''action'' TString]\<rparr>"

definition accessed_def :: EdgeDef where
  "accessed_def = \<lparr>ed_edge_type = EdgeType ''ACCESSED'', ed_from = Label ''Resource'', ed_to = Label ''DataStore'',
     ed_properties = [unindexed ''action'' TString, unindexed ''last_seen'' TTimestamp]\<rparr>"

definition cloud_cost_schema :: Schema where
  "cloud_cost_schema =
     \<lparr>sch_version = ''graph_v1'',
      sch_nodes = fmupd (Label ''DataStore'') store_def (fmupd (Label ''IAMRole'') role_def
        (fmupd (Label ''CostRecord'') cost_def (fmupd (Label ''Resource'') inventory_def
        (fmupd (Label ''CloudAccount'') account_def fmempty)))),
      sch_edges = fmupd (EdgeType ''ACCESSED'') accessed_def (fmupd (EdgeType ''CAN_READ'') can_read_def
        (fmupd (EdgeType ''CAN_ASSUME'') (demo_edge_def ''CAN_ASSUME'' ''IAMRole'' ''IAMRole'')
        (fmupd (EdgeType ''RUNS_AS'') (demo_edge_def ''RUNS_AS'' ''Resource'' ''IAMRole'')
        (fmupd (EdgeType ''HAS_COST'') (demo_edge_def ''HAS_COST'' ''Resource'' ''CostRecord'')
        (fmupd (EdgeType ''CONTAINS'') (demo_edge_def ''CONTAINS'' ''Resource'' ''Resource'')
        (fmupd (EdgeType ''OWNS'') (demo_edge_def ''OWNS'' ''CloudAccount'' ''Resource'') fmempty))))))\<rparr>"

section \<open>The dataset\<close>

definition workload_row :: "Workload \<Rightarrow> NodeRow" where
  "workload_row = (\<lambda>(i, name, ty, region, facing, severity). \<lparr>nr_id = NodeId i, nr_properties =
     hm_collect [(''name'', VString name), (''resource_type'', VString ty), (''region'', VString region),
       (''internet_facing'', VBool facing), (''max_severity'', VInt64 severity)]\<rparr>)"

definition role_row :: "i64 \<times> string \<times> bool \<Rightarrow> NodeRow" where
  "role_row = (\<lambda>(i, name, admin). \<lparr>nr_id = NodeId i, nr_properties =
     hm_collect [(''role_name'', VString name), (''is_admin'', VBool admin)]\<rparr>)"

definition store_row :: "i64 \<times> string \<times> string \<Rightarrow> NodeRow" where
  "store_row = (\<lambda>(i, name, class). \<lparr>nr_id = NodeId i, nr_properties =
     hm_collect [(''name'', VString name), (''classification'', VString class)]\<rparr>)"

definition grant_row :: "i64 \<times> i64 \<times> i64 \<times> string \<Rightarrow> EdgeRow" where
  "grant_row = (\<lambda>(i, src, dst, action). \<lparr>er_id = EdgeId i, er_src = NodeId src, er_dst = NodeId dst,
     er_properties = hm_collect [(''action'', VString action)]\<rparr>)"

definition access_row :: "i64 \<times> i64 \<times> i64 \<Rightarrow> EdgeRow" where
  "access_row = (\<lambda>(i, src, dst). \<lparr>er_id = EdgeId i, er_src = NodeId src, er_dst = NodeId dst,
     er_properties = hm_collect [(''action'', VString ''s3:GetObject''), (''last_seen'', VTimestamp ACCESSED_LAST_SEEN)]\<rparr>)"

abbreviation cloud_nodes :: "(Label \<times> NodeRow list) list" where
  "cloud_nodes \<equiv>
     [(Label ''CloudAccount'', map account_row [(1, ''123456789012'', ''aws'')]),
      (Label ''CostRecord'', map cost_row costs), (Label ''DataStore'', map store_row stores),
      (Label ''IAMRole'', map role_row roles), (Label ''Resource'', map workload_row (fl_resources generated_fleet))]"

abbreviation cloud_edges :: "(EdgeDef \<times> EdgeRow list) list" where
  "cloud_edges \<equiv>
     [(accessed_def, map access_row accesses),
      (demo_edge_def ''CAN_ASSUME'' ''IAMRole'' ''IAMRole'', map plain_edge can_assume),
      (can_read_def, map grant_row can_read),
      (demo_edge_def ''CONTAINS'' ''Resource'' ''Resource'', map plain_edge contains_edges),
      (demo_edge_def ''HAS_COST'' ''Resource'' ''CostRecord'', map plain_edge has_cost_edges),
      (demo_edge_def ''OWNS'' ''CloudAccount'' ''Resource'', map plain_edge owns_edges),
      (demo_edge_def ''RUNS_AS'' ''Resource'' ''IAMRole'', map plain_edge runs_as)]"

definition cloud_data :: Dataset where
  "cloud_data =
     \<lparr>ds_schema = cloud_cost_schema,
      ds_nodes = concat (map (\<lambda>(l, rows). map (\<lambda>row. (l, row)) rows) cloud_nodes),
      ds_edges = concat (map (\<lambda>(ed, rows). map (\<lambda>row. (ed_edge_type ed, row)) rows) cloud_edges)\<rparr>"

lemma cloud_data_sel:
  "ds_schema cloud_data = cloud_cost_schema"
  "ds_nodes cloud_data = concat (map (\<lambda>(l, rows). map (\<lambda>row. (l, row)) rows) cloud_nodes)"
  "ds_edges cloud_data = concat (map (\<lambda>(ed, rows). map (\<lambda>row. (ed_edge_type ed, row)) rows) cloud_edges)"
  by (simp_all add: cloud_data_def)

section \<open>The tables hold the dataset\<close>

lemma cloud_table_names:
  "node_table_name (Label ''IAMRole'') = ''nodes_iamrole''"
  "node_table_name (Label ''DataStore'') = ''nodes_datastore''"
  "edge_table_name (EdgeType ''RUNS_AS'') = ''edges_runs_as''"
  "edge_table_name (EdgeType ''CAN_ASSUME'') = ''edges_can_assume''"
  "edge_table_name (EdgeType ''CAN_READ'') = ''edges_can_read''"
  "edge_table_name (EdgeType ''ACCESSED'') = ''edges_accessed''"
  by (simp_all add: node_table_name_def edge_table_name_def to_lowercase_def, code_simp+)

abbreviation inventory_columns :: "Workload list \<Rightarrow> Column list" where
  "inventory_columns rs \<equiv>
     [Longs (map (\<lambda>(i, name, ty, region, facing, severity). i) rs),
      Strings (map (\<lambda>(i, name, ty, region, facing, severity). name) rs),
      Strings (map (\<lambda>(i, name, ty, region, facing, severity). ty) rs),
      Strings (map (\<lambda>(i, name, ty, region, facing, severity). region) rs),
      Bools (map (\<lambda>(i, name, ty, region, facing, severity). facing) rs),
      Longs (map (\<lambda>(i, name, ty, region, facing, severity). severity) rs)]"

abbreviation role_columns :: "Column list" where
  "role_columns \<equiv> [Longs (map (\<lambda>(i, name, admin). i) roles), Strings (map (\<lambda>(i, name, admin). name) roles),
     Bools (map (\<lambda>(i, name, admin). admin) roles)]"

abbreviation store_columns :: "Column list" where
  "store_columns \<equiv> [Longs (map (\<lambda>(i, name, class). i) stores), Strings (map (\<lambda>(i, name, class). name) stores),
     Strings (map (\<lambda>(i, name, class). class) stores)]"

abbreviation grant_columns :: "Column list" where
  "grant_columns \<equiv>
     [Longs (map (\<lambda>(i, src, dst, action). i) can_read), Longs (map (\<lambda>(i, src, dst, action). src) can_read),
      Longs (map (\<lambda>(i, src, dst, action). dst) can_read), Strings (map (\<lambda>(i, src, dst, action). action) can_read)]"

abbreviation access_columns :: "Column list" where
  "access_columns \<equiv> edge_columns accesses @
     [Strings (replicate (length accesses) ''s3:GetObject''), Stamps (replicate (length accesses) ACCESSED_LAST_SEEN)]"

lemma cloud_rows:
  "column_nodes inventory_def (inventory_columns rs) = map workload_row rs"
  "column_nodes role_def role_columns = map role_row roles"
  "column_nodes store_def store_columns = map store_row stores"
  by (rule column_nodes_map; simp add: workload_row_def inventory_def_def role_row_def role_def_def
      store_row_def store_def_def indexed_def unindexed_def cells_def split_beta)+

lemma cloud_edge_rows:
  "column_edges can_read_def grant_columns = map grant_row can_read"
  "column_edges accessed_def access_columns = map access_row accesses"
  unfolding append_Cons append_Nil
  by (rule column_edges_map; simp add: grant_row_def can_read_def_def access_row_def accessed_def_def
      unindexed_def cells_def split_beta)+

definition cloud_tables :: "Written list" where
  "cloud_tables =
     [(''nodes_cloudaccount'', account_schema, [Longs [1], Strings [''123456789012''], Strings [''aws'']]),
      (''nodes_resource'', inventory_schema, inventory_columns (fl_resources generated_fleet)),
      (''nodes_costrecord'', cost_schema,
       [Longs (map (\<lambda>(i, amount, period). i) costs), Longs (map (\<lambda>(i, amount, period). amount) costs),
        Strings (map (\<lambda>(i, amount, period). period) costs)]),
      (''nodes_iamrole'', role_schema, role_columns),
      (''nodes_datastore'', store_schema, store_columns),
      (''edges_owns'', edge_schema, edge_columns owns_edges),
      (''edges_contains'', edge_schema, edge_columns contains_edges),
      (''edges_has_cost'', edge_schema, edge_columns has_cost_edges),
      (''edges_runs_as'', edge_schema, edge_columns runs_as),
      (''edges_can_assume'', edge_schema, edge_columns can_assume),
      (''edges_can_read'', can_read_schema, grant_columns),
      (''edges_accessed'', accessed_schema, access_columns)]"

lemmas cloud_fields = account_schema_def cost_schema_def inventory_schema_def role_schema_def store_schema_def
  edge_schema_def can_read_schema_def accessed_schema_def edge_schema_with_def

lemma cloud_tables_writable: "list_all writable cloud_tables" "distinct (map fst cloud_tables)"
  by (simp_all add: cloud_tables_def writable_def cloud_fields column_fits_def rows_of_def)

lemma ingest_inventory_Ok:
  assumes "stores_tables K" "\<forall>name. table_absent K s name"
  obtains u where "ingest_inventory K s = Ok u" "list_all (written K u) cloud_tables"
proof -
  obtain u where u: "fold_res (write_columns K) s cloud_tables = Ok u" "list_all (written K u) cloud_tables"
    using write_all [OF assms(1) cloud_tables_writable(2,1), of s] assms(2) by (auto simp: list_all_iff)
  have "accessed_batch K = ic_try_new K accessed_schema (map (column_array K) access_columns)"
    by (simp add: accessed_batch_def loops_closed Let_def)
  moreover have "res_bind m (\<lambda>s. Ok s) = m" for m :: "(string, 'a) res" by (cases m) simp_all
  ultimately have "ingest_inventory K s = fold_res (write_columns K) s cloud_tables"
    by (simp add: ingest_inventory_def cloud_tables_def write_columns_def demo_table_names cloud_table_names
        account_batch_def inventory_batch_def cost_batch_def role_batch_def store_batch_def edge_batch_def
        can_read_batch_def loops_closed)
  with u that show thesis by simp
qed

lemma cloud_edge_types: "map snd (sorted_list_of_fmap (sch_edges cloud_cost_schema)) = map fst cloud_edges"
  by (simp add: sorted_list_of_fmap_def sorted_list_of_fset.rep_eq cloud_cost_schema_def less_eq_EdgeType_def)

lemma cloud_labels: "map fst (sorted_list_of_fmap (sch_nodes cloud_cost_schema)) = map fst cloud_nodes"
  by (simp add: sorted_list_of_fmap_def sorted_list_of_fset.rep_eq cloud_cost_schema_def less_eq_Label_def)

lemma cloud_defs:
  "node_def cloud_cost_schema (Label ''CloudAccount'') = Some account_def"
  "node_def cloud_cost_schema (Label ''CostRecord'') = Some cost_def"
  "node_def cloud_cost_schema (Label ''DataStore'') = Some store_def"
  "node_def cloud_cost_schema (Label ''IAMRole'') = Some role_def"
  "node_def cloud_cost_schema (Label ''Resource'') = Some inventory_def"
  "edge_def cloud_cost_schema (EdgeType ''ACCESSED'') = Some accessed_def"
  "edge_def cloud_cost_schema (EdgeType ''CAN_ASSUME'') = Some (demo_edge_def ''CAN_ASSUME'' ''IAMRole'' ''IAMRole'')"
  "edge_def cloud_cost_schema (EdgeType ''CAN_READ'') = Some can_read_def"
  "edge_def cloud_cost_schema (EdgeType ''CONTAINS'') = Some (demo_edge_def ''CONTAINS'' ''Resource'' ''Resource'')"
  "edge_def cloud_cost_schema (EdgeType ''HAS_COST'') = Some (demo_edge_def ''HAS_COST'' ''Resource'' ''CostRecord'')"
  "edge_def cloud_cost_schema (EdgeType ''OWNS'') = Some (demo_edge_def ''OWNS'' ''CloudAccount'' ''Resource'')"
  "edge_def cloud_cost_schema (EdgeType ''RUNS_AS'') = Some (demo_edge_def ''RUNS_AS'' ''Resource'' ''IAMRole'')"
  by (simp_all add: node_def_def edge_def_def cloud_cost_schema_def)

lemma cloud_tables_hold:
  assumes "list_all (written K u) cloud_tables"
  shows "list_all (\<lambda>(l, rows). holds_nodes K u cloud_cost_schema l rows) cloud_nodes"
    and "list_all (\<lambda>(ed, rows). holds_edges K u cloud_cost_schema ed rows) cloud_edges"
proof -
  have nodes: "holds_nodes K u cloud_cost_schema l rows"
    if "(node_table_name l, sch, columns) \<in> set cloud_tables" "node_def cloud_cost_schema l = Some nd"
      "describes_nodes nd sch" "column_nodes nd columns = rows" for l nd sch columns rows
    using holds_written(1) [of K u "node_table_name l" sch columns l cloud_cost_schema nd] that assms
      cloud_tables_writable(1) by (simp add: list_all_iff)
  have edges: "holds_edges K u cloud_cost_schema ed rows"
    if "(edge_table_name (ed_edge_type ed), sch, columns) \<in> set cloud_tables"
      "edge_def cloud_cost_schema (ed_edge_type ed) = Some ed" "describes_edges ed sch" "column_edges ed columns = rows"
    for ed sch columns rows
    using holds_written(2) [of K u "edge_table_name (ed_edge_type ed)" sch columns ed cloud_cost_schema] that assms
      cloud_tables_writable(1) by (simp add: list_all_iff)
  have plain: "holds_edges K u cloud_cost_schema (demo_edge_def ty src dst) (map plain_edge es)"
    if "(edge_table_name (EdgeType ty), edge_schema, edge_columns es) \<in> set cloud_tables"
      "edge_def cloud_cost_schema (EdgeType ty) = Some (demo_edge_def ty src dst)" for ty src dst es
    using edges [of "demo_edge_def ty src dst" edge_schema "edge_columns es" "map plain_edge es"] that
      column_edges_plain [of "demo_edge_def ty src dst" es]
    by (simp add: demo_edge_def_def describes_edges_def edge_schema_def)
  note shape = cloud_tables_def demo_table_names cloud_table_names cloud_defs
  note node_shape = describes_nodes_def field_of_def cloud_fields indexed_def unindexed_def
  note edge_shape = describes_edges_def field_of_def cloud_fields unindexed_def
  have "holds_nodes K u cloud_cost_schema (Label ''CloudAccount'') (map account_row [(1, ''123456789012'', ''aws'')])"
    by (rule nodes [OF _ cloud_defs(1) _ demo_node_rows(1)])
      (simp add: shape, simp add: node_shape account_def_def)
  moreover have "holds_nodes K u cloud_cost_schema (Label ''CostRecord'') (map cost_row costs)"
    by (rule nodes [OF _ cloud_defs(2) _ demo_node_rows(3), where sch = cost_schema])
      (simp add: shape, simp add: node_shape cost_def_def)
  moreover have "holds_nodes K u cloud_cost_schema (Label ''DataStore'') (map store_row stores)"
    by (rule nodes [OF _ cloud_defs(3) _ cloud_rows(3), where sch = store_schema])
      (simp add: shape, simp add: node_shape store_def_def)
  moreover have "holds_nodes K u cloud_cost_schema (Label ''IAMRole'') (map role_row roles)"
    by (rule nodes [OF _ cloud_defs(4) _ cloud_rows(2), where sch = role_schema])
      (simp add: shape, simp add: node_shape role_def_def)
  moreover have "holds_nodes K u cloud_cost_schema (Label ''Resource'') (map workload_row (fl_resources generated_fleet))"
    by (rule nodes [OF _ cloud_defs(5) _ cloud_rows(1), where sch = inventory_schema])
      (simp add: shape, simp add: node_shape inventory_def_def)
  ultimately show "list_all (\<lambda>(l, rows). holds_nodes K u cloud_cost_schema l rows) cloud_nodes" by simp
  have "holds_edges K u cloud_cost_schema can_read_def (map grant_row can_read)"
    by (rule edges [OF _ _ _ cloud_edge_rows(1), where sch = can_read_schema])
      (simp add: shape can_read_def_def, simp add: shape can_read_def_def, simp add: edge_shape can_read_def_def)
  moreover have "holds_edges K u cloud_cost_schema accessed_def (map access_row accesses)"
    by (rule edges [OF _ _ _ cloud_edge_rows(2), where sch = accessed_schema])
      (simp add: shape accessed_def_def, simp add: shape accessed_def_def, simp add: edge_shape accessed_def_def)
  ultimately show "list_all (\<lambda>(ed, rows). holds_edges K u cloud_cost_schema ed rows) cloud_edges"
    by (simp add: plain shape)
qed

lemma cloud_read:
  assumes "list_all (written K u) cloud_tables" "ib_schema B = cloud_cost_schema"
    and "ib_reader B = IcebergCatalogReader (ic_arrow K) (ic_tables K u)"
  shows "read_tables B (map fst (sorted_list_of_fmap (sch_nodes cloud_cost_schema))) = Ok cloud_data"
  unfolding cloud_labels cloud_data_def
  using read_written [OF assms(3), unfolded assms(2), OF cloud_tables_hold [OF assms(1)] cloud_edge_types [symmetric]]
  by (simp only: comp_def)

section \<open>The dataset is well formed\<close>

declare upt_rec_numeral [simp del]

text \<open>Consecutive ids, as numbers.\<close>

lemma numbered_ids:
  fixes first :: i64
  assumes "unat first + length xs < 2 ^ 64"
  shows "map unat (map fst (numbered first xs)) = [unat first..<unat first + length xs]"
proof (rule nth_equalityI)
  fix k assume "k < length (map unat (map fst (numbered first xs)))"
  then have k: "k < length xs" by simp
  then have "unat (first + of_nat k) = unat first + k"
    using assms by (simp add: unat_word_ariths unat_of_nat)
  then show "map unat (map fst (numbered first xs)) ! k = [unat first..<unat first + length xs] ! k"
    using k by (simp add: numbered_def)
qed simp

lemma set_numbered: "(i, x) \<in> set (numbered first xs) \<Longrightarrow> x \<in> set xs"
  by (auto simp: numbered_def dest: set_zip_rightD)

lemma numbered_in:
  assumes "x \<in> set xs"
  obtains i where "(i, x) \<in> set (numbered first xs)"
proof -
  have "x \<in> snd ` set (numbered first xs)" unfolding set_map [symmetric] snd_numbered by (rule assms)
  then show thesis using that by (metis imageE prod.collapse)
qed

lemma member_facts:
  assumes "w \<in> set members"
  shows "member_role w \<in> set (map fst roles)"
    and "member_store w = Some s \<Longrightarrow> s \<in> {301, 303, 304}"
    and "member_store w = Some s \<Longrightarrow> (member_role w, s) \<in> {(201, 301), (203, 301), (205, 303), (206, 304)}"
  using assms
  by (auto simp: members_def role_groups_def member_role_def member_store_def roles_def pii_store_for_role_def
      split: if_splits)

lemma accessed_pairs:
  "set (fl_generated_accessed generated_fleet) = {(i, s) |i w s. (i, w) \<in> set fleet_members \<and> member_store w = Some s}"
proof -
  have "set (List.map_filter f xs) = {y. \<exists>x \<in> set xs. f x = Some y}" for f :: "i64 \<times> Member \<Rightarrow> (i64 \<times> i64) option" and xs
    by (induction xs) (auto simp: List.map_filter_simps split: option.splits)
  then show ?thesis unfolding fleet_closed(3) by fastforce
qed

lemma count_accessed: "length (fl_generated_accessed generated_fleet) = 714"
proof -
  have "length (List.map_filter (\<lambda>(i, w). map_option (\<lambda>s. (i, s)) (f w)) ws) = length (filter (\<lambda>w. f w \<noteq> None) (map snd ws))"
    for f :: "Member \<Rightarrow> i64 option" and ws :: "(i64 \<times> Member) list"
    by (induction ws) (auto simp: List.map_filter_simps split: option.split)
  then have "length (fl_generated_accessed generated_fleet) = length (filter (\<lambda>w. member_store w \<noteq> None) members)"
    unfolding fleet_closed(3) fleet_members_def by (simp only: snd_numbered)
  also have "\<dots> = 714"
    using count_not_fifth
    by (simp add: members_def role_groups_def filter_concat filter_map comp_def member_store_def pii_store_for_role_def)
  finally show ?thesis .
qed

lemma cloud_counts: "length (ds_nodes cloud_data) = 1000" "length (ds_edges cloud_data) = 1710"
  by (simp_all add: cloud_data_def costs_def stores_def roles_def fleet_closed(1) hand_crafted_def accesses_def
      count_accessed can_assume_def can_read_def contains_edges_def has_cost_edges_def owns_edges_def runs_as_def)

definition node_numbers :: "nat list" where
  "node_numbers = [1, 101, 102, 103, 104, 105, 106] @ [301, 302, 303, 304, 305, 306, 307, 308, 309, 310] @
     [201, 202, 203, 204, 205, 206, 207, 208, 209, 210] @ [2, 3, 4, 5, 6, 7, 8] @ [10000..<10966]"

lemma cloud_node_ids:
  "map (unat \<circ> node_raw \<circ> (nr_id \<circ> snd)) (ds_nodes cloud_data) = node_numbers"
proof -
  have "map unat (map fst fleet_members) = [10000..<10966]"
    using numbered_ids [of 10000 members] by (simp add: fleet_members_def length_members)
  then have "map (unat \<circ> fst) fleet_members = [10000..<10966]" by simp
  then show ?thesis
    by (simp add: cloud_data_def node_numbers_def account_row_def cost_row_def costs_def stores_def store_row_def
        roles_def role_row_def fleet_closed(1) hand_crafted_def workload_row_def comp_def split_beta)
qed

lemma cloud_ids: "n \<in> ds_ids cloud_data \<longleftrightarrow> unat (node_raw n) \<in> set node_numbers"
proof -
  have "inj (unat \<circ> node_raw)" by (auto intro!: injI NodeId.expand word_unat_eq_iff [THEN iffD2])
  moreover have "set node_numbers = (unat \<circ> node_raw) ` ds_ids cloud_data"
    unfolding ds_ids_def cloud_node_ids [symmetric] by (simp add: image_comp comp_assoc)
  ultimately show ?thesis using inj_image_mem_iff [of "unat \<circ> node_raw" n "ds_ids cloud_data"] by simp
qed

lemma cloud_small_ids: "i \<in> {1, 2, 3, 4, 5, 6, 7, 8, 101, 102, 103, 104, 105, 106} \<union> fst ` set roles \<union> fst ` set stores \<Longrightarrow>
    NodeId i \<in> ds_ids cloud_data"
  by (auto simp: cloud_ids node_numbers_def roles_def stores_def)

lemma cloud_member_ids:
  assumes "(i, w) \<in> set fleet_members"
  shows "unat i \<in> {10000..<10966}"
proof -
  have "map unat (map fst fleet_members) = [10000..<10966]"
    using numbered_ids [of 10000 members] by (simp add: fleet_members_def length_members)
  then have "set (map unat (map fst fleet_members)) = {10000..<10966}" by (simp only: set_upt)
  then show ?thesis using assms by force
qed

lemma cloud_endpoints:
  "list_all (\<lambda>(_, row). er_src row \<in> ds_ids cloud_data \<and> er_dst row \<in> ds_ids cloud_data) (ds_edges cloud_data)"
proof -
  have member: "NodeId i \<in> ds_ids cloud_data" if "(i, w) \<in> set fleet_members" for i w
    using cloud_member_ids [OF that] by (auto simp: cloud_ids node_numbers_def)
  have roles: "NodeId (member_role w) \<in> ds_ids cloud_data" if "(i, w) \<in> set fleet_members" for i w
    using member_facts(1) [of w] that cloud_small_ids [of "member_role w"]
    by (auto simp: fleet_members_def dest: set_numbered)
  have stores: "NodeId s \<in> ds_ids cloud_data" if "(i, w) \<in> set fleet_members" "member_store w = Some s" for i w s
    using member_facts(2) [of w s] that cloud_small_ids [of s]
    by (auto simp: fleet_members_def stores_def dest: set_numbered)
  have "list_all (\<lambda>(_, r, role). NodeId r \<in> ds_ids cloud_data \<and> NodeId role \<in> ds_ids cloud_data) runs_as"
    using member roles cloud_small_ids
    by (auto simp: runs_as_def list_all_iff roles_def dest!: set_numbered)
  moreover have "list_all (\<lambda>(_, r, store). NodeId r \<in> ds_ids cloud_data \<and> NodeId store \<in> ds_ids cloud_data) accesses"
    using member stores cloud_small_ids
    by (auto simp: accesses_def list_all_iff stores_def accessed_pairs dest!: set_numbered)
  moreover have "list_all (\<lambda>(_, src, dst, _). NodeId src \<in> ds_ids cloud_data \<and> NodeId dst \<in> ds_ids cloud_data) can_read"
    using cloud_small_ids by (simp add: can_read_def roles_def stores_def)
  moreover have "list_all (\<lambda>(_, src, dst). NodeId src \<in> ds_ids cloud_data \<and> NodeId dst \<in> ds_ids cloud_data)
      (can_assume @ contains_edges @ has_cost_edges @ owns_edges)"
    using cloud_small_ids by (simp add: can_assume_def contains_edges_def has_cost_edges_def owns_edges_def roles_def)
  ultimately show ?thesis
    by (simp add: cloud_data_sel(3) list.pred_map comp_def case_prod_unfold plain_edge_def access_row_def grant_row_def)
qed

definition edge_numbers :: "nat list" where
  "edge_numbers = (2009 # [100966..<101680]) @ [2003, 2004] @
     [2005, 2006, 2007, 2008, 2010, 2011, 2012, 2013, 2014, 2015, 2016] @ [1001, 1002, 1003, 1004, 1005, 1006] @
     [1007, 1008, 1009, 1010, 1011, 1012] @ [1000] @ [2000, 2001, 2002] @ [100000..<100966]"

lemma cloud_edge_ids:
  "map (unat \<circ> edge_raw \<circ> (er_id \<circ> snd)) (ds_edges cloud_data) = edge_numbers"
proof -
  have "map unat (map fst (numbered 100966 (fl_generated_accessed generated_fleet))) = [100966..<101680]"
    using numbered_ids [of 100966 "fl_generated_accessed generated_fleet"] by (simp add: count_accessed)
  moreover have "map unat (map fst (numbered 100000 (map (\<lambda>(i, w). (i, member_role w)) fleet_members))) = [100000..<100966]"
    using numbered_ids [of 100000 "map (\<lambda>(i, w). (i, member_role w)) fleet_members"] by simp
  ultimately show ?thesis
    by (simp add: cloud_data_def edge_numbers_def accesses_def runs_as_def access_row_def plain_edge_def grant_row_def
        can_assume_def can_read_def contains_edges_def has_cost_edges_def owns_edges_def comp_def split_beta
        accessed_def_def can_read_def_def demo_edge_def_def)
qed

lemma wf_cloud_data: "wf_dataset cloud_data"
proof -
  have "distinct node_numbers" by (simp add: node_numbers_def)
  then have "distinct (map (nr_id \<circ> snd) (ds_nodes cloud_data))"
    unfolding cloud_node_ids [symmetric] by (metis distinct_map map_map)
  moreover have "distinct edge_numbers" by (simp add: edge_numbers_def)
  then have "distinct (map (er_id \<circ> snd) (ds_edges cloud_data))"
    unfolding cloud_edge_ids [symmetric] by (metis distinct_map map_map)
  ultimately show ?thesis
    using cloud_endpoints cloud_counts by (simp add: wf_dataset_def index_bounds_def)
qed

section \<open>Accesses are granted\<close>

text \<open>Each access is by a workload to a store that the role it runs as was granted.\<close>

definition granted :: "i64 \<times> i64 \<times> i64 \<Rightarrow> bool" where
  "granted = (\<lambda>(_, r, store). list_ex (\<lambda>(_, r', role). r' = r \<and>
     list_ex (\<lambda>(_, role', store', _). role' = role \<and> store' = store) can_read) runs_as)"

lemma accesses_granted: "list_all granted accesses"
proof -
  have "granted (k, i, s)" if "(i, w) \<in> set fleet_members" "member_store w = Some s" for k i w s
  proof -
    have w: "w \<in> set members" using that(1) by (auto simp: fleet_members_def dest: set_numbered)
    have "(i, member_role w) \<in> set (map (\<lambda>(i, w). (i, member_role w)) fleet_members)" using that(1) by force
    then obtain e where "(e, i, member_role w) \<in> set (numbered 100000 (map (\<lambda>(i, w). (i, member_role w)) fleet_members))"
      by (rule numbered_in)
    then have e: "(e, i, member_role w) \<in> set runs_as" unfolding runs_as_def set_append by (rule UnI2)
    have "list_ex (\<lambda>(_, role', store', _). role' = member_role w \<and> store' = s) can_read"
      using member_facts(3) [OF w that(2)] by (auto simp: can_read_def)
    then show ?thesis unfolding granted_def prod.case by (subst list_ex_iff) (rule bexI [OF _ e], simp)
  qed
  moreover have "granted (2009, 4, 301)" by (simp add: granted_def runs_as_def can_read_def)
  ultimately show ?thesis
    by (auto simp: accesses_def list_all_iff accessed_pairs dest!: set_numbered)
qed

section \<open>The schema file, parsed\<close>

text \<open>The token tree of \<open>schema/cloud_cost.graphidl\<close>, whose text is \<open>idl\<close>.\<close>

definition span_of :: "string \<Rightarrow> nat \<Rightarrow> nat \<Rightarrow> string" where
  "span_of text1 i j = take (j - i) (drop i text1)"

definition cloudaccount_decl :: "string \<Rightarrow> SRule Pair" where
  "cloudaccount_decl idl =
    Pair S_node_decl (span_of idl 1579 1670) [
      Pair S_ident ''CloudAccount'' [],
      Pair S_id_field (span_of idl 1603 1613) [],
      Pair S_property_decl (span_of idl 1618 1650) [
        Pair S_indexed_marker (span_of idl 1618 1626) [],
        Pair S_ident ''account_id'' [],
        Pair S_scalar_type (span_of idl 1639 1645) [Pair S_simple_type ''String'' []]],
      Pair S_property_decl (span_of idl 1650 1669) [
        Pair S_ident ''provider'' [],
        Pair S_scalar_type (span_of idl 1660 1666) [Pair S_simple_type ''String'' []]]]"

definition resource_decl :: "string \<Rightarrow> SRule Pair" where
  "resource_decl idl =
    Pair S_node_decl (span_of idl 1674 2097) [
      Pair S_ident ''Resource'' [],
      Pair S_id_field (span_of idl 1694 1704) [],
      Pair S_property_decl (span_of idl 1709 1735) [
        Pair S_indexed_marker (span_of idl 1709 1717) [],
        Pair S_ident ''name'' [],
        Pair S_scalar_type (span_of idl 1724 1730) [Pair S_simple_type ''String'' []]],
      Pair S_property_decl (span_of idl 1735 1761) [
        Pair S_ident ''resource_type'' [],
        Pair S_scalar_type (span_of idl 1750 1756) [Pair S_simple_type ''String'' []]],
      Pair S_property_decl (span_of idl 1761 2030) [
        Pair S_ident ''region'' [],
        Pair S_scalar_type (span_of idl 1769 1775) [Pair S_simple_type ''String'' []]],
      Pair S_property_decl (span_of idl 2030 2065) [
        Pair S_indexed_marker (span_of idl 2030 2038) [],
        Pair S_ident ''internet_facing'' [],
        Pair S_scalar_type (span_of idl 2056 2060) [Pair S_simple_type ''Bool'' []]],
      Pair S_property_decl (span_of idl 2065 2096) [
        Pair S_indexed_marker (span_of idl 2065 2073) [],
        Pair S_ident ''max_severity'' [],
        Pair S_scalar_type (span_of idl 2088 2093) [Pair S_simple_type ''Int64'' []]]]"

definition costrecord_decl :: "string \<Rightarrow> SRule Pair" where
  "costrecord_decl idl =
    Pair S_node_decl (span_of idl 2101 2187) [
      Pair S_ident ''CostRecord'' [],
      Pair S_id_field (span_of idl 2123 2133) [],
      Pair S_property_decl (span_of idl 2138 2169) [
        Pair S_indexed_marker (span_of idl 2138 2146) [],
        Pair S_ident ''amount_usd'' [],
        Pair S_scalar_type (span_of idl 2159 2164) [Pair S_simple_type ''Int64'' []]],
      Pair S_property_decl (span_of idl 2169 2186) [
        Pair S_ident ''period'' [],
        Pair S_scalar_type (span_of idl 2177 2183) [Pair S_simple_type ''String'' []]]]"

definition iamrole_decl :: "string \<Rightarrow> SRule Pair" where
  "iamrole_decl idl =
    Pair S_node_decl (span_of idl 2191 2283) [
      Pair S_ident ''IAMRole'' [],
      Pair S_id_field (span_of idl 2210 2220) [],
      Pair S_property_decl (span_of idl 2225 2256) [
        Pair S_indexed_marker (span_of idl 2225 2233) [],
        Pair S_ident ''role_name'' [],
        Pair S_scalar_type (span_of idl 2245 2251) [Pair S_simple_type ''String'' []]],
      Pair S_property_decl (span_of idl 2256 2282) [
        Pair S_indexed_marker (span_of idl 2256 2264) [],
        Pair S_ident ''is_admin'' [],
        Pair S_scalar_type (span_of idl 2275 2279) [Pair S_simple_type ''Bool'' []]]]"

definition datastore_decl :: "string \<Rightarrow> SRule Pair" where
  "datastore_decl idl =
    Pair S_node_decl (span_of idl 2287 2727) [
      Pair S_ident ''DataStore'' [],
      Pair S_id_field (span_of idl 2308 2318) [],
      Pair S_property_decl (span_of idl 2323 2692) [
        Pair S_indexed_marker (span_of idl 2323 2331) [],
        Pair S_ident ''name'' [],
        Pair S_scalar_type (span_of idl 2338 2344) [Pair S_simple_type ''String'' []]],
      Pair S_property_decl (span_of idl 2692 2726) [
        Pair S_indexed_marker (span_of idl 2692 2700) [],
        Pair S_ident ''classification'' [],
        Pair S_scalar_type (span_of idl 2717 2723) [Pair S_simple_type ''String'' []]]]"

definition owns_decl :: "string \<Rightarrow> SRule Pair" where
  "owns_decl idl =
    Pair S_edge_decl (span_of idl 2731 2786) [
      Pair S_ident ''OWNS'' [],
      Pair S_from_field (span_of idl 2747 2765) [Pair S_ident ''CloudAccount'' []],
      Pair S_to_field (span_of idl 2770 2782) [Pair S_ident ''Resource'' []]]"

definition contains_decl :: "string \<Rightarrow> SRule Pair" where
  "contains_decl idl =
    Pair S_edge_decl (span_of idl 2790 2845) [
      Pair S_ident ''CONTAINS'' [],
      Pair S_from_field (span_of idl 2810 2824) [Pair S_ident ''Resource'' []],
      Pair S_to_field (span_of idl 2829 2841) [Pair S_ident ''Resource'' []]]"

definition has_cost_decl :: "string \<Rightarrow> SRule Pair" where
  "has_cost_decl idl =
    Pair S_edge_decl (span_of idl 2849 2906) [
      Pair S_ident ''HAS_COST'' [],
      Pair S_from_field (span_of idl 2869 2883) [Pair S_ident ''Resource'' []],
      Pair S_to_field (span_of idl 2888 2902) [Pair S_ident ''CostRecord'' []]]"

definition runs_as_decl :: "string \<Rightarrow> SRule Pair" where
  "runs_as_decl idl =
    Pair S_edge_decl (span_of idl 2910 2963) [
      Pair S_ident ''RUNS_AS'' [],
      Pair S_from_field (span_of idl 2929 2943) [Pair S_ident ''Resource'' []],
      Pair S_to_field (span_of idl 2948 2959) [Pair S_ident ''IAMRole'' []]]"

definition can_assume_decl :: "string \<Rightarrow> SRule Pair" where
  "can_assume_decl idl =
    Pair S_edge_decl (span_of idl 3210 3265) [
      Pair S_ident ''CAN_ASSUME'' [],
      Pair S_from_field (span_of idl 3232 3245) [Pair S_ident ''IAMRole'' []],
      Pair S_to_field (span_of idl 3250 3261) [Pair S_ident ''IAMRole'' []]]"

definition can_read_decl :: "string \<Rightarrow> SRule Pair" where
  "can_read_decl idl =
    Pair S_edge_decl (span_of idl 3525 3599) [
      Pair S_ident ''CAN_READ'' [],
      Pair S_from_field (span_of idl 3545 3558) [Pair S_ident ''IAMRole'' []],
      Pair S_to_field (span_of idl 3563 3576) [Pair S_ident ''DataStore'' []],
      Pair S_property_decl (span_of idl 3581 3598) [
        Pair S_ident ''action'' [],
        Pair S_scalar_type (span_of idl 3589 3595) [Pair S_simple_type ''String'' []]]]"

definition accessed_decl :: "string \<Rightarrow> SRule Pair" where
  "accessed_decl idl =
    Pair S_edge_decl (span_of idl 3965 4065) [
      Pair S_ident ''ACCESSED'' [],
      Pair S_from_field (span_of idl 3985 3999) [Pair S_ident ''Resource'' []],
      Pair S_to_field (span_of idl 4004 4017) [Pair S_ident ''DataStore'' []],
      Pair S_property_decl (span_of idl 4022 4041) [
        Pair S_ident ''action'' [],
        Pair S_scalar_type (span_of idl 4030 4036) [Pair S_simple_type ''String'' []]],
      Pair S_property_decl (span_of idl 4041 4064) [
        Pair S_ident ''last_seen'' [],
        Pair S_scalar_type (span_of idl 4052 4061) [Pair S_simple_type ''Timestamp'' []]]]"

definition cloud_decls :: "string \<Rightarrow> SRule Pair list" where
  "cloud_decls idl =
     [cloudaccount_decl idl, resource_decl idl, costrecord_decl idl, iamrole_decl idl,
      datastore_decl idl, owns_decl idl, contains_decl idl, has_cost_decl idl,
      runs_as_decl idl, can_assume_decl idl, can_read_decl idl, accessed_decl idl]"

definition cloud_idl_tree :: "string \<Rightarrow> SRule Pair" where
  "cloud_idl_tree idl =
    Pair S_schema_file (span_of idl 0 4068)
      [Pair S_schema_decl (span_of idl 1559 4067) (Pair S_ident ''graph_v1'' [] # cloud_decls idl),
       Pair S_EOI '''' []]"

lemma cloud_nodes_parsed:
  "parse_node_decl (cloudaccount_decl idl) = Ok account_def"
  "parse_node_decl (resource_decl idl) = Ok inventory_def"
  "parse_node_decl (costrecord_decl idl) = Ok cost_def"
  "parse_node_decl (iamrole_decl idl) = Ok role_def"
  "parse_node_decl (datastore_decl idl) = Ok store_def"
  by (simp_all add: parse_node_decl_def parse_property_decl_def parse_property_part_def expect_def
      parse_scalar_type.simps parse_simple_type_def indexed_def unindexed_def
      cloudaccount_decl_def resource_decl_def costrecord_decl_def iamrole_decl_def datastore_decl_def
      account_def_def inventory_def_def cost_def_def role_def_def store_def_def)

lemma cloud_edges_parsed:
  "parse_edge_decl (owns_decl idl) = Ok (demo_edge_def ''OWNS'' ''CloudAccount'' ''Resource'')"
  "parse_edge_decl (contains_decl idl) = Ok (demo_edge_def ''CONTAINS'' ''Resource'' ''Resource'')"
  "parse_edge_decl (has_cost_decl idl) = Ok (demo_edge_def ''HAS_COST'' ''Resource'' ''CostRecord'')"
  "parse_edge_decl (runs_as_decl idl) = Ok (demo_edge_def ''RUNS_AS'' ''Resource'' ''IAMRole'')"
  "parse_edge_decl (can_assume_decl idl) = Ok (demo_edge_def ''CAN_ASSUME'' ''IAMRole'' ''IAMRole'')"
  "parse_edge_decl (can_read_decl idl) = Ok can_read_def"
  "parse_edge_decl (accessed_decl idl) = Ok accessed_def"
  by (simp_all add: parse_edge_decl_def parse_edge_part_def field_label_def parse_property_decl_def
      parse_property_part_def expect_def parse_scalar_type.simps parse_simple_type_def unindexed_def
      owns_decl_def contains_decl_def has_cost_decl_def runs_as_decl_def can_assume_decl_def
      can_read_decl_def accessed_decl_def
      demo_edge_def_def can_read_def_def accessed_def_def)

lemma cloud_decl_rules:
  "as_rule (cloudaccount_decl idl) = S_node_decl"
  "as_rule (resource_decl idl) = S_node_decl"
  "as_rule (costrecord_decl idl) = S_node_decl"
  "as_rule (iamrole_decl idl) = S_node_decl"
  "as_rule (datastore_decl idl) = S_node_decl"
  "as_rule (owns_decl idl) = S_edge_decl"
  "as_rule (contains_decl idl) = S_edge_decl"
  "as_rule (has_cost_decl idl) = S_edge_decl"
  "as_rule (runs_as_decl idl) = S_edge_decl"
  "as_rule (can_assume_decl idl) = S_edge_decl"
  "as_rule (can_read_decl idl) = S_edge_decl"
  "as_rule (accessed_decl idl) = S_edge_decl"
  by (simp_all add: cloudaccount_decl_def resource_decl_def costrecord_decl_def iamrole_decl_def datastore_decl_def
      owns_decl_def contains_decl_def has_cost_decl_def runs_as_decl_def can_assume_decl_def
      can_read_decl_def accessed_decl_def)

lemma cloud_schema_parsed:
  assumes "schema_pest idl = Ok [cloud_idl_tree idl]"
  shows "schema_parse schema_pest idl = Ok cloud_cost_schema"
proof -
  have maps: "fold_res parse_type_decl (fmempty, fmempty) (cloud_decls idl) =
      Ok (sch_nodes cloud_cost_schema, sch_edges cloud_cost_schema)"
    by (simp add: cloud_decls_def parse_type_decl_def cloud_decl_rules cloud_nodes_parsed cloud_edges_parsed
        cloud_cost_schema_def account_def_def inventory_def_def cost_def_def role_def_def store_def_def
        can_read_def_def accessed_def_def demo_edge_def_def)
  have fold_snd: "fold_res (\<lambda>_ e. check_endpoints nodes (snd e)) () xs =
      fold_res (\<lambda>_. check_endpoints nodes) () (map snd xs)" for nodes and xs :: "(EdgeType \<times> EdgeDef) list"
    by (induction xs) simp_all
  have "fold_res (\<lambda>_. check_endpoints (sch_nodes cloud_cost_schema)) () (map fst cloud_edges) = Ok ()"
    by (simp add: check_endpoints_def accessed_def_def can_read_def_def demo_edge_def_def cloud_cost_schema_def)
  then have ends: "fold_res (\<lambda>_ e. check_endpoints (sch_nodes cloud_cost_schema) (snd e)) ()
      (sorted_list_of_fmap (sch_edges cloud_cost_schema)) = Ok ()"
    by (simp only: fold_snd cloud_edge_types)
  show ?thesis
    by (simp add: schema_parse_def assms cloud_idl_tree_def expect_def maps ends) (simp add: cloud_cost_schema_def)
qed

section \<open>The ingestion\<close>

text \<open>
  A run that finds its warehouse directory created and its catalog opened without tables ends with the
  tables written; a partition node that reads them, whatever its partition, sees the dataset.
\<close>

lemma ingested:
  assumes "iw_create_dir_all W warehouse (iw_remove_dir_all W warehouse (iw_remove_file W db s)) = (Ok (), t)"
    and "open_sql_catalog (iw_sql W) (iw_current_dir W) db warehouse ns t = (Ok c, u)"
    and "db = env_or (iw_env W) ''GRAPH_CATALOG_DB_PATH'' ''./catalog.sqlite''"
    and "warehouse = env_or (iw_env W) ''GRAPH_WAREHOUSE_PATH'' ''./warehouse''"
    and "ns = env_or (iw_env W) ''GRAPH_NAMESPACE'' ''graph''"
    and "stores_tables (iw_crate W c ns)" "\<forall>name. table_absent (iw_crate W c ns) u name"
  shows "\<exists>v. ingest_main W s = Ok (c, v) \<and>
    (\<forall>h config now. shows_tables (node_process_config h config cloud_cost_schema) cloud_data
       (now, IcebergCatalogReader (ic_arrow (iw_crate W c ns)) (ic_tables (iw_crate W c ns) v)))"
proof -
  obtain v where v: "ingest_inventory (iw_crate W c ns) u = Ok v" "list_all (written (iw_crate W c ns) v) cloud_tables"
    by (rule ingest_inventory_Ok [OF assms(6,7)])
  have "ingest_main W s = Ok (c, v)"
    unfolding ingest_main_def Let_def assms(3-5) [symmetric]
    by (simp add: assms(1,2) v(1))
  moreover have "shows_tables (node_process_config h config cloud_cost_schema) cloud_data
       (now, IcebergCatalogReader (ic_arrow (iw_crate W c ns)) (ic_tables (iw_crate W c ns) v))" for h config now
    using cloud_read [OF v(2)] by (simp add: shows_tables_def node_process_config_def builder_at_def)
  ultimately show ?thesis by blast
qed

end
