(* ===== verification/Unused_Permissions.thy ===== *)
theory Unused_Permissions
  imports Cloud_Inventory Running_System
begin

text \<open>
  The query of the viewer's tab of unused permissions (\<open>viewer/index.html\<close>), which uses edge aliases,
  a comparison of properties of two aliases and a correlated \<open>NOT EXISTS\<close>: what it means on the inventory
  that \<open>examples/ingest-cloud-cost\<close> ingests.
\<close>

section \<open>The query\<close>

definition UNUSED_QUERY :: string where
  "UNUSED_QUERY = join_with [CHR 0x0A]
    [''MATCH (r:Resource)-[:RUNS_AS]->(role:IAMRole)-[g:CAN_READ]->(d:DataStore)'',
     ''WHERE d.classification = '' @ [CHR 0x22] @ ''pii'' @ [CHR 0x22],
     ''  AND NOT EXISTS {'',
     ''    MATCH (r)-[a:ACCESSED]->(d)'',
     ''    WHERE a.action = g.action AND a.last_seen >= '' @ [CHR 0x22] @ ''2024-05-01T00:00:00Z'' @ [CHR 0x22],
     ''  }'',
     ''RETURN r, role, g.action, d'']"

definition unused_tree :: "Rule Pair" where
  "unused_tree =
    Pair R_query (span_of UNUSED_QUERY 0 259) [
      Pair R_pattern (span_of UNUSED_QUERY 6 73) [
        Pair R_node_pattern (span_of UNUSED_QUERY 6 18) [Pair R_ident ''r'' [], Pair R_ident ''Resource'' []],
        Pair R_edge_pattern (span_of UNUSED_QUERY 18 31) [
          Pair R_outgoing_edge (span_of UNUSED_QUERY 18 31) [
            Pair R_edge_detail (span_of UNUSED_QUERY 19 29) [Pair R_ident ''RUNS_AS'' []]]],
        Pair R_node_pattern (span_of UNUSED_QUERY 31 45) [Pair R_ident ''role'' [], Pair R_ident ''IAMRole'' []],
        Pair R_edge_pattern (span_of UNUSED_QUERY 45 60) [
          Pair R_outgoing_edge (span_of UNUSED_QUERY 45 60) [
            Pair R_edge_detail (span_of UNUSED_QUERY 46 58) [Pair R_edge_alias ''g'' [], Pair R_ident ''CAN_READ'' []]]],
        Pair R_node_pattern (span_of UNUSED_QUERY 60 73) [Pair R_ident ''d'' [], Pair R_ident ''DataStore'' []]],
      Pair R_where_clause (span_of UNUSED_QUERY 74 231) [
        Pair R_where_condition (span_of UNUSED_QUERY 80 104) [
          Pair R_property_condition (span_of UNUSED_QUERY 80 104) [
            Pair R_ident ''d'' [],
            Pair R_ident ''classification'' [],
            Pair R_comparison_op ''='' [],
            Pair R_literal (span_of UNUSED_QUERY 99 104) [Pair R_string_literal ([CHR 0x22] @ ''pii'' @ [CHR 0x22]) []]]],
        Pair R_where_condition (span_of UNUSED_QUERY 111 231) [
          Pair R_not_exists_clause (span_of UNUSED_QUERY 111 231) [
            Pair R_pattern (span_of UNUSED_QUERY 134 155) [
              Pair R_node_pattern (span_of UNUSED_QUERY 134 137) [Pair R_ident ''r'' []],
              Pair R_edge_pattern (span_of UNUSED_QUERY 137 152) [
                Pair R_outgoing_edge (span_of UNUSED_QUERY 137 152) [
                  Pair R_edge_detail (span_of UNUSED_QUERY 138 150) [Pair R_edge_alias ''a'' [], Pair R_ident ''ACCESSED'' []]]],
              Pair R_node_pattern (span_of UNUSED_QUERY 152 155) [Pair R_ident ''d'' []]],
            Pair R_where_clause (span_of UNUSED_QUERY 160 227) [
              Pair R_where_condition (span_of UNUSED_QUERY 166 185) [
                Pair R_property_property_comparison (span_of UNUSED_QUERY 166 185) [
                  Pair R_ident ''a'' [],
                  Pair R_ident ''action'' [],
                  Pair R_comparison_op ''='' [],
                  Pair R_ident ''g'' [],
                  Pair R_ident ''action'' []]],
              Pair R_where_condition (span_of UNUSED_QUERY 190 227) [
                Pair R_property_condition (span_of UNUSED_QUERY 190 227) [
                  Pair R_ident ''a'' [],
                  Pair R_ident ''last_seen'' [],
                  Pair R_comparison_op ''>='' [],
                  Pair R_literal (span_of UNUSED_QUERY 205 227) [
                    Pair R_string_literal ([CHR 0x22] @ ''2024-05-01T00:00:00Z'' @ [CHR 0x22]) []]]]]]]],
      Pair R_return_clause (span_of UNUSED_QUERY 232 259) [
        Pair R_return_item (span_of UNUSED_QUERY 239 240) [Pair R_ident ''r'' []],
        Pair R_return_item (span_of UNUSED_QUERY 242 246) [Pair R_ident ''role'' []],
        Pair R_return_item (span_of UNUSED_QUERY 248 256) [Pair R_ident ''g'' [], Pair R_ident ''action'' []],
        Pair R_return_item (span_of UNUSED_QUERY 258 259) [Pair R_ident ''d'' []]],
      Pair R_EOI '''' []]"

definition since :: PropertyFilter where
  "since = \<lparr>pf_property = ''last_seen'', pf_op = Gte, pf_value = LString ''2024-05-01T00:00:00Z''\<rparr>"

definition pii_only :: PropertyFilter where
  "pii_only = \<lparr>pf_property = ''classification'', pf_op = Eq, pf_value = LString ''pii''\<rparr>"

definition unused_query :: Query where
  "unused_query =
     \<lparr>q_pattern =
        [StepNode \<lparr>np_alias = ''r'', np_label = Some (Label ''Resource''), np_property_filters = []\<rparr>,
         StepEdge \<lparr>ep_alias = None, ep_edge_type = Some (EdgeType ''RUNS_AS''), ep_direction = Outgoing,
           ep_hops = \<lparr>hr_min = 1, hr_max = 1\<rparr>\<rparr>,
         StepNode \<lparr>np_alias = ''role'', np_label = Some (Label ''IAMRole''), np_property_filters = []\<rparr>,
         StepEdge \<lparr>ep_alias = Some ''g'', ep_edge_type = Some (EdgeType ''CAN_READ''), ep_direction = Outgoing,
           ep_hops = \<lparr>hr_min = 1, hr_max = 1\<rparr>\<rparr>,
         StepNode \<lparr>np_alias = ''d'', np_label = Some (Label ''DataStore''), np_property_filters = []\<rparr>],
      q_where_conditions =
        [WProperty ''d'' pii_only,
         WNotExists (ExistsSubquery
           [StepNode \<lparr>np_alias = ''r'', np_label = None, np_property_filters = []\<rparr>,
            StepEdge \<lparr>ep_alias = Some ''a'', ep_edge_type = Some (EdgeType ''ACCESSED''), ep_direction = Outgoing,
              ep_hops = \<lparr>hr_min = 1, hr_max = 1\<rparr>\<rparr>,
            StepNode \<lparr>np_alias = ''d'', np_label = None, np_property_filters = []\<rparr>]
           [WPropertyComparison \<lparr>pr_alias = ''a'', pr_property = ''action''\<rparr> Eq \<lparr>pr_alias = ''g'', pr_property = ''action''\<rparr>,
            WProperty ''a'' since])],
      q_returns = [\<lparr>ri_alias = ''r'', ri_property = None\<rparr>, \<lparr>ri_alias = ''role'', ri_property = None\<rparr>,
        \<lparr>ri_alias = ''g'', ri_property = Some ''action''\<rparr>, \<lparr>ri_alias = ''d'', ri_property = None\<rparr>],
      q_order_by = None, q_limit = None\<rparr>"

definition grant_hop :: ExpandHopStep where
  "grant_hop =
     \<lparr>eh_from_alias = ''role'', eh_to_alias = ''d'', eh_to_label = Some ''DataStore'', eh_edge_type = Some ''CAN_READ'',
      eh_direction = Outgoing, eh_hops = \<lparr>hr_min = 1, hr_max = 1\<rparr>, eh_filters = [pii_only], eh_edge_alias = Some ''g''\<rparr>"

definition not_accessed :: AntiJoinStep where
  "not_accessed =
     \<lparr>aj_from_alias = ''r'', aj_to_alias = ''d'', aj_direction = Outgoing, aj_edge_alias = Some ''a'',
      aj_edge_type = Some ''ACCESSED'', aj_literal_conditions = [since],
      aj_outer_conditions = [(''action'', Eq, \<lparr>pr_alias = ''g'', pr_property = ''action''\<rparr>)]\<rparr>"

definition unused_plan :: QueryPlan where
  "unused_plan =
     \<lparr>qp_steps = [ResolveAll ''r'' ''Resource'', ExpandHop (demo_hop ''r'' ''role'' ''IAMRole'' ''RUNS_AS'' 1 []),
        ExpandHop grant_hop, AntiJoin not_accessed],
      qp_project = q_returns unused_query\<rparr>"

lemma unused_query_parsed:
  assumes "pest UNUSED_QUERY = Ok [unused_tree]"
  shows "parse pest UNUSED_QUERY = Ok unused_query"
  by (simp add: parse_def assms unused_tree_def parse_query_part_def parse_pattern_def
      parse_node_pattern_def parse_property_map_def parse_literal_def unquote_def parse_edge_pattern_def
      parse_edge_detail_part_def parse_hop_range_def expect_def parse_where_clause.simps
      parse_where_condition.simps parse_not_exists_clause.simps parse_property_condition_def
      parse_property_property_comparison_def parse_comparison_op_def parse_return_clause_def parse_return_item_def unused_query_def since_def pii_only_def)

lemma unused_query_valid: "validate unused_query cloud_cost_schema = Ok ()"
  by (simp add: validate_def unused_query_def validate_node_pattern_def
      validate_edge_pattern_def bind_pattern_node_def bind_edge_type_def cloud_defs
      validate_property_ref_def validate_node_property_filter_def validate_property_def
      validate_return_item_def empty_scope_def since_def pii_only_def validate_edge_property_def validate_anchor_def
      store_def_def can_read_def_def accessed_def_def indexed_def unindexed_def)

lemma unused_query_planned: "plan unused_query = Ok unused_plan"
  by (simp add: plan_def unused_query_def unused_plan_def demo_hop_def resolve_start_or_all_step_def
      start_filter_def where_filters_def where_filter_on_def List.map_filter_simps not_exists_of_def
      expand_step_def compile_anti_join_def anti_join_condition_def grant_hop_def not_accessed_def
      since_def pii_only_def)

section \<open>What it means on the inventory\<close>

text \<open>The grants of stores of personal data: edge, role, store.\<close>

definition pii_grants :: "(i64 \<times> i64 \<times> i64) list" where
  "pii_grants = [(g, role, d). (g, role, d, action) \<leftarrow> can_read, (d', name, class) \<leftarrow> stores, d' = d \<and> class = ''pii'']"

lemma pii_grants_are: "pii_grants = [(2005, 203, 301), (2008, 201, 301), (2010, 205, 303), (2011, 206, 304)]"
  by (simp add: pii_grants_def can_read_def stores_def)

definition running_binding :: "i64 \<Rightarrow> i64 \<Rightarrow> Binding" where
  "running_binding r role = bind_node ''role'' (NodeId role) (binding_from_node ''r'' (NodeId r))"

definition unused_binding :: "i64 \<times> i64 \<times> i64 \<times> i64 \<Rightarrow> Binding" where
  "unused_binding = (\<lambda>(r, role, g, d). bind_edge (Some ''g'') (EdgeId g) (bind_node ''d'' (NodeId d) (running_binding r role)))"

lemma unused_binding_sel:
  "fmlookup (b_nodes (unused_binding (r, role, g, d))) ''r'' = Some (NodeId r)"
  "fmlookup (b_nodes (unused_binding (r, role, g, d))) ''role'' = Some (NodeId role)"
  "fmlookup (b_nodes (unused_binding (r, role, g, d))) ''d'' = Some (NodeId d)"
  "fmlookup (b_nodes (unused_binding (r, role, g, d))) ''g'' = None"
  "fmlookup (b_edges (unused_binding (r, role, g, d))) ''g'' = Some (EdgeId g)"
  "fmlookup (b_edges (unused_binding (r, role, g, d))) ''r'' = None"
  "fmlookup (b_edges (unused_binding (r, role, g, d))) ''role'' = None"
  "fmlookup (b_edges (unused_binding (r, role, g, d))) ''d'' = None"
  by (simp_all add: unused_binding_def running_binding_def bind_edge_def bind_node_def binding_from_node_def
      empty_binding_def)

lemma inj_unused_binding: "inj unused_binding"
proof (rule injI)
  fix x y assume eq: "unused_binding x = unused_binding y"
  obtain r role g d r' role' g' d' where x: "x = (r, role, g, d)" "y = (r', role', g', d')" by (cases x; cases y) auto
  show "x = y"
    using unused_binding_sel(1,2,3,5) [of r role g d] unused_binding_sel(1,2,3,5) [of r' role' g' d'] eq
    by (simp add: x)
qed

lemma cloud_links:
  "links cloud_data Outgoing (Some ''RUNS_AS'') m =
     map (\<lambda>(k, r, role). (EdgeId k, NodeId role)) (filter (\<lambda>(k, r, role). NodeId r = m) runs_as)"
  "links cloud_data Outgoing (Some ''CAN_READ'') m =
     map (\<lambda>(g, role, d, action). (EdgeId g, NodeId d)) (filter (\<lambda>(g, role, d, action). NodeId role = m) can_read)"
  by (simp_all add: links_def cloud_data_sel filter_map comp_def case_prod_unfold edge_type_is_def edge_owner_def
      edge_far_def accessed_def_def can_read_def_def demo_edge_def_def plain_edge_def access_row_def grant_row_def)

lemma cloud_resources: "labelled cloud_data ''Resource'' = NodeId ` fst ` set (fl_resources generated_fleet)"
proof -
  have "nr_id (workload_row w) = NodeId (fst w)" for w by (simp add: workload_row_def case_prod_unfold)
  then show ?thesis by (simp add: labelled_def cloud_data_sel filter_map comp_def image_image)
qed

lemma cloud_stores:
  assumes "(d, name, class) \<in> set stores"
  shows "node_rec cloud_data (NodeId d) = Some \<lparr>nrec_label = Label ''DataStore'',
    nrec_properties = nr_properties (store_row (d, name, class))\<rparr>"
proof -
  have "(Label ''DataStore'', store_row (d, name, class)) \<in> set (ds_nodes cloud_data)"
    using assms by (auto simp: cloud_data_sel)
  then show ?thesis
    unfolding node_rec_row [OF wf_cloud_data] by (force simp: store_row_def)
qed

lemma unused_passes:
  assumes "(d, name, class) \<in> set stores"
  shows "spec_passes cloud_data (\<lambda>_. True) rfc grant_hop (unused_binding (r, role, g, d)) \<longleftrightarrow> class = ''pii''"
  by (simp add: spec_passes_def grant_hop_def unused_binding_sel cloud_stores [OF assms] pii_only_def store_row_def
      evaluate_filter_def literal_matches_def literal_ordering_def cmp_ord_def hm_collect_def)

lemma runs_as_resources: "(k, r, role) \<in> set runs_as \<Longrightarrow> r \<in> fst ` set (fl_resources generated_fleet)"
proof -
  have "fst ` set (fl_resources generated_fleet) = fst ` set hand_crafted \<union> fst ` set fleet_members"
    by (simp add: fleet_closed(1) image_Un image_image case_prod_unfold)
  then show "(k, r, role) \<in> set runs_as \<Longrightarrow> r \<in> fst ` set (fl_resources generated_fleet)"
    by (auto simp: runs_as_def hand_crafted_def dest!: set_numbered) force
qed

lemma unused_hops:
  "spec_expand cloud_data (\<lambda>_. True) rfc grant_hop
     (spec_expand cloud_data (\<lambda>_. True) rfc (demo_hop ''r'' ''role'' ''IAMRole'' ''RUNS_AS'' 1 [])
       (binding_from_node ''r'' ` labelled cloud_data ''Resource'')) =
   unused_binding ` {(r, role, g, d) |k r role g d. (k, r, role) \<in> set runs_as \<and> (g, role, d) \<in> set pii_grants}"
proof -
  let ?up = "\<lambda>_ :: NodeId. True"
  let ?runs = "demo_hop ''r'' ''role'' ''IAMRole'' ''RUNS_AS'' 1 []"
  have at_r: "fmlookup (b_nodes (binding_from_node ''r'' (NodeId r))) ''r'' = Some (NodeId r)" for r
    by (simp add: binding_from_node_def empty_binding_def)
  have "spec_hop cloud_data ?up ?runs (binding_from_node ''r'' (NodeId r)) =
      {running_binding r role |k role. (k, r, role) \<in> set runs_as}" for r
    unfolding demo_single_hop [OF at_r] cloud_links by (force simp: running_binding_def)
  then have runs: "spec_expand cloud_data ?up rfc ?runs (binding_from_node ''r'' ` labelled cloud_data ''Resource'') =
      {running_binding r role |k r role. (k, r, role) \<in> set runs_as}"
    using runs_as_resources
    by (auto simp: spec_expand_def cloud_resources spec_passes_def demo_hop_def) blast+
  have at_role: "fmlookup (b_nodes (running_binding r role)) ''role'' = Some (NodeId role)" for r role
    by (simp add: running_binding_def bind_node_def)
  have hop: "spec_hop cloud_data ?up grant_hop (running_binding r role) =
      {unused_binding (r, role, g, d) |g d action. (g, role, d, action) \<in> set can_read}" for r role
    unfolding spec_hop_def by (auto simp: grant_hop_def at_role cloud_links extend_binding_def unused_binding_def image_iff)
      blast
  have passes: "spec_passes cloud_data ?up rfc grant_hop (unused_binding (r, role, g, d)) \<longleftrightarrow> (g, role, d) \<in> set pii_grants"
    if "(g, role, d, action) \<in> set can_read" for r g role d action
  proof -
    have "d \<in> fst ` set stores" using that by (auto simp: can_read_def stores_def)
    then obtain name cl where d: "(d, name, cl) \<in> set stores" by auto
    have "list_all (\<lambda>(g, role, d, action). list_all (\<lambda>(d', name, cl). d' = d \<longrightarrow>
        ((g, role, d) \<in> set pii_grants \<longleftrightarrow> cl = ''pii'')) stores) can_read"
      by (simp add: can_read_def stores_def pii_grants_are)
    then have "(g, role, d) \<in> set pii_grants \<longleftrightarrow> cl = ''pii''"
      using that d unfolding list_all_iff by fast
    then show ?thesis using unused_passes [OF d] by simp
  qed
  have in_can_read: "\<exists>action. (g, role, d, action) \<in> set can_read" if "(g, role, d) \<in> set pii_grants" for g role d
    using that by (auto simp: pii_grants_are can_read_def)
  show ?thesis
    unfolding runs
  proof (intro set_eqI iffI)
    fix b' assume "b' \<in> spec_expand cloud_data ?up rfc grant_hop {running_binding r role |k r role. (k, r, role) \<in> set runs_as}"
    then obtain k r role where r: "(k, r, role) \<in> set runs_as" "b' \<in> spec_hop cloud_data ?up grant_hop (running_binding r role)"
      and p: "spec_passes cloud_data ?up rfc grant_hop b'"
      unfolding spec_expand_def by blast
    from r(2) obtain g d action where g: "(g, role, d, action) \<in> set can_read" "b' = unused_binding (r, role, g, d)"
      unfolding hop by blast
    with p passes have "(g, role, d) \<in> set pii_grants" by simp
    with r(1) g(2) show "b' \<in> unused_binding ` {(r, role, g, d) |k r role g d. (k, r, role) \<in> set runs_as \<and>
        (g, role, d) \<in> set pii_grants}" by blast
  next
    fix b' assume "b' \<in> unused_binding ` {(r, role, g, d) |k r role g d. (k, r, role) \<in> set runs_as \<and>
        (g, role, d) \<in> set pii_grants}"
    then obtain k r role g d where r: "(k, r, role) \<in> set runs_as" "(g, role, d) \<in> set pii_grants"
      "b' = unused_binding (r, role, g, d)" by blast
    obtain action where "(g, role, d, action) \<in> set can_read" using in_can_read [OF r(2)] by blast
    then have "b' \<in> spec_hop cloud_data ?up grant_hop (running_binding r role)" "spec_passes cloud_data ?up rfc grant_hop b'"
      unfolding hop r(3) using passes r(2) by blast+
    with r(1) show "b' \<in> spec_expand cloud_data ?up rfc grant_hop {running_binding r role |k r role. (k, r, role) \<in> set runs_as}"
      unfolding spec_expand_def by blast
  qed
qed

text \<open>The records of edges, by their ids.\<close>

lemma edge_rows_by_id:
  assumes "wf_dataset D" "(ty, row) \<in> set (ds_edges D)"
  shows "edge_source D (er_id row) = Some (er_src row)"
    and "edge_rec D (er_id row) = Some (snd (edge_record_entry (ty, row)))"
proof -
  have "distinct (map fst (map (\<lambda>(_, row). (er_id row, er_src row)) (ds_edges D)))"
    and "distinct (map fst (map edge_record_entry (ds_edges D)))"
    using assms(1) by (simp_all add: wf_dataset_def edge_record_entry_def comp_def case_prod_unfold)
  then show "edge_source D (er_id row) = Some (er_src row)"
    and "edge_rec D (er_id row) = Some (snd (edge_record_entry (ty, row)))"
    unfolding edge_source_def edge_rec_def using assms(2)
    by (auto intro!: map_of_is_SomeI simp: image_iff edge_record_entry_def) force+
qed

lemma grant_action:
  assumes "(g, role, d, action) \<in> set can_read"
  shows "outer_value cloud_data (\<lambda>_. True) (unused_binding (r, role', g, d')) \<lparr>pr_alias = ''g'', pr_property = ''action''\<rparr> =
    Some (VString action)"
proof -
  have "(EdgeType ''CAN_READ'', grant_row (g, role, d, action)) \<in> set (ds_edges cloud_data)"
    using assms by (auto simp: cloud_data_sel can_read_def_def)
  from edge_rows_by_id [OF wf_cloud_data this] show ?thesis
    by (simp add: outer_value_def unused_binding_sel grant_row_def edge_record_entry_def hm_collect_def)
qed

definition trusted_since :: "(string \<Rightarrow> i64 option) \<Rightarrow> bool" where
  "trusted_since rfc \<longleftrightarrow>
     (case rfc ''2024-05-01T00:00:00Z'' of Some t \<Rightarrow> sint t \<le> sint ACCESSED_LAST_SEEN | None \<Rightarrow> False)"

lemma edge_exists_accessed:
  "edge_exists cloud_data rfc (Some ''ACCESSED'') m n conds \<longleftrightarrow>
     (\<exists>x \<in> set accesses. er_src (access_row x) = m \<and> er_dst (access_row x) = n \<and>
        list_all (evaluate_filter rfc (er_properties (access_row x))) conds)"
  by (simp add: edge_exists_def list_ex_iff cloud_data_sel bex_Un edge_type_is_def accessed_def_def can_read_def_def
      demo_edge_def_def)

lemma accessed_edge:
  assumes "trusted_since rfc"
  shows "edge_exists cloud_data rfc (Some ''ACCESSED'') (NodeId r) (NodeId d)
      [since, \<lparr>pf_property = ''action'', pf_op = Eq, pf_value = LString ''s3:GetObject''\<rparr>] \<longleftrightarrow>
    (\<exists>k. (k, r, d) \<in> set accesses)"
proof -
  obtain t where t: "rfc ''2024-05-01T00:00:00Z'' = Some t" "sint t \<le> sint ACCESSED_LAST_SEEN"
    using assms by (auto simp: trusted_since_def split: option.splits)
  have passes: "list_all (evaluate_filter rfc (er_properties (access_row x)))
      [since, \<lparr>pf_property = ''action'', pf_op = Eq, pf_value = LString ''s3:GetObject''\<rparr>]" for x
    using t by (simp add: access_row_def case_prod_unfold since_def evaluate_filter_def literal_matches_def
        literal_ordering_def i64_cmp_def cmp_ord_def hm_collect_def)
  show ?thesis unfolding edge_exists_accessed using passes by (force simp: access_row_def)
qed

lemma unused_survives:
  assumes "trusted_since rfc" "(g, role, d) \<in> set pii_grants"
  shows "spec_survives cloud_data (\<lambda>_. True) rfc not_accessed (unused_binding (r, role, g, d)) \<longleftrightarrow>
    (\<nexists>k. (k, r, d) \<in> set accesses)"
proof -
  have "(g, role, d, ''s3:GetObject'') \<in> set can_read"
    using assms(2) by (auto simp: pii_grants_are can_read_def)
  from grant_action [OF this] show ?thesis
    using accessed_edge [OF assms(1), of r d]
    by (simp add: spec_survives_def not_accessed_def unused_binding_sel)
qed

text \<open>
  The unused grants: a workload, the role it runs as, a grant of that role on a store of personal data, and
  the store, which the workload has not accessed.
\<close>

definition unused_grants :: "(i64 \<times> i64 \<times> i64 \<times> i64) set" where
  "unused_grants = {(r, role, g, d) |k r role g d. (k, r, role) \<in> set runs_as \<and> (g, role, d) \<in> set pii_grants \<and>
     (\<nexists>k. (k, r, d) \<in> set accesses)}"

lemma unused_meaning:
  assumes "trusted_since rfc"
  shows "spec_plan cloud_data (\<lambda>_. True) rfc (qp_steps unused_plan) = unused_binding ` unused_grants"
  using unused_survives [OF assms] by (auto simp: unused_plan_def unused_hops unused_grants_def) blast+

section \<open>How many there are\<close>

lemma map_filter_keyed:
  fixes h :: "'b \<Rightarrow> 'c option"
  defines "F \<equiv> List.map_filter (\<lambda>(i, w). map_option (\<lambda>y. (i, y)) (h w))"
  shows "length (F ws) = length (filter (\<lambda>w. h w \<noteq> None) (map snd ws))"
    and "set (F ws) = {(i, y) |i w y. (i, w) \<in> set ws \<and> h w = Some y}"
    and "distinct (map fst ws) \<Longrightarrow> distinct (F ws)"
proof -
  show "length (F ws) = length (filter (\<lambda>w. h w \<noteq> None) (map snd ws))"
    unfolding F_def by (induction ws) (auto simp: List.map_filter_simps split: option.split)
  show s: "set (F ws) = {(i, y) |i w y. (i, w) \<in> set ws \<and> h w = Some y}" for ws
    unfolding F_def by (induction ws) (auto simp: List.map_filter_simps split: option.splits)
  show "distinct (map fst ws) \<Longrightarrow> distinct (F ws)"
  proof (induction ws)
    case (Cons iw ws)
    obtain i w where iw: "iw = (i, w)" by (cases iw)
    have "F (iw # ws) = (case h w of Some y \<Rightarrow> (i, y) # F ws | None \<Rightarrow> F ws)"
      by (simp add: F_def iw List.map_filter_simps split: option.split)
    moreover have "(i, y) \<notin> set (F ws)" for y using Cons.prems by (force simp: s iw)
    ultimately show ?case using Cons by (simp split: option.split)
  qed (simp add: F_def List.map_filter_simps)
qed

definition unused_grant :: "Member \<Rightarrow> (i64 \<times> i64 \<times> i64) option" where
  "unused_grant w =
     (if member_store w = None
      then map_option (\<lambda>(g, d). (member_role w, g, d))
        (map_of (map (\<lambda>(g, role, d). (role, (g, d))) pii_grants) (member_role w))
      else None)"

lemma unused_grant_iff:
  assumes "w \<in> set members"
  shows "unused_grant w = Some (role, g, d) \<longleftrightarrow>
    role = member_role w \<and> (g, role, d) \<in> set pii_grants \<and> member_store w \<noteq> Some d"
proof -
  obtain role' prefix count i pii where w: "w = (role', prefix, i, pii)" "(role', prefix, count, pii) \<in> set role_groups"
    using assms by (auto simp: members_def)
  from w(2) have "(role', pii) \<in> {(201, True), (203, True), (205, True), (206, True), (202, False), (204, False),
      (207, False), (208, False), (209, False), (210, False)}"
    by (auto simp: role_groups_def)
  then show ?thesis
    unfolding w(1) unused_grant_def member_role_def member_store_def pii_store_for_role_def pii_grants_are
    by (elim insertE emptyE) (cases "i mod 5 = 0"; auto)+
qed

lemma fleet_ids_distinct: "distinct (map fst fleet_members)"
proof -
  have "map unat (map fst fleet_members) = [10000..<10966]"
    using numbered_ids [of 10000 members] by (simp add: fleet_members_def length_members)
  then have "distinct (map unat (map fst fleet_members))" by (simp only: distinct_upt)
  then show ?thesis by (simp only: distinct_map)
qed

lemma fleet_accessed:
  assumes "(i, w) \<in> set fleet_members"
  shows "(\<exists>k. (k, i, d) \<in> set accesses) \<longleftrightarrow> member_store w = Some d"
proof -
  have "unat i \<ge> 10000" using cloud_member_ids [OF assms] by simp
  then have "i \<noteq> 4" by auto
  then have "(\<exists>k. (k, i, d) \<in> set accesses) \<longleftrightarrow> (i, d) \<in> set (fl_generated_accessed generated_fleet)"
    by (auto simp: accesses_def dest: set_numbered) (meson numbered_in)
  also have "\<dots> \<longleftrightarrow> member_store w = Some d"
    using eq_key_imp_eq_value [OF fleet_ids_distinct] assms unfolding accessed_pairs by blast
  finally show ?thesis .
qed

lemma hand_accessed: "r < 10000 \<Longrightarrow> (\<exists>k. (k, r, d) \<in> set accesses) \<longleftrightarrow> r = 4 \<and> d = 301"
proof -
  assume r: "r < 10000"
  have "(r, w) \<notin> set fleet_members" for w using cloud_member_ids [of r w] r by (auto simp: word_less_nat_alt)
  then have "(r, d) \<notin> set (fl_generated_accessed generated_fleet)" by (auto simp: accessed_pairs)
  then show ?thesis by (auto simp: accesses_def dest: set_numbered)
qed

lemma unused_grants_list:
  "unused_grants = set ((5, 201, 2008, 301) #
     List.map_filter (\<lambda>(i, w). map_option (\<lambda>y. (i, y)) (unused_grant w)) fleet_members)" (is "_ = ?L")
proof (intro set_eqI iffI)
  have members: "w \<in> set members" if "(i, w) \<in> set fleet_members" for i w
    using that by (auto simp: fleet_members_def dest: set_numbered)
  fix x :: "i64 \<times> i64 \<times> i64 \<times> i64"
  obtain r role g d where x: "x = (r, role, g, d)" by (cases x)
  {
    assume "x \<in> unused_grants"
    then obtain k where u: "(k, r, role) \<in> set runs_as" "(g, role, d) \<in> set pii_grants" "\<nexists>k. (k, r, d) \<in> set accesses"
      by (auto simp: unused_grants_def x)
    from u(1) consider "r = 4" "role = 201" | "r = 5" "role = 201" | "r = 8" "role = 204"
      | w where "(r, w) \<in> set fleet_members" "role = member_role w"
      by (auto simp: runs_as_def dest!: set_numbered)
    then show "x \<in> ?L"
    proof cases
      case 1 then show ?thesis using u(2,3) hand_accessed [of 4 d] by (auto simp: pii_grants_are)
    next
      case 2 then show ?thesis using u(2) by (auto simp: x pii_grants_are)
    next
      case 3 then show ?thesis using u(2) by (auto simp: pii_grants_are)
    next
      case 4
      then have "unused_grant w = Some (role, g, d)"
        using u(2,3) fleet_accessed [OF 4(1), of d] unused_grant_iff [OF members [OF 4(1)], of role g d] by auto
      with 4(1) show ?thesis unfolding x list.set map_filter_keyed(2) by blast
    qed
  }
  assume "x \<in> ?L"
  then consider "x = (5, 201, 2008, 301)" | w where "(r, w) \<in> set fleet_members" "unused_grant w = Some (role, g, d)"
    by (auto simp: x map_filter_keyed(2))
  then show "x \<in> unused_grants"
  proof cases
    case 1
    have "(2001, 5, 201) \<in> set runs_as" by (simp add: runs_as_def)
    then show ?thesis using hand_accessed [of 5 301] by (auto simp: 1 unused_grants_def pii_grants_are)
  next
    case 2
    then have w: "role = member_role w" "(g, role, d) \<in> set pii_grants" "member_store w \<noteq> Some d"
      using unused_grant_iff [OF members [OF 2(1)]] by auto
    have "(r, member_role w) \<in> set (map (\<lambda>(i, w). (i, member_role w)) fleet_members)" using 2(1) by force
    then obtain k where "(k, r, member_role w) \<in> set (numbered 100000 (map (\<lambda>(i, w). (i, member_role w)) fleet_members))"
      by (rule numbered_in)
    then have "(k, r, role) \<in> set runs_as" unfolding runs_as_def set_append w(1) by (rule UnI2)
    then show ?thesis using w(2,3) fleet_accessed [OF 2(1), of d] by (auto simp: x unused_grants_def)
  qed
qed

lemma count_fifth: "length (filter (\<lambda>i. i mod 5 = 0) [0..<n]) = (n + 4) div 5"
proof -
  have "length (filter (\<lambda>i. i mod 5 = 0) [0..<n]) + length (filter (\<lambda>i. i mod 5 \<noteq> 0) [0..<n]) = n"
    using sum_length_filter_compl [of "\<lambda>i. i mod 5 = 0" "[0..<n]"] by simp
  moreover have "(n + 4) div 5 \<le> n" by presburger
  ultimately show ?thesis using count_not_fifth [of n] by linarith
qed

lemma unused_grants_count: "finite unused_grants" "card unused_grants = 180"
proof -
  let ?F = "List.map_filter (\<lambda>(i, w). map_option (\<lambda>y. (i, y)) (unused_grant w)) fleet_members"
  have "5 \<notin> fst ` set fleet_members" using cloud_member_ids [of 5] by fastforce
  then have "(5, 201, 2008, 301) \<notin> set ?F" by (force simp: map_filter_keyed(2))
  then have "distinct ((5, 201, 2008, 301) # ?F)" using map_filter_keyed(3) [OF fleet_ids_distinct] by simp
  then have "card unused_grants = Suc (length ?F)"
    unfolding unused_grants_list by (simp only: distinct_card length_Cons)
  also have "length ?F = length (filter (\<lambda>w. unused_grant w \<noteq> None) members)"
    unfolding map_filter_keyed(1) fleet_members_def by (simp only: snd_numbered)
  also have "\<dots> = 179"
    using count_fifth
    by (simp add: members_def role_groups_def filter_concat filter_map comp_def unused_grant_def member_store_def
        pii_store_for_role_def member_role_def pii_grants_are)
  finally show "card unused_grants = 180" by simp
  show "finite unused_grants" unfolding unused_grants_list by (rule finite_set)
qed

section \<open>Asked of the system\<close>

lemma unused_plan_small:
  "small_plan (\<lambda>n. n \<le> 2 ^ 32) cloud_data (\<lambda>_. True) rfc (qp_steps unused_plan)"
proof -
  let ?H = "{(r, role, g, d) |k r role g d. (k, r, role) \<in> set runs_as \<and> (g, role, d) \<in> set pii_grants}"
  let ?R = "(\<lambda>(x, g, d). (fst (snd x), snd (snd x), g, d)) ` (set runs_as \<times> (\<lambda>(g, role, d). (g, d)) ` set pii_grants)"
  have fin: "finite (set runs_as \<times> (\<lambda>(g, role, d). (g, d)) ` set pii_grants)" by simp
  have sub: "?H \<subseteq> ?R" by (force simp: image_iff)
  have "card ((\<lambda>(g, role, d). (g, d)) ` set pii_grants) \<le> 4"
    using card_image_le [of "set pii_grants"] card_length [of pii_grants] by (simp add: pii_grants_are)
  moreover have "card (set runs_as) \<le> 969"
    using card_length [of runs_as] by (simp add: runs_as_def)
  ultimately have "card (set runs_as \<times> (\<lambda>(g, role, d). (g, d)) ` set pii_grants) \<le> 969 * 4"
    unfolding card_cartesian_product by (rule mult_le_mono [rotated])
  then have "card ?R \<le> 969 * 4" using card_image_le [OF fin] le_trans by blast
  then have "card ?H \<le> 969 * 4" using card_mono [OF finite_imageI [OF fin] sub] le_trans by blast
  moreover have "finite ?H" using finite_subset [OF sub finite_imageI [OF fin]] .
  ultimately have "card (unused_binding ` ?H) \<le> 969 * 4" using card_image_le le_trans by blast
  then have "card (unused_binding ` ?H) \<le> 2 ^ 32" by simp
  then show ?thesis by (simp add: unused_plan_def unused_hops)
qed

lemma unused_runnable:
  assumes "dp_data (nt_dep c) = cloud_data" "reachable (nt_dep c) = (\<lambda>_. True)"
  shows "runnable c unused_query"
proof -
  have "\<not> compares_with_itself sq" if "WNotExists sq \<in> set (q_where_conditions unused_query)" for sq
    using that by (auto simp: unused_query_def compares_with_itself_def)
  then show ?thesis
    unfolding runnable_def unused_query_planned assms using unused_plan_small by simp
qed

text \<open>The row of an unused grant: the workload, its role, the action granted and the store.\<close>

definition unused_row :: "i64 \<times> i64 \<times> i64 \<times> i64 \<Rightarrow> QueryResult" where
  "unused_row x = spec_row cloud_data (\<lambda>_. True) (q_returns unused_query) (unused_binding x)"

definition unused_projection :: "i64 \<times> i64 \<times> i64 \<times> i64 \<Rightarrow> (string, ProtoValue) fmap" where
  "unused_projection = (\<lambda>(r, role, g, d). fmap_of_list
     [(''r'', int64_value r), (''role'', int64_value role), (''g.action'', \<lparr>pv_kind = Some (StringValue ''s3:GetObject'')\<rparr>),
      (''d'', int64_value d)])"

lemma unused_row_projection:
  assumes "x \<in> unused_grants"
  shows "qr_projection (unused_row x) = unused_projection x"
proof -
  obtain r role g d where x: "x = (r, role, g, d)" and g: "(g, role, d) \<in> set pii_grants"
    using assms by (auto simp: unused_grants_def)
  have action: "(g, role, d, ''s3:GetObject'') \<in> set can_read"
    using g by (auto simp: pii_grants_are can_read_def)
  show ?thesis
    by (rule fmap_ext)
      (auto simp: x unused_row_def spec_row_def unused_query_def spec_item_def unused_binding_sel grant_action [OF action]
        unused_projection_def fmlookup_of_list)
qed

lemma unused_answered:
  assumes "networked_ok c" "fully_available (nt_dep c)" "dp_data (nt_dep c) = cloud_data"
    and "trusted_since (dp_rfc (nt_dep c))" "gs_discovery S = Ok (dp_map (nt_dep c))"
    and "gs_executor S = \<lparr>sg_rpc = networked_rpc c, sg_hasher = dp_hasher (nt_dep c)\<rparr>"
    and "gs_schema S = cloud_cost_schema" "pest_conforms pest" "pest UNUSED_QUERY = Ok [unused_tree]"
  shows "\<exists>rows gs. execute_query (dp_hash (nt_dep c)) (dp_order (nt_dep c)) (dp_rfc (nt_dep c)) pest S UNUSED_QUERY = Ok rows \<and>
    map qr_projection rows = map unused_projection gs \<and> set gs = unused_grants \<and> distinct gs"
proof -
  have up: "reachable (nt_dep c) = (\<lambda>_. True)"
    using fully_available_reachable [OF networked.valid_hasher [OF assms(1)] assms(2)] by auto
  have no_empty: "edge_def (gs_schema S) (EdgeType []) = None"
    by (simp add: assms(7) cloud_cost_schema_def edge_def_def)
  have valid: "validate unused_query (gs_schema S) = Ok ()" by (simp add: assms(7) unused_query_valid)
  have parsed: "parse pest UNUSED_QUERY = Ok unused_query" by (rule unused_query_parsed) (rule assms(9))
  from execute_query_runs [OF assms(1,5,6) no_empty assms(8) parsed valid unused_query_planned
      unused_runnable [OF assms(3) up]]
  obtain bs where run: "execute_query (dp_hash (nt_dep c)) (dp_order (nt_dep c)) (dp_rfc (nt_dep c)) pest S UNUSED_QUERY =
      Ok (map (spec_row cloud_data (\<lambda>_. True) (q_returns unused_query)) bs)"
    and bs: "set bs = unused_binding ` unused_grants" "distinct bs"
    unfolding assms(3) up unused_meaning [OF assms(4)]
    by (auto simp: unused_plan_def limited_def ordered_rows_def unused_query_def)
  let ?gs = "map (inv unused_binding) bs"
  have bound: "map unused_binding ?gs = bs"
    unfolding map_map comp_def using bs(1) by (intro map_idI f_inv_into_f) blast
  have gs: "set ?gs = unused_grants"
    using bs(1) inj_unused_binding by (simp add: image_image inv_f_f)
  have "distinct ?gs" using bs(2) bound distinct_map by metis
  moreover have "map qr_projection (map (spec_row cloud_data (\<lambda>_. True) (q_returns unused_query)) bs) =
      map unused_projection ?gs"
  proof -
    have "map qr_projection (map (spec_row cloud_data (\<lambda>_. True) (q_returns unused_query)) (map unused_binding ?gs)) =
        map (\<lambda>x. qr_projection (unused_row x)) ?gs"
      by (simp only: map_map comp_def unused_row_def)
    also have "\<dots> = map unused_projection ?gs"
      using gs unused_row_projection by (intro map_cong refl) blast
    finally show ?thesis unfolding bound .
  qed
  ultimately show ?thesis using run gs by blast
qed

end
