(* ===== verification/Sample_Inventory.thy ===== *)
theory Sample_Inventory
  imports Sample_Operations Sample_Demo Unused_Permissions
begin

text \<open>
  A world in which the inventory is ingested, and a deployment of two partitions that serves it, for the
  witnesses of the properties of \<open>Cloud_Inventory\<close> and \<open>Unused_Permissions\<close>.
\<close>

section \<open>The ingestion\<close>

text \<open>Removing the warehouse empties the store; its namespace is there already.\<close>

definition inventory_sql :: "(SampleStore, unit) sql_ops" where
  "inventory_sql =
     \<lparr>sql_load = (\<lambda>uri location s. (Ok (), s)), sql_namespace_exists = (\<lambda>c n s. (Ok True, s)),
      sql_create_namespace = (\<lambda>c n s. (Ok (), s))\<rparr>"

definition sample_ingest_world :: "(SampleStore, unit, Column) IngestWorld" where
  "sample_ingest_world =
     \<lparr>iw_env = (\<lambda>_. None), iw_remove_file = (\<lambda>_ s. s), iw_remove_dir_all = (\<lambda>_ _ _. None),
      iw_create_dir_all = (\<lambda>_ s. (Ok (), s)), iw_current_dir = Ok ''/srv/graph'', iw_sql = inventory_sql,
      iw_crate = (\<lambda>_ _. sample_crate)\<rparr>"

lemma sample_ingest_world_sel [simp]:
  "iw_env sample_ingest_world = (\<lambda>_. None)" "iw_remove_file sample_ingest_world = (\<lambda>_ s. s)"
  "iw_remove_dir_all sample_ingest_world = (\<lambda>_ _ _. None)" "iw_create_dir_all sample_ingest_world = (\<lambda>_ s. (Ok (), s))"
  "iw_current_dir sample_ingest_world = Ok ''/srv/graph''" "iw_sql sample_ingest_world = inventory_sql"
  "iw_crate sample_ingest_world = (\<lambda>_ _. sample_crate)"
  by (simp_all add: sample_ingest_world_def)

lemma inventory_catalog_opens:
  "open_sql_catalog inventory_sql (Ok ''/srv/graph'') ''./catalog.sqlite'' ''./warehouse'' ''graph'' s = (Ok (), s)"
  by (simp add: open_sql_catalog_def absolute_warehouse_rooted has_root_def inventory_sql_def)

section \<open>The deployment\<close>

definition inventory_rfc :: "string \<Rightarrow> i64 option" where
  "inventory_rfc text = (if text = ''2024-05-01T00:00:00Z'' then Some 1714521600000000 else None)"

lemma inventory_rfc_trusted: "trusted_since inventory_rfc"
  by (simp add: trusted_since_def inventory_rfc_def ACCESSED_LAST_SEEN_def)

definition inventory_deployment :: Deployment where
  "inventory_deployment =
     \<lparr>dp_hash = (\<lambda>x. x), dp_order = insertion_order, dp_rfc = inventory_rfc,
      dp_hasher = \<lparr>ph_n_partitions = 2\<rparr>, dp_map = two_partitions, dp_data = cloud_data\<rparr>"

definition inventory_generation :: "u32 \<Rightarrow> IndexGeneration" where
  "inventory_generation p =
     (case assemble (\<lambda>x. x) cloud_cost_schema 2 0 (PartitionId p) fmempty
        (ds_nodes cloud_data) (ds_edges cloud_data) :: (RebuildError, IndexGeneration) res of Ok g \<Rightarrow> g)"

lemma built_inventory_generation:
  "built_for (\<lambda>x. x) 2 cloud_data (PartitionId p) (inventory_generation p)"
proof -
  have b: "index_bounds (ds_nodes cloud_data) (ds_edges cloud_data)"
    using wf_cloud_data by (simp add: wf_dataset_def)
  have two: "(2 :: u32) \<noteq> 0" by simp
  obtain g where g: "assemble (\<lambda>x. x) cloud_cost_schema 2 0 (PartitionId p) fmempty
      (ds_nodes cloud_data) (ds_edges cloud_data) = (Ok g :: (RebuildError, IndexGeneration) res)"
    by (rule assemble_Ok [OF two b, where schema = cloud_cost_schema and now = 0 and part = "PartitionId p"
        and snaps = fmempty and h = "\<lambda>x. x" and ?'f = RebuildError and ?'e = ExecutionError])
      (rule that, assumption)
  have "ds_schema cloud_data = cloud_cost_schema" by (simp add: cloud_data_def)
  with g show ?thesis
    unfolding built_for_def by (intro exI [of _ 0] exI [of _ fmempty]) (simp add: inventory_generation_def)
qed

definition inventory_network :: Network where
  "inventory_network =
     \<lparr>nw_connect = (\<lambda>address.
        if address = re_address (sample_endpoint 0)
        then Ok \<lparr>psi_generation = inventory_generation 0, psi_partition = PartitionId 0\<rparr>
        else if address = re_address (sample_endpoint 1)
        then Ok \<lparr>psi_generation = inventory_generation 1, psi_partition = PartitionId 1\<rparr>
        else Err ''connection refused''),
      nw_show_status = st_message, nw_aborted = internal ''handler panicked''\<rparr>"

definition inventory_networked :: Networked where
  "inventory_networked =
     \<lparr>nt_dep = inventory_deployment, nt_network = inventory_network, nt_clients = fmempty\<rparr>"

lemma inventory_networked_sel [simp]:
  "nt_dep inventory_networked = inventory_deployment" "nt_network inventory_networked = inventory_network"
  "nt_clients inventory_networked = fmempty" "dp_hash inventory_deployment = (\<lambda>x. x)"
  "dp_order inventory_deployment = insertion_order" "dp_rfc inventory_deployment = inventory_rfc"
  "dp_hasher inventory_deployment = \<lparr>ph_n_partitions = 2\<rparr>" "dp_map inventory_deployment = two_partitions"
  "dp_data inventory_deployment = cloud_data"
  by (simp_all add: inventory_networked_def inventory_deployment_def)

lemma inventory_networked_ok: "networked_ok inventory_networked"
  using sample_addresses_differ
  by (auto simp: networked_ok_def wf_cloud_data pick_sample rpc_client_def inventory_network_def
      built_inventory_generation split: if_splits)

lemma inventory_fully_available: "fully_available inventory_deployment"
  by (auto simp: fully_available_def pick_sample less_two)

section \<open>The coordinator\<close>

definition inventory_service :: GraphServiceImpl where
  "inventory_service =
     \<lparr>gs_schema = cloud_cost_schema, gs_schema_idl = [], gs_discovery = Ok two_partitions,
      gs_executor = \<lparr>sg_rpc = networked_rpc inventory_networked, sg_hasher = \<lparr>ph_n_partitions = 2\<rparr>\<rparr>\<rparr>"

lemma inventory_service_sel [simp]:
  "gs_schema inventory_service = cloud_cost_schema" "gs_discovery inventory_service = Ok two_partitions"
  "gs_executor inventory_service = \<lparr>sg_rpc = networked_rpc inventory_networked, sg_hasher = \<lparr>ph_n_partitions = 2\<rparr>\<rparr>"
  by (simp_all add: inventory_service_def)

definition inventory_pest :: "string \<Rightarrow> (PestError, Rule Pair list) res" where
  "inventory_pest source =
     (if source = UNUSED_QUERY then Ok [unused_tree]
      else Err \<lparr>pe_location = Pos 0, pe_message = ''expected query''\<rparr>)"

lemma inventory_pest_query: "inventory_pest UNUSED_QUERY = Ok [unused_tree]"
  by (simp add: inventory_pest_def)

lemma inventory_pest_conforms: "pest_conforms inventory_pest"
proof -
  have "as_rule unused_tree = R_query" by (simp add: unused_tree_def)
  moreover have "conforms unused_tree"
    by (simp add: unused_tree_def opt_def is_ident_def is_string_literal_def is_ascii_digit_def)
  ultimately show ?thesis by (simp add: pest_conforms_def inventory_pest_def)
qed

end
