(* ===== verification/Query_Client.thy ===== *)
theory Query_Client
  imports Viewer Configuration
begin

text \<open>
  \<open>examples/query-client/src/main.rs\<close>: the command line client of the coordinator, as the texts it prints
  and how it ends. Connecting and calling the coordinator is a parameter, as in \<open>Viewer\<close>; so is the
  decimal form of an \<open>f64\<close>. The counter of rows is an \<open>i32\<close>, which wraps.
\<close>

section \<open>Values\<close>

definition show_int :: "int \<Rightarrow> string" where
  "show_int i = (if i < 0 then ''-'' @ show_nat (nat (- i)) else show_nat (nat i))"

text \<open>\<open>format!("{v:?}")\<close> of bytes.\<close>

definition debug_bytes :: "u8 list \<Rightarrow> string" where
  "debug_bytes bs = ''['' @ join_with '', '' (map (\<lambda>b. show_nat (unat b)) bs) @ '']''"

definition format_value :: "(f64 \<Rightarrow> string) \<Rightarrow> ProtoValue \<Rightarrow> string" where
  "format_value show_f64 v =
     (case pv_kind v of
        Some (Int64Value i) \<Rightarrow> show_int (sint i)
      | Some (Float64Value x) \<Rightarrow> show_f64 x
      | Some (BoolValue b) \<Rightarrow> (if b then ''true'' else ''false'')
      | Some (StringValue s) \<Rightarrow> s
      | Some (TimestampValue t) \<Rightarrow> show_int (sint t)
      | Some (BytesValue bs) \<Rightarrow> debug_bytes bs
      | None \<Rightarrow> ''<none>'')"

section \<open>The run\<close>

definition row_text :: "hash_order \<Rightarrow> (f64 \<Rightarrow> string) \<Rightarrow> 32 word \<Rightarrow> QueryResult \<Rightarrow> string" where
  "row_text ho show_f64 found result =
     ''  ['' @ show_int (sint found) @ ''] '' @
       join_with '', '' (map (\<lambda>(alias, value). alias @ '' = '' @ format_value show_f64 value)
         (hm_iter ho (qr_projection result)))"

text \<open>The loop over the stream: what it prints, and the count or the error it stops at.\<close>

fun print_stream ::
  "hash_order \<Rightarrow> (f64 \<Rightarrow> string) \<Rightarrow> 32 word \<Rightarrow> (Status, QueryResult) res list \<Rightarrow> string list \<times> (Status, 32 word) res" where
  "print_stream ho show_f64 found [] = ([], Ok found)"
| "print_stream ho show_f64 found (item # stream) =
     (case item of
        Ok result \<Rightarrow>
          (let found = found + 1;
               (printed, outcome) = print_stream ho show_f64 found stream in
           (row_text ho show_f64 found result # printed, outcome))
      | Err st \<Rightarrow> ([], Err st)
      | Panic m \<Rightarrow> ([], Panic m))"

datatype ClientError = Usage string | Called QueryError

definition query_client ::
  "hash_order \<Rightarrow> (f64 \<Rightarrow> string) \<Rightarrow> Environment \<Rightarrow> (string \<Rightarrow> (string, GraphServiceClient) res) \<Rightarrow> string list \<Rightarrow>
     string list \<times> (ClientError, unit) res" where
  "query_client ho show_f64 env connect args =
     (let addr = env_or env ''GRAPH_COORDINATOR_ADDR'' ''http://127.0.0.1:7000'' in
      case args of
        _ # dsl # _ \<Rightarrow>
          (let opening = ''Connecting to '' @ addr @ ''...'' in
           case connect addr of
             Ok client \<Rightarrow>
               (let asked = ''Query:'' @ [CHR 0x0A] @ ''  '' @ dsl @ [CHR 0x0A] in
                case client dsl of
                  Ok stream \<Rightarrow>
                    (case print_stream ho show_f64 0 stream of
                       (printed, Ok found) \<Rightarrow>
                         ([opening, asked] @ printed @ [[CHR 0x0A] @ show_int (sint found) @ '' result(s).''], Ok ())
                     | (printed, Err st) \<Rightarrow> ([opening, asked] @ printed, Err (Called (Grpc st)))
                     | (printed, Panic m) \<Rightarrow> ([opening, asked] @ printed, Panic m))
                | Err st \<Rightarrow> ([opening, asked], Err (Called (Grpc st)))
                | Panic m \<Rightarrow> ([opening, asked], Panic m))
           | Err e \<Rightarrow> ([opening], Err (Called (Connect e)))
           | Panic m \<Rightarrow> ([opening], Panic m))
      | _ \<Rightarrow> ([], Err (Usage (''usage: query-client '' @ [CHR 0x27] @ ''<DSL query>'' @ [CHR 0x27]))))"

section \<open>What it prints\<close>

definition row_texts :: "hash_order \<Rightarrow> (f64 \<Rightarrow> string) \<Rightarrow> QueryResult list \<Rightarrow> string list" where
  "row_texts ho show_f64 rows = map (\<lambda>(k, row). row_text ho show_f64 (of_nat k) row) (enumerate 1 rows)"

text \<open>A stream prints its rows up to the first error.\<close>

lemma print_stream_rows:
  "print_stream ho show_f64 (of_nat n) (map Ok rows @ rest) =
     (map (\<lambda>(k, row). row_text ho show_f64 (of_nat k) row) (enumerate (Suc n) rows) @
        fst (print_stream ho show_f64 (of_nat (n + length rows)) rest),
      snd (print_stream ho show_f64 (of_nat (n + length rows)) rest))"
proof (induction rows arbitrary: n)
  case (Cons row rows)
  show ?case using Cons.IH [of "Suc n"] by (simp add: case_prod_unfold Let_def add.commute)
qed simp

lemma show_count: "n < 2 ^ 31 \<Longrightarrow> show_int (sint (of_nat n :: 32 word)) = show_nat n"
proof -
  assume n: "n < 2 ^ 31"
  then have "sint (of_nat n :: 32 word) = int n"
    by (simp add: signed_of_nat signed_take_bit_int_eq_self)
  then show ?thesis by (simp add: show_int_def)
qed

text \<open>A stream of rows is printed whole: where, what was asked, the rows numbered from one, and how many.\<close>

lemma query_client_prints:
  assumes "connect (env_or env ''GRAPH_COORDINATOR_ADDR'' ''http://127.0.0.1:7000'') = Ok client"
    and "client dsl = streamed aborted (Ok rows)" "length rows < 2 ^ 31"
  shows "query_client ho show_f64 env connect (program # dsl # args) =
    ([''Connecting to '' @ env_or env ''GRAPH_COORDINATOR_ADDR'' ''http://127.0.0.1:7000'' @ ''...'',
        ''Query:'' @ [CHR 0x0A] @ ''  '' @ dsl @ [CHR 0x0A]] @
      row_texts ho show_f64 rows @ [[CHR 0x0A] @ show_nat (length rows) @ '' result(s).''], Ok ())"
  using print_stream_rows [of ho show_f64 0 rows "[]"] show_count [OF assms(3)]
  by (simp add: query_client_def Let_def assms(1,2) streamed_def row_texts_def)

text \<open>A query that is refused prints nothing after the question.\<close>

lemma query_client_refused:
  assumes "connect (env_or env ''GRAPH_COORDINATOR_ADDR'' ''http://127.0.0.1:7000'') = Ok client"
    and "client dsl = streamed aborted (Err st)"
  shows "snd (query_client ho show_f64 env connect (program # dsl # args)) = Err (Called (Grpc st))"
  by (simp add: query_client_def Let_def assms streamed_def)

end
