(* ===== verification/Trace_Context.thy ===== *)
theory Trace_Context
  imports Rust_Prelude
begin

text \<open>
  \<open>graph-observability/src/interceptor.rs\<close>: the interceptors that carry the context of a trace from the
  coordinator to a partition node in the metadata of a call. The metadata of \<open>tonic\<close> and the propagator of
  \<open>opentelemetry\<close> are parameters. A propagator is given an \<open>Injector\<close>, whose one method is \<open>set\<close>, so injecting a
  context is the list of the headers it sets; it extracts from what \<open>get\<close> and \<open>keys\<close> answer.
\<close>

datatype KeyRef = Ascii string | Binary string

record ('m, 'key, 'val) metadata_ops =
  md_key_from_bytes :: "string \<Rightarrow> 'key option"
  md_parse_value :: "string \<Rightarrow> 'val option"
  md_insert :: "'key \<Rightarrow> 'val \<Rightarrow> 'm \<Rightarrow> 'm"
  md_get :: "string \<Rightarrow> 'm \<Rightarrow> 'val option"
  md_to_str :: "'val \<Rightarrow> string option"
  md_keys :: "'m \<Rightarrow> KeyRef list"

record 'ctx propagator =
  inject_context :: "'ctx \<Rightarrow> (string \<times> string) list"
  extract_context :: "(string \<Rightarrow> string option) \<Rightarrow> string list \<Rightarrow> 'ctx"

definition injector_set :: "('m, 'key, 'val) metadata_ops \<Rightarrow> string \<Rightarrow> string \<Rightarrow> 'm \<Rightarrow> 'm" where
  "injector_set ops key v m =
     (case md_key_from_bytes ops key of
        Some k \<Rightarrow> (case md_parse_value ops v of Some w \<Rightarrow> md_insert ops k w m | None \<Rightarrow> m)
      | None \<Rightarrow> m)"

definition extractor_get :: "('m, 'key, 'val) metadata_ops \<Rightarrow> 'm \<Rightarrow> string \<Rightarrow> string option" where
  "extractor_get ops m key = Option.bind (md_get ops key m) (md_to_str ops)"

definition extractor_keys :: "('m, 'key, 'val) metadata_ops \<Rightarrow> 'm \<Rightarrow> string list" where
  "extractor_keys ops m = List.map_filter (\<lambda>k. case k of Ascii s \<Rightarrow> Some s | Binary _ \<Rightarrow> None) (md_keys ops m)"

text \<open>The interceptors, on the context of the current span: the first sends it, the second becomes its child.\<close>

definition inject_trace_context ::
  "('m, 'key, 'val) metadata_ops \<Rightarrow> 'ctx propagator \<Rightarrow> 'ctx \<Rightarrow> 'm \<Rightarrow> ('status, 'm) res" where
  "inject_trace_context ops propagator context m =
     Ok (foldl (\<lambda>m (key, v). injector_set ops key v m) m (inject_context propagator context))"

definition extract_and_continue ::
  "('m, 'key, 'val) metadata_ops \<Rightarrow> 'ctx propagator \<Rightarrow> 'm \<Rightarrow> ('status, 'ctx \<times> 'm) res" where
  "extract_and_continue ops propagator m =
     Ok (extract_context propagator (extractor_get ops m) (extractor_keys ops m), m)"

section \<open>The context arrives\<close>

text \<open>Metadata that accepts a header keeps it under its key and leaves the others.\<close>

definition keeps_header :: "('m, 'key, 'val) metadata_ops \<Rightarrow> string \<times> string \<Rightarrow> bool" where
  "keeps_header ops = (\<lambda>(key, v).
     (\<exists>k w. md_key_from_bytes ops key = Some k \<and> md_parse_value ops v = Some w \<and> md_to_str ops w = Some v \<and>
        (\<forall>m. md_get ops key (md_insert ops k w m) = Some w \<and>
           (\<forall>other. other \<noteq> key \<longrightarrow> md_get ops other (md_insert ops k w m) = md_get ops other m))))"

lemma kept_header:
  assumes "keeps_header ops (key, v)"
  shows "extractor_get ops (injector_set ops key v m) other = (if other = key then Some v else extractor_get ops m other)"
  using assms by (auto simp: keeps_header_def injector_set_def extractor_get_def)

text \<open>A header that the metadata rejects is dropped, and the call goes on without it.\<close>

lemma rejected_header:
  assumes "md_key_from_bytes ops key = None \<or> md_parse_value ops v = None"
  shows "injector_set ops key v m = m"
  using assms by (auto simp: injector_set_def split: option.split)

lemma injected_headers:
  assumes "\<forall>h \<in> set headers. keeps_header ops h" "distinct (map fst headers)"
  shows "extractor_get ops (foldl (\<lambda>m (key, v). injector_set ops key v m) m headers) key =
    (case map_of headers key of Some v \<Rightarrow> Some v | None \<Rightarrow> extractor_get ops m key)"
  using assms
proof (induction headers arbitrary: m)
  case (Cons h headers)
  obtain k v where h: "h = (k, v)" by (cases h)
  have "k \<notin> fst ` set headers" using Cons.prems(2) by (simp add: h)
  then have "map_of headers k = None" by (simp add: map_of_eq_None_iff)
  then show ?case using Cons.IH [of "injector_set ops k v m"] Cons.prems by (simp add: h kept_header split: option.split)
qed simp

text \<open>
  What the coordinator injects is what the partition node continues, whatever else the call carries: for a
  propagator that finds a context again from the headers it set.
\<close>

lemma trace_continues:
  assumes "inject_trace_context ops propagator context m = (Ok sent :: ('status, 'm) res)"
    and "\<forall>h \<in> set (inject_context propagator context). keeps_header ops h"
    and "distinct (map fst (inject_context propagator context))"
    and "\<And>get keys. \<forall>(key, v) \<in> set (inject_context propagator context). get key = Some v \<Longrightarrow>
      extract_context propagator get keys = context"
  shows "extract_and_continue ops propagator sent = Ok (context, sent)"
proof -
  have "extractor_get ops sent key = Some v" if "(key, v) \<in> set (inject_context propagator context)" for key v
    using assms(1) injected_headers [OF assms(2,3), of m key] map_of_is_SomeI [OF assms(3) that]
    by (auto simp: inject_trace_context_def)
  then have "extract_context propagator (extractor_get ops sent) (extractor_keys ops sent) = context"
    by (intro assms(4)) blast
  then show ?thesis by (simp add: extract_and_continue_def)
qed

end
