(* ===== verification/Spec2Isabelle.thy ===== *)
theory Spec2Isabelle
  imports Sample_Inventory Query_Client Trace_Context
begin

text \<open>
  A verification library for the graph engine of \<open>src/graph-engine\<close>: a property graph whose nodes
  and edges live in Iceberg tables, served from in-memory indexes that partition nodes build, and
  queried through a coordinator that scatters the steps of a query over the partitions.

  \<^bold>\<open>The program.\<close> A schema file declares labels, edge types and their properties
  (\<open>graph-schema\<close>). A partition node (\<open>bin/graph-partition-node\<close>) reads the tables (\<open>graph-storage\<close>), keeps
  the nodes that hash to its partition and builds an index generation (\<open>graph-index\<close>); a loop rebuilds
  it while requests go on with the generation they acquired. A query text is parsed and validated
  (\<open>graph-dsl\<close>) and planned (\<open>graph-query\<close>); the coordinator (\<open>bin/graph-coordinator\<close>) finds the replicas of
  the partitions (\<open>graph-cluster\<close>), runs the plan by calling them over gRPC (\<open>graph-proto\<close>), and turns the
  bindings into ordered, limited rows. A viewer (\<open>bin/graph-viewer-server\<close>) shows them as JSON.

  \<^bold>\<open>The theories,\<close> in the order of the code (paths under \<open>src/graph-engine\<close>):

  \<^item> \<open>Rust_Prelude\<close>, \<open>Rust_Collections\<close>, \<open>Rust_Floats\<close>, \<open>Pest_Tree\<close>: what the code uses of the standard
    library and of the trees of \<open>pest\<close>. \<open>res\<close> is a \<open>Result\<close> with panics as a third outcome; a hash
    container is a finite map or set that is iterated in an order \<open>ho\<close> the theorems quantify over; the
    locale \<open>comparator_on\<close> is the contract of \<open>sort_by\<close>.
  \<^item> \<open>Graph_Schema\<close>, \<open>Schema_Parser\<close>, \<open>Schema_Grammar\<close>, \<open>Schema_Evolution\<close>: \<open>crates/graph-schema\<close>.
  \<^item> \<open>Graph_Storage\<close>, \<open>Sql_Catalog\<close>: \<open>crates/graph-storage\<close>.
  \<^item> \<open>Graph_Index\<close>, \<open>Index_Builder\<close>, \<open>Built_Index\<close>: \<open>crates/graph-index\<close>; the last one reads a built
    generation on the dataset it was built from.
  \<^item> \<open>Graph_Dsl\<close>, \<open>Dsl_Parser\<close>, \<open>Dsl_Grammar\<close>, \<open>Dsl_Validator\<close>: \<open>crates/graph-dsl\<close>.
  \<^item> \<open>Query_Plan\<close>, \<open>Planner\<close>, \<open>Local_Executor\<close>, \<open>Distributed_Executor\<close>: \<open>crates/graph-query\<close>.
  \<^item> \<open>Cluster\<close>, \<open>Rebalance\<close>: \<open>crates/graph-cluster\<close>.
  \<^item> \<open>Wire\<close>: the messages of \<open>crates/graph-proto\<close>.
  \<^item> \<open>Partition_Node\<close>, \<open>Rebuild\<close>: the handlers of the partition node and its rebuild loop, a state
    machine of ticks and requests.
  \<^item> \<open>Partition_Rpc\<close>, \<open>Coordinator_Service\<close>: the coordinator's client of the partitions, with its cache as
    explicit state, and its handlers.
  \<^item> \<open>Configuration\<close>: \<open>config.rs\<close> and \<open>main.rs\<close> of both servers. \<open>Viewer\<close>: the viewer's query handler.

  \<^bold>\<open>Specification and refinement.\<close> \<open>Graph_Spec\<close> says what a plan means: a set of bindings over the
  whole graph, without partitions, hashes, orders or duplicates. The locale \<open>partition_cluster\<close>
  (\<open>Distributed_Refinement\<close>, with \<open>Distributed_Plans\<close> and \<open>Distributed_Execution\<close>) is the contract between
  the coordinator and the partitions; in it the scatter-gather executor is proved to compute that
  meaning. \<open>Partition_Serving\<close> shows that generations built by the index builder and driven by the local
  executor honour the contract in one process, \<open>Networked_Serving\<close> that they do so through the
  marshalling of the protocol. \<open>Coordinator_Answers\<close> extends the contract (\<open>wire_cluster\<close>) and takes it
  from bindings to rows; \<open>Running_System\<close> shows that replicas that started, rebuild and serve form such
  a cluster. \<open>Local_Pipeline\<close> shows that the local executor alone, on the generation of an unpartitioned
  dataset, computes the same meaning when the index can answer the filters.

  \<^bold>\<open>Examples.\<close> \<open>Iceberg_Tables\<close> is the writing of tables, which the programs under \<open>examples\<close> share, with what
  is read back from them. \<open>Demo\<close> shows that the program of \<open>examples/demo\<close> prints what it announces.
  \<open>Ingest_Cloud_Cost\<close> is \<open>examples/ingest-cloud-cost\<close>; \<open>Cloud_Inventory\<close> has the closed forms of what its loops
  generate, the schema of \<open>schema/cloud_cost.graphidl\<close> and what a partition node reads back;
  \<open>Unused_Permissions\<close> evaluates the viewer's query for unused permissions on that inventory. \<open>Query_Client\<close> is
  \<open>examples/query-client\<close>, \<open>Trace_Context\<close> the interceptors of \<open>crates/graph-observability\<close>. The theories
  \<open>Sample_Cluster\<close>, \<open>Sample_Queries\<close>, \<open>Sample_Operations\<close>, \<open>Sample_Demo\<close> and \<open>Sample_Inventory\<close> hold the
  concrete inputs of the witnesses.

  \<^bold>\<open>What the properties show.\<close> Answers: a query is answered exactly as its plan means, from its text to
  its rows and its JSON, whatever the partitioning (\<open>query_text_answered\<close>, \<open>running_system_answers\<close>,
  the properties on distributed execution, \<open>viewer_shows_answer\<close>), and its failures are classified.
  Index: adjacency, property index and placement of a built generation are those of the tables.
  Languages: both parsers, on every tree their grammar allows; which queries can be planned; what a
  compatible change of schema keeps. Operations: placement and discovery, moves when machines come
  and go, configuration, start, rebuilding and its failures. Where the code does not do what its
  comments promise, the property states what it does.

  \<^bold>\<open>Bounds and termination.\<close> Every definition is total, and no definition uses fuel: loops over
  hops, rounds and partitions recurse on lists or on the number of rounds left, so each theorem with
  \<open>= Ok ...\<close> also says that the code returns. Machine integers are words; offsets and local indexes are
  32 bits, so a dataset is bounded by \<open>index_bounds\<close>, and an anti-join over the network takes at most
  \<open>2 ^ 32\<close> bindings (\<open>small_plan\<close>).

  \<^bold>\<open>Parameters.\<close> The hash functions (xxh3), the parser of RFC 3339 timestamps and of socket addresses,
  Arrow arrays, the Iceberg tables and catalog, the Kubernetes client, the transport, the clock, and the
  parsers \<open>pest\<close> generates from the two grammars; what is assumed of the last ones is that they return
  trees the grammar allows (\<open>pest_conforms\<close>, \<open>schema_pest_conforms\<close>), and of the catalog that a created
  namespace exists (\<open>keeps_namespaces\<close>). The answers of a replica are fixed while one query runs.

  \<^bold>\<open>Not modelled.\<close> Metrics, logging and the set-up of tracing (\<open>graph-observability\<close>: calls to third-party crates
  that no result depends on); timers, signals and the accept loops of the servers; the viewer's static
  files. The texts of panics are abridged.
\<close>

section \<open>Distributed execution\<close>

text \<open>C3. With every partition served, the scatter-gather executor returns, without
  duplicates, exactly the bindings the plan means over the whole graph, whatever the number of
  partitions, the routing hash and the iteration orders of its maps.\<close>

theorem distributed_execution_exact:
  assumes "in_process_ok c" "wf_plan (qp_steps q)" "fully_available (ip_dep c)"
  shows "\<exists>bs. execute (dp_hash (ip_dep c)) (dp_order (ip_dep c)) (dp_rfc (ip_dep c))
      \<lparr>sg_rpc = in_process_rpc c, sg_hasher = dp_hasher (ip_dep c)\<rparr> q (dp_map (ip_dep c)) = Ok bs \<and>
    set bs = spec_plan (dp_data (ip_dep c)) (\<lambda>_. True) (dp_rfc (ip_dep c)) (qp_steps q) \<and> distinct bs"
  using in_process.execute_complete [OF assms] by simp

theorem distributed_execution_exact_witness:
  "\<exists>bs. execute (\<lambda>x. x) insertion_order (\<lambda>_. None)
      \<lparr>sg_rpc = in_process_rpc (sample_cluster 2 two_partitions), sg_hasher = \<lparr>ph_n_partitions = 2\<rparr>\<rparr>
      friends_plan two_partitions = Ok bs \<and>
    set bs = {friend_binding 2 1, friend_binding 2 3} \<and> distinct bs"
  using distributed_execution_exact [OF sample_clusters_ok(2) wf_friends_plan] sample_fully_available(2)
  by (simp add: friends_meaning)

text \<open>C4. With partitions down, the executor still answers: exactly what the plan means when the
  nodes of the unreachable partitions are left out, and so a part of the full answer.\<close>

theorem distributed_execution_partial:
  assumes "in_process_ok c" "wf_plan (qp_steps q)"
  shows "\<exists>bs. execute (dp_hash (ip_dep c)) (dp_order (ip_dep c)) (dp_rfc (ip_dep c))
      \<lparr>sg_rpc = in_process_rpc c, sg_hasher = dp_hasher (ip_dep c)\<rparr> q (dp_map (ip_dep c)) = Ok bs \<and>
    set bs = spec_plan (dp_data (ip_dep c)) (reachable (ip_dep c)) (dp_rfc (ip_dep c)) (qp_steps q) \<and>
    set bs \<subseteq> spec_plan (dp_data (ip_dep c)) (\<lambda>_. True) (dp_rfc (ip_dep c)) (qp_steps q) \<and> distinct bs"
  using in_process.execute_output [OF assms]
    spec_plan_mono [of "reachable (ip_dep c)" "\<lambda>_. True"] by auto

theorem distributed_execution_partial_witness:
  "\<exists>bs. execute (\<lambda>x. x) insertion_order (\<lambda>_. None)
      \<lparr>sg_rpc = in_process_rpc (sample_cluster 2 one_partition), sg_hasher = \<lparr>ph_n_partitions = 2\<rparr>\<rparr>
      friends_plan one_partition = Ok bs \<and>
    set bs \<subseteq> {friend_binding 2 1, friend_binding 2 3} \<and> distinct bs"
  using distributed_execution_partial [OF sample_clusters_ok(3) wf_friends_plan]
  by (auto simp: friends_meaning)

text \<open>The number of partitions is not observable: two fully served deployments of one
  dataset answer a query with the same set of bindings.\<close>

theorem partitioning_not_observable:
  assumes "in_process_ok c" "in_process_ok d" "fully_available (ip_dep c)" "fully_available (ip_dep d)"
    and "dp_data (ip_dep c) = dp_data (ip_dep d)" "dp_rfc (ip_dep c) = dp_rfc (ip_dep d)"
    and "wf_plan (qp_steps q)"
    and "execute (dp_hash (ip_dep c)) (dp_order (ip_dep c)) (dp_rfc (ip_dep c))
      \<lparr>sg_rpc = in_process_rpc c, sg_hasher = dp_hasher (ip_dep c)\<rparr> q (dp_map (ip_dep c)) = Ok bs"
    and "execute (dp_hash (ip_dep d)) (dp_order (ip_dep d)) (dp_rfc (ip_dep d))
      \<lparr>sg_rpc = in_process_rpc d, sg_hasher = dp_hasher (ip_dep d)\<rparr> q (dp_map (ip_dep d)) = Ok cs"
  shows "mset bs = mset cs"
proof -
  have "set bs = set cs" "distinct bs" "distinct cs"
    using in_process.execute_complete [OF assms(1,7,3)] in_process.execute_complete [OF assms(2,7,4)]
      assms(5,6,8,9) by auto
  then show ?thesis by (simp add: set_eq_iff_mset_eq_distinct)
qed

section \<open>Execution over the network\<close>

text \<open>C6. Over gRPC the answer is the same: exactly what the plan means, without duplicates, when
  every partition is served and no anti-join is given more than \<open>2 ^ 32\<close> bindings.\<close>

theorem networked_execution_exact:
  assumes "networked_ok c" "wf_plan (qp_steps q)" "fully_available (nt_dep c)"
    and "small_plan (\<lambda>n. n \<le> 2 ^ 32) (dp_data (nt_dep c)) (\<lambda>_. True) (dp_rfc (nt_dep c)) (qp_steps q)"
  shows "\<exists>bs. execute (dp_hash (nt_dep c)) (dp_order (nt_dep c)) (dp_rfc (nt_dep c))
      \<lparr>sg_rpc = networked_rpc c, sg_hasher = dp_hasher (nt_dep c)\<rparr> q (dp_map (nt_dep c)) = Ok bs \<and>
    set bs = spec_plan (dp_data (nt_dep c)) (\<lambda>_. True) (dp_rfc (nt_dep c)) (qp_steps q) \<and> distinct bs"
  using networked.execute_complete [OF assms] by simp

theorem networked_execution_exact_witness:
  "\<exists>bs. execute (\<lambda>x. x) insertion_order (\<lambda>_. None)
      \<lparr>sg_rpc = networked_rpc sample_networked, sg_hasher = \<lparr>ph_n_partitions = 2\<rparr>\<rparr>
      friends_plan two_partitions = Ok bs \<and>
    set bs = {friend_binding 2 1, friend_binding 2 3} \<and> distinct bs"
  using networked_execution_exact [OF sample_networked_ok wf_friends_plan] sample_fully_available(2)
  by (simp add: friends_meaning small_friends_plan)

text \<open>C7. The connections a coordinator has cached are not observable: while each is the
  connection its address would get, every method answers as with an empty cache, and leaves a cache
  of such connections.\<close>

theorem client_cache_not_observable:
  assumes "cache_ok N clients"
  shows "grpc_rpc ho rfc N clients = grpc_rpc ho rfc N fmempty \<and>
    cache_ok N (snd (grpc_resolve_start N clients r st)) \<and>
    cache_ok N (snd (grpc_resolve_all ho N clients r st)) \<and>
    cache_ok N (snd (grpc_expand_hop ho N clients r st bs)) \<and>
    cache_ok N (snd (grpc_get_node_properties N clients r ns)) \<and>
    cache_ok N (snd (grpc_get_edge_properties N clients r es)) \<and>
    cache_ok N (snd (grpc_check_anti_join rfc N clients r aj conds bs))"
  using grpc_cached [OF assms] grpc_method_keeps_cache [OF assms] by simp

theorem client_cache_not_observable_witness:
  "grpc_rpc insertion_order (\<lambda>_. None) sample_network
     (snd (rpc_client sample_network fmempty (sample_endpoint 0))) =
   grpc_rpc insertion_order (\<lambda>_. None) sample_network fmempty"
  using client_cache_not_observable [of sample_network "snd (rpc_client sample_network fmempty (sample_endpoint 0))"]
  by (simp add: rpc_client_def sample_network_def cache_ok_def fmpred_upd)

text \<open>C8. What the protocol carries survives it: filters, start keys and bindings exactly, records up
  to the lists and nulls it has no value for.\<close>

theorem wire_roundtrip:
  "proto_filter_to_property_filter (property_filter_to_proto f) = Ok f \<and>
   proto_value_to_property_key (property_key_to_proto k) = Ok k \<and>
   proto_binding_to_binding (coord_binding_to_proto b) = b \<and>
   coord_proto_binding_to_binding (binding_to_proto b) = b \<and>
   proto_node_properties_to_record (node_record_to_proto n) = wire_node n \<and>
   proto_edge_properties_to_record (edge_record_to_proto e) = wire_edge e"
  by (simp_all add: wire_simps)

section \<open>From a query to its answer\<close>

text \<open>C9. The planner panics on exactly the queries it does not support (an unlabelled start
  node, a start filter that is not one equality on a key type, or a pattern that is not a chain);
  it plans every other query.\<close>

theorem plan_total_iff:
  "(is_panic (plan q :: ('e, QueryPlan) res) \<longleftrightarrow> \<not> plan_supported q) \<and>
   ((\<exists>p. plan q = (Ok p :: ('e, QueryPlan) res)) \<longleftrightarrow> plan_supported q)"
  by (simp add: plan_panics_iff plan_Ok_iff)

section \<open>The index\<close>

text \<open>C10. A built partition answers exactly the edges of its own nodes, in table order, each
  with its far end: the node itself when it is in this partition, a reference to its partition
  otherwise. Nodes of other partitions and unknown nodes have none.\<close>

theorem adjacency_exact:
  assumes "np \<noteq> 0" "wf_dataset D" "built_for h np D p g"
  shows "directed_neighbors (ig_topology g) direction n =
    (Ok (if n \<in> ds_ids D \<and> homed h np p n
         then map (\<lambda>(ty, row). routed_entry h np p ty (er_id row) (edge_far (direction = Outgoing) row))
                (filter (\<lambda>(_, row). edge_owner (direction = Outgoing) row = n) (ds_edges D))
         else []) :: (ExecutionError, _) res)"
  using built_for_facts(1) [OF assms, of direction] built_adj_routed [OF assms(2)]
  by (simp add: adjacency_def)

theorem adjacency_exact_witness:
  "directed_neighbors (ig_topology (sample_generation 2 0)) Outgoing (NodeId 4) =
    (Ok [routed_entry (\<lambda>x. x) 2 (PartitionId 0) (EdgeType ''KNOWS'') (EdgeId 101) (NodeId 1)] ::
      (ExecutionError, _) res)"
  using adjacency_exact [where np = 2 and D = sample_data and h = "\<lambda>x. x" and p = "PartitionId 0" and g = "sample_generation 2 0"
      and direction = Outgoing and n = "NodeId 4",
      OF _ wf_sample_data built_sample_generation]
  by (simp add: sample_data_def sample_node_def sample_edge_def ds_ids_def edge_owner_def edge_far_def
      homed_def home_of_def)



text \<open>C12. The property index of a partition answers exactly: an equality lookup returns the
  partition's nodes with that label whose indexed property has the key, a range lookup those whose
  key is in the range.\<close>

theorem property_index_exact:
  assumes "np \<noteq> 0" "wf_dataset D" "built_for h np D p g"
  shows "set (lookup_eq (ig_properties g) l k v) = {n \<in> start_matches D l k v. homed h np p n} \<and>
    (\<forall>ids. lookup_range (ig_properties g) l k lo hi = (Ok ids :: (ExecutionError, _) res) \<longrightarrow>
      set ids = (\<Union>v \<in> {v. above_bound lo v \<and> below_bound hi v}. {n \<in> start_matches D l k v. homed h np p n}))"
proof -
  have eq: "set (lookup_eq (ig_properties g) l k v) = {n \<in> start_matches D l k v. homed h np p n}" for v
    using lookup_eq_built [OF assms] by blast
  show ?thesis using lookup_range_exact [of "ig_properties g" l k lo hi] by (auto simp: eq)
qed

theorem property_index_exact_witness:
  "set (lookup_eq (ig_properties (sample_generation 2 0)) ''Person'' ''name'' (KString ''Alice'')) = {NodeId 2}"
  using property_index_exact [where np = 2 and D = sample_data and h = "\<lambda>x. x" and p = "PartitionId 0" and g = "sample_generation 2 0"
      and l = "''Person''" and k = "''name''" and v = "KString ''Alice''",
      OF _ wf_sample_data built_sample_generation]
  by (auto simp: sample_data_def sample_node_def sample_schema_def start_matches_def indexed_property_def
      row_has_key_def node_def_def homed_def home_of_def)

text \<open>C13. What a build keeps conforms to the schema: every record of a generation built from the
  catalog belongs to a requested, declared label (or a declared edge type) and has exactly the
  declared properties, each of its declared type or null, and every node is the partition's own.\<close>

theorem built_records_conform:
  assumes "ib_reader B = IcebergCatalogReader A C" "ib_n_partitions B \<noteq> 0" "build h now B p labels = Ok g"
  shows "(\<forall>n r. fmlookup (ig_node_records g) n = Some r \<longrightarrow>
      homed h (ib_n_partitions B) p n \<and> nrec_label r \<in> set labels \<and>
      (\<exists>nd. node_def (ib_schema B) (nrec_label r) = Some nd \<and>
         properties_conform (nd_properties nd) (nrec_properties r))) \<and>
    (\<forall>i e. fmlookup (ig_edge_records g) i = Some e \<longrightarrow>
      (\<exists>ed. edge_def (ib_schema B) (erec_edge_type e) = Some ed \<and>
         properties_conform (ed_properties ed) (erec_properties e)))"
  using build_records [OF assms] by (auto simp: row_conforms_def)

theorem built_records_conform_witness:
  "properties_conform (nd_properties (the (node_def sample_schema (Label ''Person''))))
     (nr_properties (snd (sample_node 2 ''Alice'' 1970)))"
proof -
  have "\<exists>nd. node_def sample_schema (Label ''Person'') = Some nd \<and>
      properties_conform (nd_properties nd) (nr_properties (snd (sample_node 2 ''Alice'' 1970)))"
    using built_records_conform [OF _ _ build_sample(1)] build_sample(2)
    by (fastforce simp: sample_builder_def)
  then show ?thesis by auto
qed


section \<open>Placement and results\<close>

text \<open>C15. A query is only ever routed to a pod the API lists, annotated with the partition and
  \<open>Ready\<close>.\<close>

theorem routed_pod_ready:
  assumes "kubernetes_current_map pa port listed = Ok m" "pick_replica m p = Some r"
  shows "\<exists>pods pod st cs. listed = Ok pods \<and> pod \<in> set pods \<and>
    pod_status pod = Some st \<and> pst_conditions st = Some cs \<and> (''Ready'', ''True'') \<in> set cs \<and>
    p \<in> set (pod_partitions pod) \<and> pod_to_replica_endpoint pa pod port = Some r"
proof -
  obtain pods pod where "listed = Ok pods" "pod \<in> set pods" "pod_is_ready pod" "p \<in> set (pod_partitions pod)"
    "pod_to_replica_endpoint pa pod port = Some r"
    using discovered_replica_ready [OF assms] by blast
  then show ?thesis
    by (intro exI [of _ pods] exI [of _ pod]) (auto simp: pod_is_ready_def list_ex_iff split: option.splits)
qed

theorem routed_pod_ready_witness:
  "\<exists>st cs r. pod_status sample_pod = Some st \<and> pst_conditions st = Some cs \<and> (''Ready'', ''True'') \<in> set cs \<and>
     pod_to_replica_endpoint Some sample_pod 7000 = Some r"
  using sample_pod_serves routed_pod_ready [of Some 7000 "Ok [sample_pod]" _ "PartitionId 0"] by fastforce

section \<open>The coordinator\<close>





text \<open>C17. \<open>ORDER BY\<close> sorts: when the keys can be compared, the rows are rearranged into the order of
  their keys, nulls and absent keys last (first when descending), and rows with equal keys keep their order.\<close>

theorem order_by_sorts:
  assumes "\<forall>b \<in> set bs. comparable ty (sort_key o1 (is_edge_alias kinds (ob_alias o1)) nps eps b)"
  shows "mset (sort_bindings_by_property bs o1 kinds nps eps) = mset bs \<and>
    in_order (ob_direction o1) (map (sort_key o1 (is_edge_alias kinds (ob_alias o1)) nps eps)
      (sort_bindings_by_property bs o1 kinds nps eps)) \<and>
    (\<forall>z \<in> set bs. filter (\<lambda>b. key_ordering (sort_key o1 (is_edge_alias kinds (ob_alias o1)) nps eps z)
          (sort_key o1 (is_edge_alias kinds (ob_alias o1)) nps eps b) = Equal) (sort_bindings_by_property bs o1 kinds nps eps) =
      filter (\<lambda>b. key_ordering (sort_key o1 (is_edge_alias kinds (ob_alias o1)) nps eps z)
          (sort_key o1 (is_edge_alias kinds (ob_alias o1)) nps eps b) = Equal) bs)"
proof -
  let ?key = "sort_key o1 (is_edge_alias kinds (ob_alias o1)) nps eps"
  have dir: "directed d x = Equal \<longleftrightarrow> x = Equal" for d x by (cases d) (simp_all add: directed_def)
  have "filter (\<lambda>b. directed (ob_direction o1) (key_ordering (?key z) (?key b)) = Equal)
        (sort_by (\<lambda>a b. directed (ob_direction o1) (key_ordering (?key a) (?key b))) bs) =
      filter (\<lambda>b. directed (ob_direction o1) (key_ordering (?key z) (?key b)) = Equal) bs" if "z \<in> set bs" for z
    by (rule comparator_on.stable_sort_by [OF key_comparator]) (use assms that in auto)
  then show ?thesis
    using sort_by_key_in_order [OF assms, of "ob_direction o1"]
    by (simp add: sort_bindings_by_property_def Let_def dir)
qed

theorem order_by_sorts_witness:
  "in_order Desc (map (sort_key \<lparr>ob_alias = ''p'', ob_property = ''name'', ob_direction = Desc\<rparr> False
      (fmupd (NodeId 2) (snd (node_record_entry (sample_node 2 ''Alice'' 1970))) fmempty) fmempty)
    (sort_bindings_by_property [friend_binding 2 1, friend_binding 4 3]
      \<lparr>ob_alias = ''p'', ob_property = ''name'', ob_direction = Desc\<rparr> fmempty
      (fmupd (NodeId 2) (snd (node_record_entry (sample_node 2 ''Alice'' 1970))) fmempty) fmempty))"
proof -
  let ?o = "\<lparr>ob_alias = ''p'', ob_property = ''name'', ob_direction = Desc\<rparr>"
  let ?m = "fmupd (NodeId 2) (snd (node_record_entry (sample_node 2 ''Alice'' 1970))) fmempty"
  have "sort_key ?o False ?m fmempty (friend_binding 2 1) = Some (VString ''Alice'')"
    "sort_key ?o False ?m fmempty (friend_binding 4 3) = None"
    by (simp_all add: sort_key_def friend_binding_def sample_node_def node_record_entry_def)
  then have "\<forall>b \<in> set [friend_binding 2 1, friend_binding 4 3].
      comparable TString (sort_key ?o (is_edge_alias fmempty (ob_alias ?o)) ?m fmempty b)"
    by (simp add: comparable_def is_edge_alias_def)
  note sorted = order_by_sorts [OF this]
  have "is_edge_alias fmempty (ob_alias ?o) = False" by (simp add: is_edge_alias_def)
  with sorted show ?thesis by (simp only: OrderBy.simps simp_thms)
qed


section \<open>From text to queries and schemas\<close>

text \<open>C19. The parser of queries never fails on a tree of the grammar: it returns a query whose
  pattern alternates nodes and edges and whose names are not empty, or panics, and it panics exactly
  when a hop bound, a limit or an integer literal does not fit its machine type.\<close>

theorem parse_outcome:
  assumes "pest_conforms pest"
  shows "case parse pest dsl of
      Ok q \<Rightarrow> good_query q \<and> (\<exists>t. pest dsl = Ok [t] \<and> numbers_fit t)
    | Err e \<Rightarrow> \<exists>e'. pest dsl = Err e' \<and> e = syntax_error e'
    | Panic _ \<Rightarrow> \<exists>t. pest dsl = Ok [t] \<and> \<not> numbers_fit t"
  by (rule parse_cases [OF assms, where dsl = dsl]) (auto dest: parse_good_query [OF assms])

theorem parse_outcome_witness: "good_query ranked_query \<and> numbers_fit ranked_tree"
  using parse_outcome [OF sample_pest_conforms(1), of ranked_text]
  by (simp add: parse_ranked) (simp add: sample_pest_def)





section \<open>Changes of schema\<close>

text \<open>C22. The classification is exact: a change is compatible iff every label, edge type and property of
  the old schema is still declared, each property with its type. Compatible changes compose.\<close>

theorem diff_exact:
  "(diff old new = Compatible \<longleftrightarrow> keeps_schema old new) \<and>
   (diff a b = Compatible \<longrightarrow> diff b c = Compatible \<longrightarrow> diff a c = Compatible)"
  using keeps_schema_trans by (auto simp: diff_Compatible_iff)

theorem diff_exact_witness:
  "diff sample_schema sample_schema = Compatible"
  using diff_exact [of sample_schema sample_schema sample_schema sample_schema sample_schema]
  by (simp add: keeps_schema_def keeps_properties_def sample_schema_def node_def_def edge_def_def)

text \<open>C23. A compatible change keeps queries valid: whatever validates against the old schema
  validates against the new one.\<close>

theorem compatible_change_keeps_queries:
  assumes "diff old new = Compatible" "validate q old = Ok ()"
  shows "validate q new = Ok ()"
  using validate_kept assms by (simp add: diff_Compatible_iff)

theorem compatible_change_keeps_queries_witness:
  "validate friends_query (sample_schema\<lparr>sch_nodes := fmupd (Label ''City'')
      \<lparr>nd_label = Label ''City'', nd_properties = []\<rparr> (sch_nodes sample_schema)\<rparr>) = Ok ()"
  by (rule compatible_change_keeps_queries [OF _ validate_friends_query])
    (simp add: diff_Compatible_iff keeps_schema_def keeps_properties_def sample_schema_def node_def_def edge_def_def)

text \<open>C24. Optional or not, a declared property needs its column: a batch that lacks one yields no
  row, so a compatible change that adds an optional property makes the existing rows unreadable
  until the table has the column.\<close>

theorem missing_column_unreadable:
  assumes "p \<in> set (nd_properties nd)" "column_by_name batch (pd_name p) = None"
  shows "\<forall>r \<in> set (batch_to_node_rows A (Ok batch) nd). \<nexists>row. r = Ok row"
proof -
  have "\<nexists>m. read_properties A batch i (nd_properties nd) = Ok m" for i
    using assms by (force simp: read_properties_def res_map_Ok_iff collect_res_Ok_iff res_bind_Ok_iff list_all2_conv_all_nth in_set_conv_nth)
  then show ?thesis
    by (auto simp: batch_to_node_rows_def res_bind_Ok_iff split: option.splits)
qed

theorem missing_column_unreadable_witness:
  "list_all (\<lambda>r. \<nexists>row. r = Ok row) (batch_to_node_rows sample_arrow (Ok people_batch)
    \<lparr>nd_label = Label ''Person'', nd_properties =
      [\<lparr>pd_name = ''nickname'', pd_ty = TString, pd_optional = True, pd_indexed = False\<rparr>]\<rparr>)"
  unfolding list_all_iff
  by (rule missing_column_unreadable
      [of "\<lparr>pd_name = ''nickname'', pd_ty = TString, pd_optional = True, pd_indexed = False\<rparr>"])
    (simp_all add: people_batch_def)

section \<open>Placement\<close>

text \<open>C25. A machine that joins only receives: on a cluster placed as the planner wants it, every move of
  the next plan is to the new machine.\<close>

theorem joining_moves_to_newcomer:
  assumes "distinct available" "valid_hash_order ho" "mset available = add_mset new (mset ms)"
    and "placed_on xxh planner ms current"
  shows "list_all (\<lambda>mv. pm_to_machine mv = new) (rebalance_plan xxh ho planner current available)"
  using joining_moves [OF assms] by (simp add: list_all_iff)

theorem joining_moves_to_newcomer_witness:
  "list_all (\<lambda>mv. pm_to_machine mv = ''m3'') (rebalance_plan last_byte insertion_order sample_planner
     (hosted_on [''m1'', ''m2'']) [''m1'', ''m2'', ''m3''])"
  by (rule joining_moves_to_newcomer [OF _ _ _ sample_placed(1)]) (simp_all add: valid_insertion_order)

text \<open>C26. When a machine leaves, only the partitions it held move, and each move takes over from it or
  from no machine.\<close>

theorem leaving_moves_own_partitions:
  assumes "distinct (gone # ms)" "valid_hash_order ho" "mset before = add_mset gone (mset ms)"
    and "placed_on xxh planner before current"
  shows "list_all (\<lambda>mv. gone |\<in>| current_machines current (pm_partition mv) \<and> pm_from_machine mv \<in> {None, Some gone})
    (rebalance_plan xxh ho planner current ms)"
  using leaving_moves [OF assms] by (simp add: list_all_iff)

theorem leaving_moves_own_partitions_witness:
  "list_all (\<lambda>mv. ''m3'' |\<in>| current_machines (hosted_on [''m3'', ''m2'']) (pm_partition mv) \<and>
      pm_from_machine mv \<in> {None, Some ''m3''})
    (rebalance_plan last_byte insertion_order sample_planner (hosted_on [''m3'', ''m2'']) [''m1'', ''m2''])"
  by (rule leaving_moves_own_partitions [OF _ _ _ sample_placed(2)]) (simp_all add: valid_insertion_order)

text \<open>C27. A plan leads to its targets: the moves of a partition bring it to all of them, and to nothing
  else unless it had more hosts than the replication factor; there are no moves exactly if every target
  hosts the partition already.\<close>

theorem plan_reaches_targets:
  fixes xxh ho planner current available j
  defines "rf \<equiv> min (rp_replication_factor planner) (length available)"
  defines "target \<equiv> set (target_machines xxh (PartitionId j) available rf)"
    and "hosts \<equiv> fset (current_machines current (PartitionId j))"
    and "moves \<equiv> filter (\<lambda>mv. pm_partition mv = PartitionId j) (rebalance_plan xxh ho planner current available)"
  assumes "distinct available" "available \<noteq> []" "valid_hash_order ho" "j < rp_n_partitions planner"
  shows "card target = rf \<and> target \<subseteq> set available \<and> target \<subseteq> hosts_after hosts moves \<and>
    (card hosts \<le> rf \<longrightarrow> hosts_after hosts moves = target) \<and> (moves = [] \<longleftrightarrow> target \<subseteq> hosts)"
proof -
  have moves: "moves = plan_partition xxh ho current available rf (PartitionId j)"
    unfolding moves_def rf_def by (rule rebalance_plan_partition [OF assms(6,8)])
  note facts = target_machines_facts [OF assms(5), of xxh "PartitionId j" rf]
  note reaches = plan_partition_reaches [OF assms(5,7), where xxh = xxh and current = current and rf = rf and p = "PartitionId j"]
  have "card target = rf" using facts(1,3) by (simp add: target_def distinct_card rf_def)
  then show ?thesis
    using facts(2) reaches(4,5) plan_partition_Nil [OF assms(5,7), of xxh current rf "PartitionId j"]
    by (simp add: moves target_def hosts_def rf_def)
qed

theorem plan_reaches_targets_witness:
  "hosts_after {''m1'', ''m2''} (filter (\<lambda>mv. pm_partition mv = PartitionId 0)
     (rebalance_plan last_byte insertion_order sample_planner (hosted_on [''m1'', ''m2'']) [''m1'', ''m2'', ''m3'']))
   = {''m2'', ''m3''}"
proof -
  have two: "min 2 (length [''m1'', ''m2'', ''m3'']) = 2" by simp
  show ?thesis
    using plan_reaches_targets [of "[''m1'', ''m2'', ''m3'']" insertion_order 0 sample_planner
        last_byte "hosted_on [''m1'', ''m2'']"]
    unfolding sample_planner_sel two sample_targets sample_hosts
    by (simp add: fset_of_list.rep_eq insert_commute)
qed

section \<open>Configuration\<close>

text \<open>C28. The notation of static addresses: a list written as \<open>id=address,...\<close> parses to itself, and a
  partition is routed to the address given last for it.\<close>

theorem static_addresses_routed:
  assumes "valid_hash_order ho" "pas \<noteq> []"
    and "list_all (\<lambda>pa. parse_addr (snd pa) = Some (snd pa) \<and> CHR '','' \<notin> set (snd pa)) pas"
  shows "parse_static_partition_addrs parse_addr (join_with '','' (map show_partition_addr pas)) = Ok pas \<and>
    map_option re_address (pick_replica (sd_map (static_discovery ho pas)) (PartitionId p)) = map_of (rev pas) p"
  using static_addrs_roundtrip [OF assms(2)] assms(3) static_discovery_routes [OF assms(1)]
  by (simp add: list_all_iff)

theorem static_addresses_routed_witness:
  "parse_static_partition_addrs Some ''0=h:1,1=h:2,0=h:3'' = Ok [(0, ''h:1''), (1, ''h:2''), (0, ''h:3'')] \<and>
   map_option re_address (pick_replica (sd_map (static_discovery insertion_order
      [(0, ''h:1''), (1, ''h:2''), (0, ''h:3'')])) (PartitionId 0)) = Some ''h:3''"
  using static_addresses_routed [OF valid_insertion_order, of "[(0, ''h:1''), (1, ''h:2''), (0, ''h:3'')]" Some 0]
  by (simp add: show_partition_addr_def sample_ids)

text \<open>C29. A coordinator that starts has read a well-formed schema, shows its text unchanged, has no edge
  type without a name, and routes as configured: with static discovery every partition to the address
  given last for it, with Kubernetes only to pods that are listed, ready and annotated with it.\<close>

theorem coordinator_starts_configured:
  assumes "coordinator_main ho env parse_addr read_file schema_pest list_pods rpc = Some S"
    and "schema_pest_conforms schema_pest" "valid_hash_order ho"
  shows "\<exists>config. coordinator_from_env env parse_addr = Ok config \<and>
    (\<exists>idl. read_file (cc_schema_path config) = Some idl \<and>
      get_schema S = Ok \<lparr>scr_schema_idl = idl, scr_version = sch_version (gs_schema S)\<rparr>) \<and>
    wf_schema (gs_schema S) \<and> edge_def (gs_schema S) (EdgeType []) = None \<and>
    (case cc_discovery config of
       Static pas \<Rightarrow> \<exists>m. gs_discovery S = Ok m \<and>
         (\<forall>p. map_option re_address (pick_replica m (PartitionId p)) = map_of (rev pas) p)
     | Kubernetes namespace label_selector port \<Rightarrow> \<exists>listed. list_pods namespace label_selector = Some listed \<and>
         (\<forall>m p r. gs_discovery S = Ok m \<and> pick_replica m p = Some r \<longrightarrow>
           (\<exists>pods. listed = Ok pods \<and> (\<exists>pod \<in> set pods. pod_is_ready pod \<and> p \<in> set (pod_partitions pod) \<and>
             pod_to_replica_endpoint parse_addr pod port = Some r))))"
proof -
  obtain config where c: "coordinator_from_env env parse_addr = Ok config"
    "read_file (cc_schema_path config) = Some (gs_schema_idl S)"
    "wf_schema (gs_schema S)" "edge_def (gs_schema S) (EdgeType []) = None"
    and d: "discovery_new ho parse_addr list_pods (cc_discovery config) = Some (gs_discovery S)"
    by (rule coordinator_main_starts [OF assms(1,2)])
  have "case cc_discovery config of
       Static pas \<Rightarrow> \<exists>m. gs_discovery S = Ok m \<and>
         (\<forall>p. map_option re_address (pick_replica m (PartitionId p)) = map_of (rev pas) p)
     | Kubernetes namespace label_selector port \<Rightarrow> \<exists>listed. list_pods namespace label_selector = Some listed \<and>
         (\<forall>m p r. gs_discovery S = Ok m \<and> pick_replica m p = Some r \<longrightarrow>
           (\<exists>pods. listed = Ok pods \<and> (\<exists>pod \<in> set pods. pod_is_ready pod \<and> p \<in> set (pod_partitions pod) \<and>
             pod_to_replica_endpoint parse_addr pod port = Some r)))"
  proof (cases "cc_discovery config")
    case (Static pas)
    then have "gs_discovery S = Ok (sd_map (static_discovery ho pas))"
      using d by (simp add: discovery_new_def static_current_map_def)
    then show ?thesis using static_discovery_routes [OF assms(3)] Static by simp
  next
    case (Kubernetes namespace label_selector port)
    then obtain listed where "list_pods namespace label_selector = Some listed"
      "gs_discovery S = kubernetes_current_map parse_addr port listed"
      using d by (auto simp: discovery_new_def)
    then show ?thesis using discovered_replica_ready [of parse_addr port listed] Kubernetes by fastforce
  qed
  with c show ?thesis by (simp add: get_schema_def)
qed

theorem coordinator_starts_configured_witness:
  "\<exists>S m. sample_coordinator = Some S \<and> gs_discovery S = Ok m \<and> wf_schema (gs_schema S) \<and>
     map_option re_address (pick_replica m (PartitionId 1)) = Some ''10.0.0.2:7001''"
proof -
  have addrs: "parse_static_partition_addrs Some ''0=10.0.0.1:7001,1=10.0.0.2:7001'' =
      Ok [(0, ''10.0.0.1:7001''), (1, ''10.0.0.2:7001'')]"
    using static_addrs_roundtrip [of "[(0, ''10.0.0.1:7001''), (1, ''10.0.0.2:7001'')]" Some]
    by (simp add: show_partition_addr_def sample_ids)
  have "\<exists>S. sample_coordinator = Some S"
    by (simp add: sample_coordinator_def coordinator_main_def coordinator_from_env_def sample_env_def sample_files_def
        parse_env_def env_or_def env_addr_def discovery_from_env_def addrs schema_parse_sample discovery_new_def)
  then obtain S where S: "sample_coordinator = Some S" ..
  moreover have "\<exists>m. gs_discovery S = Ok m \<and> wf_schema (gs_schema S) \<and>
      map_option re_address (pick_replica m (PartitionId 1)) = Some ''10.0.0.2:7001''"
    using coordinator_starts_configured [OF S [unfolded sample_coordinator_def] sample_pest_conforms(2) valid_insertion_order]
    by (auto simp: coordinator_from_env_def sample_env_def parse_env_def env_or_def env_addr_def
        discovery_from_env_def addrs dest!: spec [of _ 1])
  ultimately show ?thesis by blast
qed

section \<open>Rebuilding\<close>

text \<open>C30. Whatever a partition node does after it started, the generation it serves and those its
  requests still hold conform to the schema it was started with, and hold only the partition's nodes.\<close>

theorem served_generations_conform:
  assumes "node_main W = Some (C, s)"
    and "pc_n_partitions C \<noteq> 0" "runs C s es t" "\<forall>e \<in> set es. \<forall>src \<in> tick_source e. catalog_source (ow_arrow W) src"
  shows "generation_conforms C (gh_current (pr_handle t)) \<and> fmpred (\<lambda>_. generation_conforms C) (pr_requests t)"
proof -
  obtain tables where "starts C (ow_now W) (IcebergCatalogReader (ow_arrow W) tables) s"
    by (rule node_main_starts [OF assms(1)])
  note served = runs_serves_built [OF assms(3) starts_serves_built [OF this]]
  have "\<forall>src \<in> {(ow_now W, IcebergCatalogReader (ow_arrow W) tables)} \<union> \<Union> (tick_source ` set es).
      catalog_source (ow_arrow W) src"
    using assms(4) by (auto simp: catalog_source_def)
  from serves_built_conforms [OF served assms(2) this] show ?thesis by simp
qed

theorem served_generations_conform_witness:
  "generation_conforms (sample_process_config 30) built_sample"
  using served_generations_conform [OF sample_node_starts(1) _
      sample_runs(2) [unfolded sample_started_def]]
  by (simp add: catalog_source_def sample_world_def) blast

text \<open>C31. A rebuild publishes: after a tick over tables that are a dataset, the process serves that
  dataset's partition, and its loop goes on.\<close>

theorem rebuild_publishes:
  assumes "process_step C s (Tick now reader) t" "pc_n_partitions C \<noteq> 0"
    and "read_tables (builder_at C reader) (pc_labels C) = Ok D" "wf_dataset D"
  shows "pr_loop_alive t \<and>
    built_for (pc_hash C) (pc_n_partitions C) D (pc_partition C) (gh_current (pr_handle t)) \<and>
    (\<forall>n. contains_node (ig_topology (gh_current (pr_handle t))) n \<longleftrightarrow>
       n \<in> ds_ids D \<and> homed (pc_hash C) (pc_n_partitions C) (pc_partition C) n)"
  using tick_serves [OF assms] contains_built [OF assms(2,4)] by blast

theorem rebuild_publishes_witness:
  "contains_node (ig_topology (gh_current (pr_handle (sample_requested 30)))) (NodeId 2)"
  using rebuild_publishes [OF sample_steps(2) _ _ wf_catalog_data] read_sample
  by (simp add: builder_at_sample catalog_data_def ds_ids_def sample_node_def homed_def home_of_def)





text \<open>Serving never waits for rebuilding: in every state a new request gets the current generation at
  once, and a live loop can always tick.\<close>

theorem serving_never_blocks:
  assumes "q |\<notin>| fmdom (pr_requests s)"
  shows "(\<exists>t. process_step C s (Acquire q) t \<and> fmlookup (pr_requests t) q = Some (gh_current (pr_handle s)) \<and>
      pr_handle t = pr_handle s) \<and>
    (\<not> pr_loop_alive s \<or> (\<exists>t. process_step C s (Tick now reader) t))"
proof -
  obtain t where t: "process_step C s (Acquire q) t" "fmlookup (pr_requests t) q = Some (gh_current (pr_handle s))"
    using process_progress(1) [OF assms] by blast
  have "pr_handle t = pr_handle s" using t(1) by (auto elim: acquireE)
  then show ?thesis using t process_progress(2) by blast
qed



section \<open>The viewer\<close>





section \<open>In one process\<close>

text \<open>C5. Without partitions: a plan run by the local executor against the single generation of a dataset,
  its hop ranges walked and its filters answered by the index, returns the bindings the plan means, which are
  those of the distributed execution, when every filter is one the index can answer.\<close>

theorem local_execution_exact:
  assumes "wf_dataset D" "built_for h 1 D (PartitionId 0) g" "valid_hash_order ho"
    and "wf_plan (qp_steps q)" "index_plan D (qp_steps q)"
  shows "\<exists>bs. run_steps ho g (qp_steps q) = Ok bs \<and> set bs = spec_plan D (\<lambda>_. True) rfc (qp_steps q)"
  by (rule run_steps_means [OF assms(1-3,5,4)])

theorem local_execution_exact_witness:
  "\<exists>bs. run_steps insertion_order (sample_generation 1 0) (qp_steps friends_plan) = Ok bs \<and>
     set bs = {friend_binding 2 1, friend_binding 2 3}"
  using local_execution_exact [OF wf_sample_data built_sample_generation [of 1 0] valid_insertion_order wf_friends_plan
      friends_plan_local, of "\<lambda>_. None"]
  by (simp add: friends_meaning)





text \<open>C39. The viewer's query for unused permissions finds them: asked of a served cluster that holds the
  inventory, it returns one row for every workload whose role is granted a store of personal data the workload has
  not accessed, and for nothing else; there are 180. Its rows name the workload, the role, the action and the store.\<close>

theorem unused_permissions_found:
  assumes "networked_ok c" "fully_available (nt_dep c)" "dp_data (nt_dep c) = cloud_data"
    and "trusted_since (dp_rfc (nt_dep c))" "gs_discovery S = Ok (dp_map (nt_dep c))"
    and "gs_executor S = \<lparr>sg_rpc = networked_rpc c, sg_hasher = dp_hasher (nt_dep c)\<rparr>"
    and "gs_schema S = cloud_cost_schema" "pest_conforms pest" "pest UNUSED_QUERY = Ok [unused_tree]"
  shows "\<exists>rows gs. execute_query (dp_hash (nt_dep c)) (dp_order (nt_dep c)) (dp_rfc (nt_dep c)) pest S UNUSED_QUERY = Ok rows \<and>
    map qr_projection rows = map unused_projection gs \<and> set gs = unused_grants \<and> distinct gs \<and> length gs = 180"
  using unused_answered [OF assms] unused_grants_count(2) distinct_card by fastforce

theorem unused_permissions_found_witness:
  "\<exists>rows gs. execute_query (\<lambda>x. x) insertion_order inventory_rfc inventory_pest inventory_service UNUSED_QUERY = Ok rows \<and>
    map qr_projection rows = map unused_projection gs \<and> set gs = unused_grants \<and> distinct gs \<and> length gs = 180"
  using unused_permissions_found [OF inventory_networked_ok _ _ _ _ _ _ inventory_pest_conforms inventory_pest_query,
      of inventory_service]
    inventory_fully_available inventory_rfc_trusted
  by simp

section \<open>The whole system\<close>



text \<open>C40. Opening the catalog: the warehouse is the directory named, resolved against the current one,
  with its separators and dots normalised and its parents kept, so that resolving it again from anywhere
  gives the same; and when the catalog is opened its namespace exists.\<close>

theorem catalog_opened:
  assumes "open_sql_catalog ops (Ok dir) sqlite warehouse namespace s = (Ok c, t)" "keeps_namespaces ops" "has_root dir"
  shows "fst (sql_namespace_exists ops c namespace t) = Ok True \<and>
    (\<exists>names u. names = (if has_root warehouse then [] else plain_names dir) @ plain_names warehouse \<and>
      sql_load ops (''sqlite://'' @ sqlite @ ''?mode=rwc'') (''file://'' @ rooted names) s = (Ok c, u) \<and>
      list_all (\<lambda>w. w \<noteq> [] \<and> w \<noteq> ''.'') names \<and>
      absolute_warehouse elsewhere (rooted names) = Ok (rooted names))"
proof -
  let ?names = "(if has_root warehouse then [] else plain_names dir) @ plain_names warehouse"
  have names: "\<forall>w \<in> set ?names. w \<noteq> [] \<and> CHR ''/'' \<notin> set w \<and> w \<noteq> ''.''"
    using plain_names_facts [of dir] plain_names_facts [of warehouse] by auto
  then have "list_all (\<lambda>w. w \<noteq> [] \<and> w \<noteq> ''.'') ?names" unfolding list_all_iff by blast
  then show ?thesis
    using open_sql_catalog_namespace [OF assms(2,1)] absolute_warehouse_again [OF names, of elsewhere]
      open_sql_catalog_loads [OF assms(1) absolute_warehouse_rooted [OF assms(3)]]
    by blast
qed

theorem catalog_opened_witness:
  "fst (sql_namespace_exists sample_sql () ''graph'' {''graph''}) = Ok True \<and>
   absolute_warehouse (Ok ''/'') (rooted (plain_names ''/srv/graph'' @ plain_names ''./warehouse'')) =
     Ok (rooted [''srv'', ''graph'', ''warehouse''])"
  using catalog_opened [OF sample_catalog_opens sample_sql_keeps, of "Ok ''/''"]
  by (simp add: has_root_def plain_names_def)

end
